(* ===== verification/Prelude.thy ===== *)
theory Prelude
  imports Complex_Main
begin

text \<open>
  Shared vocabulary of the development: HTTP errors as values, request handlers as state
  transformers, database transactions, and SQL tables as lists of rows with the statements the
  services issue (\<^verbatim>\<open>SELECT ... WHERE\<close>, \<^verbatim>\<open>UPDATE ... SET ... WHERE\<close>, \<^verbatim>\<open>INSERT\<close>). The generic
  lemmas on them are collected in \<open>table_simps\<close>, so that the component theories can rewrite a
  sequence of statements row by row. The locale \<open>guarded_service\<close> is the contract every service of
  the control plane is proved against: a request that fails leaves the database as it was or, where
  the code commits on purpose, in a state that still satisfies the service's invariant.
\<close>

named_theorems table_simps
named_theorems handler_defs

section \<open>Identifiers, time, errors\<close>

text \<open>
  UUIDs are opaque: the services only compare them. Time is the number of milliseconds since the
  epoch, which is what \<^verbatim>\<open>Date.now()\<close> returns; \<^verbatim>\<open>now()\<close> of the database is the same argument.
\<close>

type_synonym uuid = nat
type_synonym time = int

abbreviation seconds :: "int \<Rightarrow> time" where
  "seconds n \<equiv> 1000 * n"

abbreviation minutes :: "int \<Rightarrow> time" where
  "minutes n \<equiv> 60000 * n"

abbreviation hours :: "int \<Rightarrow> time" where
  "hours n \<equiv> 3600000 * n"

abbreviation days :: "int \<Rightarrow> time" where
  "days n \<equiv> 86400000 * n"

datatype http_error =
    BadRequest string
  | Unauthorized string
  | Forbidden string
  | NotFound string
  | Conflict string
  | ServiceUnavailable string
  | SqlError string
  | InternalError string

type_synonym 'a result = "http_error + 'a"
type_synonym ('s, 'a) handler = "'s \<Rightarrow> 'a result \<times> 's"

definition ok :: "'a result \<Rightarrow> bool" where
  "ok r = (case r of Inl _ \<Rightarrow> False | Inr _ \<Rightarrow> True)"

lemma ok_simps [simp]: "\<not> ok (Inl e)" "ok (Inr x)"
  by (simp_all add: ok_def)

lemma ok_iff: "ok r \<longleftrightarrow> (\<exists>x. r = Inr x)"
  by (cases r) simp_all

section \<open>Transactions\<close>

text \<open>
  \<^verbatim>\<open>BEGIN; body; COMMIT\<close> with \<^verbatim>\<open>catch (e) { ROLLBACK; throw e }\<close>: a thrown error restores the
  state the transaction started from.
\<close>

definition transaction :: "('s, 'a) handler \<Rightarrow> ('s, 'a) handler" where
  "transaction body s =
     (case body s of
        (Inl e, s') \<Rightarrow> (Inl e, s)
      | (Inr x, s') \<Rightarrow> (Inr x, s'))"

lemma transaction_Inl [simp]: "body s = (Inl e, s') \<Longrightarrow> transaction body s = (Inl e, s)"
  by (simp add: transaction_def)

lemma transaction_Inr [simp]: "body s = (Inr x, s') \<Longrightarrow> transaction body s = (Inr x, s')"
  by (simp add: transaction_def)

lemma fst_transaction [simp]: "fst (transaction body s) = fst (body s)"
  by (auto simp: transaction_def split: prod.splits sum.splits)

lemma transaction_error_unchanged: "transaction body s = (Inl e, s') \<Longrightarrow> s' = s"
  by (auto simp: transaction_def split: prod.splits sum.splits)

lemma transaction_success: "transaction body s = (Inr x, s') \<Longrightarrow> body s = (Inr x, s')"
  by (auto simp: transaction_def split: prod.splits sum.splits)

lemma transaction_preserves:
  assumes "P s" and "\<And>x s'. body s = (Inr x, s') \<Longrightarrow> P s'"
  shows "P (snd (transaction body s))"
  using assms by (auto simp: transaction_def split: prod.splits sum.splits)

section \<open>Tables\<close>

text \<open>
  A table is the list of its rows in insertion order. \<open>update_rows p f\<close> is
  \<^verbatim>\<open>UPDATE t SET f WHERE p\<close>; \<open>first_row p\<close> is \<^verbatim>\<open>SELECT * ... WHERE p LIMIT 1\<close>;
  an \<^verbatim>\<open>ORDER BY key\<close> is \<open>sort_key key\<close>, which breaks the ties SQL leaves open by insertion order.
\<close>

definition update_rows :: "('r \<Rightarrow> bool) \<Rightarrow> ('r \<Rightarrow> 'r) \<Rightarrow> 'r list \<Rightarrow> 'r list" where
  "update_rows p f t = map (\<lambda>r. if p r then f r else r) t"

definition first_row :: "('r \<Rightarrow> bool) \<Rightarrow> 'r list \<Rightarrow> 'r option" where
  "first_row p t = (case filter p t of [] \<Rightarrow> None | r # _ \<Rightarrow> Some r)"

definition count_rows :: "('r \<Rightarrow> bool) \<Rightarrow> 'r list \<Rightarrow> nat" where
  "count_rows p t = length (filter p t)"

abbreviation exists_row :: "('r \<Rightarrow> bool) \<Rightarrow> 'r list \<Rightarrow> bool" where
  "exists_row p t \<equiv> list_ex p t"

text \<open>\<open>latest key p t\<close> is \<^verbatim>\<open>SELECT * ... WHERE p ORDER BY key DESC LIMIT 1\<close>.\<close>

definition latest :: "('r \<Rightarrow> int) \<Rightarrow> ('r \<Rightarrow> bool) \<Rightarrow> 'r list \<Rightarrow> 'r option" where
  "latest key p t =
     (case sort_key (\<lambda>r. - key r) (filter p t) of [] \<Rightarrow> None | r # _ \<Rightarrow> Some r)"

lemma update_rows_Nil [simp, table_simps]: "update_rows p f [] = []"
  by (simp add: update_rows_def)

lemma update_rows_Cons [simp, table_simps]:
  "update_rows p f (r # t) = (if p r then f r else r) # update_rows p f t"
  by (simp add: update_rows_def)

lemma update_rows_append [simp, table_simps]:
  "update_rows p f (t @ u) = update_rows p f t @ update_rows p f u"
  by (simp add: update_rows_def)

lemma length_update_rows [simp, table_simps]: "length (update_rows p f t) = length t"
  by (simp add: update_rows_def)

lemma set_update_rows: "set (update_rows p f t) = (\<lambda>r. if p r then f r else r) ` set t"
  by (simp add: update_rows_def)

lemma in_update_rows:
  "r' \<in> set (update_rows p f t) \<longleftrightarrow> (\<exists>r\<in>set t. r' = (if p r then f r else r))"
  by (auto simp: set_update_rows)

lemma update_rows_hit: "r \<in> set t \<Longrightarrow> p r \<Longrightarrow> f r \<in> set (update_rows p f t)"
  by (auto simp: in_update_rows)

lemma ball_update_rows [table_simps]:
  "(\<forall>r\<in>set (update_rows p f t). Q r) \<longleftrightarrow> (\<forall>r\<in>set t. Q (if p r then f r else r))"
  by (induction t) auto

lemma map_update_rows_frame:
  "(\<And>r. p r \<Longrightarrow> g (f r) = g r) \<Longrightarrow> map g (update_rows p f t) = map g t"
  by (induction t) auto

lemma update_rows_none [table_simps]: "\<forall>r\<in>set t. \<not> p r \<Longrightarrow> update_rows p f t = t"
  by (induction t) auto

lemma count_rows_Nil [simp]: "count_rows p [] = 0"
  by (simp add: count_rows_def)

lemma count_rows_Cons [simp]: "count_rows p (r # t) = (if p r then 1 else 0) + count_rows p t"
  by (simp add: count_rows_def)

lemma count_rows_append [simp]: "count_rows p (t @ u) = count_rows p t + count_rows p u"
  by (simp add: count_rows_def)

lemma count_rows_update_frame:
  "(\<And>r. p r \<Longrightarrow> q (f r) = q r) \<Longrightarrow> count_rows q (update_rows p f t) = count_rows q t"
  by (induction t) auto

lemma count_rows_update_le:
  "(\<And>r. p r \<Longrightarrow> q (f r) \<Longrightarrow> q r) \<Longrightarrow> count_rows q (update_rows p f t) \<le> count_rows q t"
proof (induction t)
  case (Cons r t)
  then show ?case by (auto simp: le_SucI)
qed simp

lemma exists_row_update_frame:
  "(\<And>r. p r \<Longrightarrow> q (f r) = q r) \<Longrightarrow> exists_row q (update_rows p f t) = exists_row q t"
  by (induction t) auto

lemma exists_row_update_mono:
  "exists_row q t \<Longrightarrow> (\<And>r. r \<in> set t \<Longrightarrow> p r \<Longrightarrow> q r \<Longrightarrow> q (f r)) \<Longrightarrow> exists_row q (update_rows p f t)"
  by (induction t) auto

lemma exists_row_update_anti:
  "exists_row q (update_rows p f t) \<Longrightarrow> (\<And>r. r \<in> set t \<Longrightarrow> p r \<Longrightarrow> q (f r) \<Longrightarrow> q r) \<Longrightarrow> exists_row q t"
  by (induction t) (auto split: if_splits)

text \<open>A primary key stays unique when the insert checks it.\<close>

lemma distinct_insert_key:
  "distinct (map f t) \<Longrightarrow> \<not> exists_row (\<lambda>x. f x = f r) t \<Longrightarrow> distinct (map f (t @ [r]))"
  by (induction t) auto

lemma key_unique: "distinct (map f t) \<Longrightarrow> x \<in> set t \<Longrightarrow> y \<in> set t \<Longrightarrow> f x = f y \<Longrightarrow> x = y"
  by (auto simp: distinct_map dest: inj_onD)

lemma count_rows_zero: "\<forall>r\<in>set t. \<not> p r \<Longrightarrow> count_rows p t = 0"
  by (induction t) auto

lemma filter_update_frame:
  "(\<And>r. p r \<Longrightarrow> q (f r) = q r) \<Longrightarrow>
   filter q (update_rows p f t) = update_rows p f (filter q t)"
  by (induction t) auto

lemma filter_update_outside:
  "(\<And>r. p r \<Longrightarrow> \<not> q r \<and> \<not> q (f r)) \<Longrightarrow> filter q (update_rows p f t) = filter q t"
  by (induction t) auto

lemma first_row_Some: "first_row p t = Some r \<Longrightarrow> r \<in> set t \<and> p r"
proof -
  assume "first_row p t = Some r"
  then obtain rest where "filter p t = r # rest" by (auto simp: first_row_def split: list.splits)
  then have "r \<in> set (filter p t)" by simp
  then show ?thesis by simp
qed

lemma first_row_None: "first_row p t = None \<longleftrightarrow> (\<forall>r\<in>set t. \<not> p r)"
proof -
  have "first_row p t = None \<longleftrightarrow> filter p t = []" by (simp add: first_row_def split: list.splits)
  then show ?thesis by (simp add: filter_empty_conv)
qed

lemma first_row_Nil [simp]: "first_row p [] = None"
  by (simp add: first_row_def)

lemma first_row_Cons [simp]: "first_row p (r # t) = (if p r then Some r else first_row p t)"
  by (simp add: first_row_def)

lemma first_row_append:
  "first_row p (t @ u) = (case first_row p t of None \<Rightarrow> first_row p u | Some r \<Rightarrow> Some r)"
  by (induction t) auto

lemma latest_Some: "latest key p t = Some r \<Longrightarrow> r \<in> set t \<and> p r"
proof -
  assume "latest key p t = Some r"
  then obtain rest where "sort_key (\<lambda>r. - key r) (filter p t) = r # rest"
    by (auto simp: latest_def split: list.splits)
  then have "r \<in> set (sort_key (\<lambda>r. - key r) (filter p t))" by simp
  then show ?thesis by simp
qed

lemma latest_None: "latest key p t = None \<longleftrightarrow> (\<forall>r\<in>set t. \<not> p r)"
proof -
  have "latest key p t = None \<longleftrightarrow> sort_key (\<lambda>r. - key r) (filter p t) = []"
    by (simp add: latest_def split: list.splits)
  also have "\<dots> \<longleftrightarrow> filter p t = []"
    by (metis length_0_conv length_sort)
  finally show ?thesis by (simp add: filter_empty_conv)
qed

lemma sort_key_map: "sort_key k (map g xs) = map g (sort_key (\<lambda>x. k (g x)) xs)"
proof -
  have "insort_key k (g x) (map g xs) = map g (insort_key (\<lambda>x. k (g x)) x xs)" for x xs
    by (induction xs) auto
  then show ?thesis by (induction xs) auto
qed

lemma latest_update:
  assumes "\<And>r. q r \<Longrightarrow> key (f r) = key r" "\<And>r. q r \<Longrightarrow> p (f r) = p r"
  shows "latest key p (update_rows q f t) = map_option (\<lambda>r. if q r then f r else r) (latest key p t)"
proof -
  let ?g = "\<lambda>r. if q r then f r else r"
  have "filter p (update_rows q f t) = map ?g (filter p t)" using assms(2) by (induction t) auto
  moreover have "(\<lambda>r. - key (?g r)) = (\<lambda>r. - key r)" using assms(1) by auto
  ultimately show ?thesis by (simp add: latest_def sort_key_map split: list.splits)
qed

lemma latest_only: "filter p t = [r] \<Longrightarrow> latest key p t = Some r"
  by (simp add: latest_def)

lemma first_row_unique:
  assumes "distinct (map g t)" "r \<in> set t"
  shows "first_row (\<lambda>x. g x = g r) t = Some r"
proof (cases "first_row (\<lambda>x. g x = g r) t")
  case None
  with assms(2) show ?thesis by (auto simp: first_row_None)
next
  case (Some x)
  with first_row_Some [OF Some] assms have "x = r" by (auto simp: distinct_map dest: inj_onD)
  with Some show ?thesis by simp
qed

lemma latest_max: "latest key p t = Some r \<Longrightarrow> r' \<in> set t \<Longrightarrow> p r' \<Longrightarrow> key r' \<le> key r"
proof -
  assume l: "latest key p t = Some r" and r': "r' \<in> set t" "p r'"
  from l obtain rest where s: "sort_key (\<lambda>r. - key r) (filter p t) = r # rest"
    by (auto simp: latest_def split: list.splits)
  then have "sorted (map (\<lambda>r. - key r) (r # rest))"
    by (metis sorted_sort_key)
  moreover have "r' \<in> set (r # rest)"
  proof -
    from r' have "r' \<in> set (sort_key (\<lambda>r. - key r) (filter p t))" by simp
    then show ?thesis by (simp only: s)
  qed
  ultimately show ?thesis by auto
qed

section \<open>JavaScript strings\<close>

text \<open>\<^verbatim>\<open>String.prototype.trim\<close> on one-byte characters.\<close>

definition js_space :: "char \<Rightarrow> bool" where
  "js_space c \<longleftrightarrow> (of_char c :: nat) \<in> {9, 10, 11, 12, 13, 32, 160}"

definition js_trim :: "string \<Rightarrow> string" where
  "js_trim s = rev (dropWhile js_space (rev (dropWhile js_space s)))"

text \<open>\<^verbatim>\<open>s.split(c)\<close>: the empty string splits into one empty part.\<close>

fun js_split :: "char \<Rightarrow> string \<Rightarrow> string list" where
  "js_split c [] = [[]]"
| "js_split c (x # xs) =
     (case js_split c xs of
        [] \<Rightarrow> []
      | part # parts \<Rightarrow> if x = c then [] # part # parts else (x # part) # parts)"

section \<open>Sums over tables\<close>

lemma sum_list_update_rows:
  fixes v :: "'r \<Rightarrow> 'b :: ab_group_add"
  shows "sum_list (map v (update_rows p f t)) =
         sum_list (map v t) + sum_list (map (\<lambda>r. v (f r) - v r) (filter p t))"
  by (induction t) (auto simp: algebra_simps)

lemma sum_list_update_frame:
  "(\<And>r. p r \<Longrightarrow> v (f r) = v r) \<Longrightarrow>
   sum_list (map v (update_rows p f t)) = sum_list (map v t)"
  by (simp add: map_update_rows_frame)

section \<open>Services\<close>

text \<open>
  The contract of a service: its invariant holds after every request, whatever the request and
  whether it succeeded. The sequence of requests a service handles is a list of them, in the order
  their statements reach the database.
\<close>

definition run_requests :: "('req \<Rightarrow> 's \<Rightarrow> 's) \<Rightarrow> 'req list \<Rightarrow> 's \<Rightarrow> 's" where
  "run_requests exec reqs s = fold exec reqs s"

lemma run_requests_Nil [simp]: "run_requests exec [] s = s"
  by (simp add: run_requests_def)

lemma run_requests_Cons [simp]:
  "run_requests exec (r # rs) s = run_requests exec rs (exec r s)"
  by (simp add: run_requests_def)

lemma run_requests_append:
  "run_requests exec (rs @ qs) s = run_requests exec qs (run_requests exec rs s)"
  by (simp add: run_requests_def)

locale guarded_service =
  fixes exec :: "'req \<Rightarrow> 's \<Rightarrow> 's"
    and inv :: "'s \<Rightarrow> bool"
  assumes exec_inv: "inv s \<Longrightarrow> inv (exec req s)"
begin

lemma run_inv: "inv s \<Longrightarrow> inv (run_requests exec reqs s)"
  by (induction reqs arbitrary: s) (auto intro: exec_inv)

end

text \<open>
  A service whose requests only move the state along a relation that is reflexive and transitive keeps
  that relation between the first and the last state of any run: terminal states, monotone counters
  and append-only logs are instances. In \<open>selective_service\<close> only the requests that satisfy \<open>sel\<close>
  respect the relation, for instance those of other users.
\<close>

locale selective_service =
  fixes exec :: "'req \<Rightarrow> 's \<Rightarrow> 's"
    and leq :: "'s \<Rightarrow> 's \<Rightarrow> bool"
    and sel :: "'req \<Rightarrow> bool"
  assumes leq_refl: "leq s s"
    and leq_trans: "leq s t \<Longrightarrow> leq t u \<Longrightarrow> leq s u"
    and exec_sel_leq: "sel req \<Longrightarrow> leq s (exec req s)"
begin

lemma run_sel_leq: "\<forall>req\<in>set reqs. sel req \<Longrightarrow> leq s (run_requests exec reqs s)"
proof (induction reqs arbitrary: s)
  case Nil
  show ?case by (simp add: leq_refl)
next
  case (Cons r rs)
  have "leq s (exec r s)" using Cons.prems by (intro exec_sel_leq) simp
  also have "leq (exec r s) (run_requests exec rs (exec r s))" using Cons by simp
  finally (leq_trans) show ?case by simp
qed

end

locale monotone_service =
  fixes exec :: "'req \<Rightarrow> 's \<Rightarrow> 's"
    and leq :: "'s \<Rightarrow> 's \<Rightarrow> bool"
  assumes leq_refl: "leq s s"
    and leq_trans: "leq s t \<Longrightarrow> leq t u \<Longrightarrow> leq s u"
    and exec_leq: "leq s (exec req s)"

sublocale monotone_service \<subseteq> every_request: selective_service exec leq "\<lambda>_. True"
  by unfold_locales (auto intro: leq_refl leq_trans exec_leq)

context monotone_service
begin

lemma run_leq: "leq s (run_requests exec reqs s)"
  by (rule every_request.run_sel_leq) simp

end

end
