(* ===== verification/Decimals.thy ===== *)
theory Decimals
  imports Prelude
begin

text \<open>
  The monetary arithmetic of the control plane is done by the third-party package decimal.js, set up
  once with \<^verbatim>\<open>Decimal.set({ precision: 20, rounding: ROUND_HALF_UP })\<close> in
  \<^verbatim>\<open>commission-engine.ts\<close>. The package is a parameter of the model: a record of the operations
  the services call on finite values, which denote rationals. The locale \<open>decimal_arith\<close> states what
  its documentation promises for that configuration; comparisons (\<^verbatim>\<open>gt\<close>, \<^verbatim>\<open>lt\<close>, \<^verbatim>\<open>isZero\<close>, ...) are
  exact. \<open>dec20\<close> is an executable instance that rounds to twenty significant digits, half away from
  zero, and is used to show that the contract can be met.
\<close>

section \<open>The operations and their contract\<close>

record decimal_ops =
  d_mul :: "rat \<Rightarrow> rat \<Rightarrow> rat"
  d_plus :: "rat \<Rightarrow> rat \<Rightarrow> rat"
  d_minus :: "rat \<Rightarrow> rat \<Rightarrow> rat"
  d_toDP :: "nat \<Rightarrow> rat \<Rightarrow> rat"
  d_div :: "rat \<Rightarrow> rat \<Rightarrow> rat"

text \<open>A value fits the precision when it is an integer of at most twenty digits, scaled.\<close>

definition fits20 :: "rat \<Rightarrow> bool" where
  "fits20 z \<longleftrightarrow> (\<exists>(m::int) (e::int). \<bar>m\<bar> < 10 ^ 20 \<and> z = of_int m * 10 powi e)"

text \<open>Half a unit in the twentieth digit, relative to the value.\<close>

definition mul_eps :: rat where
  "mul_eps = 1 / (2 * 10 ^ 19)"

lemma mul_eps_bounds: "0 < mul_eps" "mul_eps < 1"
  by (simp_all add: mul_eps_def)

text \<open>
  The input of \<^verbatim>\<open>new Decimal(x)\<close> need not be finite: \<^verbatim>\<open>isFinite\<close> tells. Every comparison with
  NaN is false; the sign of an infinity is \<open>True\<close> for plus.
\<close>

datatype decimal = Finite rat | Infinite bool | NaN

fun dec_lt :: "decimal \<Rightarrow> decimal \<Rightarrow> bool" where
  "dec_lt NaN _ = False"
| "dec_lt _ NaN = False"
| "dec_lt (Finite x) (Finite y) = (x < y)"
| "dec_lt (Finite x) (Infinite s) = s"
| "dec_lt (Infinite s) (Finite y) = (\<not> s)"
| "dec_lt (Infinite s) (Infinite s') = (\<not> s \<and> s')"

fun dec_lte :: "decimal \<Rightarrow> decimal \<Rightarrow> bool" where
  "dec_lte NaN _ = False"
| "dec_lte _ NaN = False"
| "dec_lte x y = (\<not> dec_lt y x)"

locale decimal_arith =
  fixes D :: decimal_ops
  assumes mul_exact: "fits20 (x * y) \<Longrightarrow> d_mul D x y = x * y"
    and mul_rel: "\<bar>d_mul D x y - x * y\<bar> \<le> \<bar>x * y\<bar> * mul_eps"
    and plus_exact: "fits20 (x + y) \<Longrightarrow> d_plus D x y = x + y"
    and minus_exact: "fits20 (x - y) \<Longrightarrow> d_minus D x y = x - y"
    and toDP_err: "\<bar>d_toDP D n x - x\<bar> \<le> 1 / (2 * 10 ^ n)"
    and toDP_grid: "\<exists>k::int. d_toDP D n x = of_int k / 10 ^ n"
    and div_exact: "y \<noteq> 0 \<Longrightarrow> fits20 (x / y) \<Longrightarrow> d_div D x y = x / y"
begin

lemma mul_nonneg: "0 \<le> x \<Longrightarrow> 0 \<le> y \<Longrightarrow> 0 \<le> d_mul D x y"
proof -
  assume "0 \<le> x" "0 \<le> y"
  then have p: "0 \<le> x * y" by simp
  have "x * y * mul_eps \<le> x * y * 1"
    using p mul_eps_bounds by (intro mult_left_mono) simp_all
  moreover have "\<bar>d_mul D x y - x * y\<bar> \<le> x * y * mul_eps"
    using mul_rel [of x y] p by simp
  ultimately show ?thesis by linarith
qed

lemma mul_upper: "0 \<le> x \<Longrightarrow> 0 \<le> y \<Longrightarrow> d_mul D x y \<le> x * y * (1 + mul_eps)"
proof -
  assume "0 \<le> x" "0 \<le> y"
  then have "\<bar>d_mul D x y - x * y\<bar> \<le> x * y * mul_eps"
    using mul_rel [of x y] by simp
  then show ?thesis by (simp add: distrib_left abs_le_iff)
qed

lemma toDP_upper: "d_toDP D n x \<le> x + 1 / (2 * 10 ^ n)"
  using toDP_err [of n x] by linarith

lemma toDP_nonneg: "0 \<le> x \<Longrightarrow> 0 \<le> d_toDP D n x"
proof (rule ccontr)
  assume x: "0 \<le> x" and "\<not> 0 \<le> d_toDP D n x"
  then have neg: "d_toDP D n x < 0" by simp
  obtain k :: int where k: "d_toDP D n x = of_int k / 10 ^ n" using toDP_grid by blast
  with neg have "k < 0" by (simp add: divide_less_0_iff)
  then have "k \<le> -1" by simp
  then have "of_int k \<le> (-1 :: rat)" by (metis of_int_le_iff of_int_minus of_int_1)
  then have "d_toDP D n x \<le> -1 / 10 ^ n"
    by (simp add: k divide_right_mono del: divide_minus_left)
  moreover have "- (1 / (2 * 10 ^ n)) \<le> d_toDP D n x - x"
    using toDP_err [of n x] by (simp add: abs_le_iff)
  moreover have "(-1 :: rat) / 10 ^ n < - (1 / (2 * 10 ^ n))"
    by (simp add: field_simps)
  ultimately show False using x by linarith
qed

lemma toDP_exact: "x = of_int k / 10 ^ n \<Longrightarrow> d_toDP D n x = x"
proof -
  assume x: "x = of_int k / 10 ^ n"
  obtain l :: int where l: "d_toDP D n x = of_int l / 10 ^ n" using toDP_grid by blast
  have "\<bar>of_int (l - k) / 10 ^ n\<bar> \<le> (1 / (2 * 10 ^ n) :: rat)"
    using toDP_err [of n x] unfolding l by (simp add: x diff_divide_distrib)
  then have "\<bar>of_int (l - k) :: rat\<bar> \<le> 1 / 2" by (simp add: abs_divide field_simps)
  then have "\<bar>l - k\<bar> < 1" by linarith
  then show ?thesis using l x by simp
qed

lemma cent_min: "0 < d_toDP D 2 x \<Longrightarrow> 1 / 100 \<le> d_toDP D 2 x"
proof -
  assume pos: "0 < d_toDP D 2 x"
  obtain k :: int where k: "d_toDP D 2 x = of_int k / 10 ^ 2" using toDP_grid by blast
  with pos have "1 \<le> k" by (simp add: zero_less_divide_iff)
  then have "(1 :: rat) \<le> of_int k" by simp
  then show ?thesis by (simp add: k)
qed

end

section \<open>Amounts of the database columns\<close>

text \<open>The monetary columns are \<^verbatim>\<open>DECIMAL(18,8)\<close>: multiples of one hundred-millionth.\<close>

definition grid8 :: "rat \<Rightarrow> bool" where
  "grid8 x \<longleftrightarrow> (\<exists>k::int. x = of_int k / 10 ^ 8)"

lemma grid8_diff: "grid8 x \<Longrightarrow> grid8 y \<Longrightarrow> grid8 (x - y)"
proof -
  assume "grid8 x" "grid8 y"
  then obtain k l :: int where "x = of_int k / 10 ^ 8" "y = of_int l / 10 ^ 8" by (auto simp: grid8_def)
  then show ?thesis unfolding grid8_def by (intro exI [of _ "k - l"]) (simp add: diff_divide_distrib)
qed

lemma grid8_add: "grid8 x \<Longrightarrow> grid8 y \<Longrightarrow> grid8 (x + y)"
proof -
  assume "grid8 x" "grid8 y"
  then obtain k l :: int where "x = of_int k / 10 ^ 8" "y = of_int l / 10 ^ 8" by (auto simp: grid8_def)
  then show ?thesis unfolding grid8_def by (intro exI [of _ "k + l"]) (simp add: add_divide_distrib)
qed

lemma grid8_min: "grid8 x \<Longrightarrow> grid8 y \<Longrightarrow> grid8 (min x y)"
  by (simp add: min_def)

lemma grid8_fits20:
  assumes "grid8 x" and "\<bar>x\<bar> < 10 ^ 12"
  shows "fits20 x"
proof -
  obtain k :: int where k: "x = of_int k / 10 ^ 8" using assms(1) by (auto simp: grid8_def)
  have "\<bar>of_int k :: rat\<bar> < of_int (10 ^ 20)" using assms(2) by (simp add: k)
  then have "\<bar>k\<bar> < 10 ^ 20" by (simp only: of_int_abs [symmetric] of_int_less_iff)
  moreover have "x = of_int k * 10 powi (- 8)"
    unfolding k by (simp only: power_int_minus power_int_numeral divide_inverse)
  ultimately show ?thesis unfolding fits20_def by blast
qed

section \<open>An executable instance\<close>

text \<open>Rounding to a grid of spacing \<open>10 powi -s\<close>, half away from zero.\<close>

definition round_grid :: "int \<Rightarrow> rat \<Rightarrow> rat" where
  "round_grid s x = sgn x * of_int \<lfloor>\<bar>x\<bar> * 10 powi s + 1 / 2\<rfloor> * 10 powi (- s)"

text \<open>The decimal exponent of a positive number: \<open>10 powi e \<le> x < 10 powi (e + 1)\<close>.\<close>

function exponent10 :: "rat \<Rightarrow> int" where
  "exponent10 x =
     (if x \<le> 0 then 0
      else if 10 \<le> x then exponent10 (x / 10) + 1
      else if x < 1 then exponent10 (x * 10) - 1
      else 0)"
  by pat_completeness auto
termination
proof (relation "measure (\<lambda>x :: rat. if x < 1 then nat \<lfloor>1 / x\<rfloor> else if x < 10 then 0 else nat \<lfloor>x\<rfloor>)",
    goal_cases)
  case (2 x)
  then have "\<lfloor>x / 10\<rfloor> < \<lfloor>x\<rfloor>" "10 \<le> \<lfloor>x\<rfloor>" by linarith+
  with 2 show ?case by auto
next
  case (3 x)
  then have x: "0 < x" "x < 1" by simp_all
  then have inv: "1 \<le> 1 / x" by simp
  have "1 / (x * 10) + 9 / 10 \<le> 1 / x" using x by (simp add: field_simps)
  have "\<lfloor>1 / (x * 10)\<rfloor> < \<lfloor>1 / x\<rfloor>" if "x * 10 < 1"
  proof -
    have "10 < 1 / x" using that x by (simp add: field_simps)
    moreover have "1 / (x * 10) = (1 / x) / 10" by simp
    ultimately show ?thesis by linarith
  qed
  moreover have "1 \<le> \<lfloor>1 / x\<rfloor>" using inv by (simp add: le_floor_iff)
  ultimately show ?case using x by auto
qed simp

declare exponent10.simps [simp del]

lemma exponent10_bounds:
  "0 < x \<Longrightarrow> 10 powi (exponent10 x) \<le> x \<and> x < 10 powi (exponent10 x + 1)"
proof (induction x rule: exponent10.induct)
  case (1 x)
  consider "10 \<le> x" | "x < 1" | "1 \<le> x" "x < 10" by linarith
  then show ?case
  proof cases
    case 1
    with "1.prems" "1.IH"(1) have
      "10 powi exponent10 (x / 10) \<le> x / 10 \<and> x / 10 < 10 powi (exponent10 (x / 10) + 1)"
      by simp
    with 1 show ?thesis
      by (simp add: exponent10.simps [of x] power_int_add field_simps)
  next
    case 2
    with "1.prems" "1.IH"(2) have
      "10 powi exponent10 (x * 10) \<le> x * 10 \<and> x * 10 < 10 powi (exponent10 (x * 10) + 1)"
      by simp
    with 2 "1.prems" show ?thesis
      by (simp add: exponent10.simps [of x] power_int_add power_int_diff field_simps)
  next
    case 3
    then show ?thesis by (simp add: exponent10.simps [of x])
  qed
qed

definition round_sig20 :: "rat \<Rightarrow> rat" where
  "round_sig20 x = (if x = 0 then 0 else round_grid (19 - exponent10 \<bar>x\<bar>) x)"

definition dec20 :: decimal_ops where
  "dec20 = \<lparr>d_mul = (\<lambda>x y. round_sig20 (x * y)), d_plus = (\<lambda>x y. round_sig20 (x + y)),
            d_minus = (\<lambda>x y. round_sig20 (x - y)), d_toDP = (\<lambda>n. round_grid (int n)),
            d_div = (\<lambda>x y. round_sig20 (x / y))\<rparr>"

lemma round_grid_err: "\<bar>round_grid s x - x\<bar> \<le> 10 powi (- s) / 2"
proof -
  define g :: rat where "g = 10 powi s"
  have g: "0 < g" by (simp add: g_def)
  have inv: "10 powi (- s) = 1 / g" by (simp add: g_def power_int_minus divide_inverse)
  define k where "k = \<lfloor>\<bar>x\<bar> * g + 1 / 2\<rfloor>"
  have "\<bar>of_int k - \<bar>x\<bar> * g\<bar> \<le> 1 / 2" unfolding k_def by linarith
  then have "\<bar>of_int k / g - \<bar>x\<bar>\<bar> \<le> 1 / (2 * g)"
    using g by (simp add: abs_le_iff field_simps)
  moreover have "round_grid s x - x = sgn x * (of_int k / g - \<bar>x\<bar>)"
    by (simp add: round_grid_def inv k_def g_def [symmetric] right_diff_distrib abs_sgn mult.commute
        mult_sgn_abs)
  moreover have "\<bar>sgn x * y\<bar> \<le> \<bar>y\<bar>" for y :: rat by (cases x "0 :: rat" rule: linorder_cases) auto
  ultimately show ?thesis using inv by (metis (no_types, lifting) divide_divide_eq_left mult.commute order_trans)
qed

lemma round_grid_integral: "\<exists>k::int. round_grid s x = of_int k * 10 powi (- s)"
proof -
  have "sgn x = (of_int (if x = 0 then 0 else if 0 < x then 1 else -1) :: rat)" by (simp add: sgn_if)
  then show ?thesis unfolding round_grid_def by (metis of_int_mult)
qed

lemma round_grid_exact:
  assumes "x = of_int k * 10 powi (- s)"
  shows "round_grid s x = x"
proof -
  have "\<bar>x\<bar> * 10 powi s = of_int \<bar>k\<bar>"
    by (simp add: assms abs_mult power_int_minus)
  then have "\<lfloor>\<bar>x\<bar> * 10 powi s + 1 / 2\<rfloor> = \<bar>k\<bar>"
    by (simp only: floor_eq_iff) simp
  then have "round_grid s x = sgn x * \<bar>x\<bar>"
    by (simp add: round_grid_def assms abs_mult mult.assoc)
  then show ?thesis by (simp add: sgn_mult_abs)
qed

lemma round_sig20_rel: "\<bar>round_sig20 x - x\<bar> \<le> \<bar>x\<bar> * mul_eps"
proof (cases "x = 0")
  case False
  define e where "e = exponent10 \<bar>x\<bar>"
  have "10 powi e \<le> \<bar>x\<bar>" using exponent10_bounds [of "\<bar>x\<bar>"] False by (simp add: e_def)
  then have "10 powi e * mul_eps \<le> \<bar>x\<bar> * mul_eps"
    using mul_eps_bounds by (intro mult_right_mono) simp_all
  moreover have "\<bar>round_grid (19 - e) x - x\<bar> \<le> 10 powi (- (19 - e)) / 2"
    by (rule round_grid_err)
  moreover have "10 powi (- (19 - e)) / 2 = 10 powi e * mul_eps"
    by (simp add: power_int_diff mul_eps_def)
  ultimately show ?thesis
    using False by (simp add: round_sig20_def e_def)
qed (simp add: round_sig20_def)

lemma round_sig20_exact:
  assumes "fits20 z"
  shows "round_sig20 z = z"
proof (cases "z = 0")
  case False
  from assms obtain m e :: int where m: "\<bar>m\<bar> < 10 ^ 20" and z: "z = of_int m * 10 powi e"
    by (auto simp: fits20_def)
  define q where "q = exponent10 \<bar>z\<bar>"
  have q: "10 powi q \<le> \<bar>z\<bar>" using exponent10_bounds [of "\<bar>z\<bar>"] False by (simp add: q_def)
  have "\<bar>of_int m :: rat\<bar> < 10 ^ 20" using m by (metis of_int_abs of_int_less_iff of_int_numeral of_int_power)
  then have "\<bar>z\<bar> < 10 powi (e + 20)"
    by (simp add: z abs_mult power_int_add mult.commute)
  with q have "10 powi q < (10 :: rat) powi (e + 20)" by linarith
  then have "q < e + 20"
    by (metis linorder_not_less one_le_numeral power_int_increasing)
  then have "int (nat (e + 19 - q)) = e + 19 - q" by simp
  then have "(10 :: rat) ^ nat (e + 19 - q) = 10 powi (e + 19 - q)"
    by (metis power_int_of_nat)
  then have n: "10 powi e = (of_int (10 ^ nat (e + 19 - q)) * 10 powi (- (19 - q)) :: rat)"
    by (simp flip: power_int_add)
  have "z = of_int (m * 10 ^ nat (e + 19 - q)) * 10 powi (- (19 - q))"
    by (simp only: z n of_int_mult mult.assoc)
  then have "round_grid (19 - q) z = z" by (rule round_grid_exact)
  then show ?thesis using False by (simp only: round_sig20_def q_def [symmetric]) simp
qed (simp add: round_sig20_def)

lemma dec20_toDP: "d_toDP dec20 n = round_grid (int n)"
  by (simp add: dec20_def)

lemma powi_minus_nat: "10 powi (- int n) = (1 / 10 ^ n :: rat)"
  by (simp add: power_int_minus divide_inverse)

interpretation dec20: decimal_arith dec20
proof (unfold_locales, goal_cases)
  case (1 x y) then show ?case by (simp add: dec20_def round_sig20_exact)
next
  case (2 x y) show ?case using round_sig20_rel [of "x * y"] by (simp add: dec20_def)
next
  case (3 x y) then show ?case by (simp add: dec20_def round_sig20_exact)
next
  case (4 x y) then show ?case by (simp add: dec20_def round_sig20_exact)
next
  case (5 n x)
  have "1 / 10 ^ n / 2 = (1 / (2 * 10 ^ n) :: rat)" by (simp only: divide_divide_eq_left mult.commute)
  then show ?case
    using round_grid_err [of "int n" x] by (simp only: dec20_toDP powi_minus_nat)
next
  case (6 n x)
  show ?case
    using round_grid_integral [of "int n" x]
    by (simp only: dec20_toDP powi_minus_nat times_divide_eq_right mult_1_right)
next
  case (7 y x) then show ?case by (simp add: dec20_def round_sig20_exact)
qed

end
