(* ===== verification/Entitlements.thy ===== *)
theory Entitlements
  imports Prelude
begin

text \<open>
  What a plan entitles a subscriber to: the strategy selection policy of
  \<^verbatim>\<open>control/src/modules/subscriptions/entitlement-policy.ts\<close> and the feature visibility tables of
  \<^verbatim>\<open>control/src/common/feature-access.ts\<close>. The two properties say that the validator accepts
  exactly the selections the plan allows, and that the two redundant visibility tables agree.
\<close>

section \<open>Strategy selection\<close>

definition STRATEGIES :: "string list" where
  "STRATEGIES = [''STANDARD_SCALPING'', ''ULTRA_SCALPING'', ''STANDARD_SWING'', ''TREND_SWING'',
                 ''MARNIE_FIB'', ''ATEN'', ''ARCANIST'']"

record plan_policy =
  pp_code :: string
  pp_allowedStrategies :: "string list"
  pp_maxActiveStrategies :: int

datatype strategy_reason =
    AT_LEAST_ONE_STRATEGY_REQUIRED | UNKNOWN_STRATEGY | STRATEGY_NOT_ENTITLED | PLAN_STRATEGY_LIMIT

text \<open>The decision: the reason of a refusal, or the selection.\<close>

type_synonym strategy_decision = "strategy_reason + string list"

text \<open>\<^verbatim>\<open>[...new Set(xs)]\<close> keeps the first occurrence of each element, in order.\<close>

definition js_uniq :: "'a list \<Rightarrow> 'a list" where
  "js_uniq xs = rev (remdups (rev xs))"

definition validateStrategySelection :: "plan_policy \<Rightarrow> string list option \<Rightarrow> strategy_decision" where
  "validateStrategySelection policy requested =
     (let selected = js_uniq (case requested of None \<Rightarrow> [] | Some xs \<Rightarrow> xs)
      in if selected = [] then Inl AT_LEAST_ONE_STRATEGY_REQUIRED
         else if list_ex (\<lambda>s. s \<notin> set STRATEGIES) selected then Inl UNKNOWN_STRATEGY
         else if list_ex (\<lambda>s. s \<notin> set (pp_allowedStrategies policy)) selected then Inl STRATEGY_NOT_ENTITLED
         else if int (length selected) > pp_maxActiveStrategies policy then Inl PLAN_STRATEGY_LIMIT
         else Inr selected)"

text \<open>The \<^verbatim>\<open>allowed_strategies\<close> column is JSON: a value that is not an array counts as empty.\<close>

definition planPolicyFromRow :: "string \<Rightarrow> string list option \<Rightarrow> int option \<Rightarrow> plan_policy" where
  "planPolicyFromRow code allowed slots =
     \<lparr>pp_code = code, pp_allowedStrategies = (case allowed of Some xs \<Rightarrow> xs | None \<Rightarrow> []),
      pp_maxActiveStrategies = (case slots of Some n \<Rightarrow> n | None \<Rightarrow> 0)\<rparr>"

lemma set_js_uniq [simp]: "set (js_uniq xs) = set xs"
  by (simp add: js_uniq_def)

lemma distinct_js_uniq [simp]: "distinct (js_uniq xs)"
  by (simp add: js_uniq_def)

lemma js_uniq_eq_Nil [simp]: "js_uniq xs = [] \<longleftrightarrow> xs = []"
  by (simp add: js_uniq_def)

lemma length_js_uniq: "length (js_uniq xs) = card (set xs)"
  by (metis distinct_card distinct_js_uniq set_js_uniq)

text \<open>A selection that a policy allows.\<close>

definition selection_ok :: "plan_policy \<Rightarrow> string list \<Rightarrow> bool" where
  "selection_ok policy xs \<longleftrightarrow>
     xs \<noteq> [] \<and> distinct xs \<and> set xs \<subseteq> set STRATEGIES \<and> set xs \<subseteq> set (pp_allowedStrategies policy) \<and>
     int (length xs) \<le> pp_maxActiveStrategies policy"

lemma validate_selection_Inr:
  "validateStrategySelection policy requested = Inr sel \<Longrightarrow> selection_ok policy sel"
  by (auto simp: validateStrategySelection_def Let_def selection_ok_def list_ex_iff not_less split: if_splits)

section \<open>Feature visibility\<close>

datatype feature_level = Core | Advanced | Smc | Full

datatype feature_group =
    core_indicators | advanced_technical | structure_smc | cross_market_view | cross_market_full
  | marnie_fib_evidence

definition FEATURE_ACCESS_LEVELS :: "(string \<times> feature_level) list" where
  "FEATURE_ACCESS_LEVELS = [(''core'', Core), (''advanced'', Advanced), (''smc'', Smc), (''full'', Full)]"

definition FEATURE_GROUPS :: "feature_group list" where
  "FEATURE_GROUPS = [core_indicators, advanced_technical, structure_smc, cross_market_view,
                     cross_market_full, marnie_fib_evidence]"

text \<open>\<^verbatim>\<open>isFeatureAccessLevel\<close>: \<open>None\<close> for a value that is not one of the four strings.\<close>

definition isFeatureAccessLevel :: "string option \<Rightarrow> feature_level option" where
  "isFeatureAccessLevel v = (case v of None \<Rightarrow> None | Some s \<Rightarrow> map_of FEATURE_ACCESS_LEVELS s)"

fun FEATURE_GROUP_MIN_LEVEL :: "feature_group \<Rightarrow> feature_level" where
  "FEATURE_GROUP_MIN_LEVEL core_indicators = Core"
| "FEATURE_GROUP_MIN_LEVEL advanced_technical = Advanced"
| "FEATURE_GROUP_MIN_LEVEL structure_smc = Smc"
| "FEATURE_GROUP_MIN_LEVEL cross_market_view = Smc"
| "FEATURE_GROUP_MIN_LEVEL cross_market_full = Full"
| "FEATURE_GROUP_MIN_LEVEL marnie_fib_evidence = Full"

fun PLAN_FEATURE_ACCESS :: "feature_level \<Rightarrow> feature_group list" where
  "PLAN_FEATURE_ACCESS Core = [core_indicators]"
| "PLAN_FEATURE_ACCESS Advanced = [core_indicators, advanced_technical]"
| "PLAN_FEATURE_ACCESS Smc = [core_indicators, advanced_technical, structure_smc, cross_market_view]"
| "PLAN_FEATURE_ACCESS Full = FEATURE_GROUPS"

definition hasFeatureAccess :: "string option \<Rightarrow> feature_group \<Rightarrow> bool" where
  "hasFeatureAccess lvl g =
     (case isFeatureAccessLevel lvl of None \<Rightarrow> False | Some l \<Rightarrow> g \<in> set (PLAN_FEATURE_ACCESS l))"

definition visibleFeatureGroups :: "string option \<Rightarrow> feature_group list" where
  "visibleFeatureGroups lvl =
     (case isFeatureAccessLevel lvl of None \<Rightarrow> PLAN_FEATURE_ACCESS Core | Some l \<Rightarrow> PLAN_FEATURE_ACCESS l)"

text \<open>The levels are ordered as the code lists them.\<close>

instantiation feature_level :: linorder
begin

fun rank_level :: "feature_level \<Rightarrow> nat" where
  "rank_level Core = 0"
| "rank_level Advanced = 1"
| "rank_level Smc = 2"
| "rank_level Full = 3"

definition less_eq_feature_level :: "feature_level \<Rightarrow> feature_level \<Rightarrow> bool" where
  "l \<le> m \<longleftrightarrow> rank_level l \<le> rank_level m"

definition less_feature_level :: "feature_level \<Rightarrow> feature_level \<Rightarrow> bool" where
  "l < m \<longleftrightarrow> rank_level l < rank_level m"

instance
proof
  fix x y :: feature_level
  show "x \<le> y \<Longrightarrow> y \<le> x \<Longrightarrow> x = y"
    by (cases x; cases y) (simp_all add: less_eq_feature_level_def)
qed (auto simp: less_eq_feature_level_def less_feature_level_def)

end

section \<open>Properties\<close>

text \<open>
  The strategy validator accepts a request exactly when it names at least one strategy, only
  strategies that exist and that the plan allows, and no more different ones than the plan has slots;
  it then returns the requested strategies without repetition.
\<close>

theorem validate_selection_exact:
  "validateStrategySelection policy (Some req) = Inr sel \<longleftrightarrow>
     sel = js_uniq req \<and> req \<noteq> [] \<and> set req \<subseteq> set STRATEGIES \<and> set req \<subseteq> set (pp_allowedStrategies policy) \<and>
     int (card (set req)) \<le> pp_maxActiveStrategies policy"
  by (auto simp: validateStrategySelection_def Let_def list_ex_iff length_js_uniq not_less)

text \<open>
  The visibility table per access level and the table of minimum levels per feature group agree:
  a level sees a group exactly when it is at least the group's minimum level; a higher level never
  sees less; an unknown level has no access and is shown the core groups only.
\<close>

theorem feature_tables_agree:
  "(g \<in> set (PLAN_FEATURE_ACCESS l) \<longleftrightarrow> FEATURE_GROUP_MIN_LEVEL g \<le> l) \<and>
   (case isFeatureAccessLevel v of
      Some l \<Rightarrow> hasFeatureAccess v g = (FEATURE_GROUP_MIN_LEVEL g \<le> l) \<and>
                (g \<in> set (visibleFeatureGroups v)) = hasFeatureAccess v g
    | None \<Rightarrow> \<not> hasFeatureAccess v g \<and> visibleFeatureGroups v = [core_indicators])"
proof -
  have agree: "g \<in> set (PLAN_FEATURE_ACCESS l) \<longleftrightarrow> FEATURE_GROUP_MIN_LEVEL g \<le> l" for l
    by (cases l; cases g) (simp_all add: FEATURE_GROUPS_def less_eq_feature_level_def)
  then show ?thesis
    by (simp add: hasFeatureAccess_def visibleFeatureGroups_def split: option.split)
qed

end
