(* ===== verification/Billing.thy ===== *)
theory Billing
  imports Decimals Entitlements
begin

text \<open>
  The billing service, \<^verbatim>\<open>control/src/modules/billing/billing.service.ts\<close>, over the tables of the
  schema \<^verbatim>\<open>billing\<close> and the plans: the generation of the invoice of a billing period with its line
  items, tax and totals, its settlement, the signed payment webhook with its replay protection, the
  ownership checks, the listings and the HTML escaping of the rendered invoice. The keyed hash of
  \<^verbatim>\<open>crypto\<close> is a parameter. The properties state the arithmetic of an invoice, that a period is
  invoiced at most once, and what the webhook does with a forged, a repeated and a paid event.
\<close>

section \<open>Rows\<close>

datatype billing_interval = MONTHLY | ANNUAL

datatype subscription_status =
    S_INCOMPLETE | S_TRIAL | S_ACTIVE | S_PAST_DUE | S_GRACE | S_SUSPENDED | S_CANCEL_AT_PERIOD_END
  | S_CANCELLED | S_EXPIRED | S_PAUSED

record plan_row =
  pl_id :: uuid
  pl_code :: string
  pl_name :: string
  pl_active :: bool
  pl_monthly_price :: rat
  pl_annual_price :: "rat option"
  pl_setup_fee :: rat
  pl_currency :: string
  pl_version :: int
  pl_billing_enabled :: bool
  pl_allowed_strategies :: "string list option"
  pl_max_slots :: "int option"
  pl_max_signals :: int
  pl_feature_level :: "string option"

record subscription_row =
  su_id :: uuid
  su_user :: uuid
  su_plan :: uuid
  su_status :: subscription_status
  su_interval :: billing_interval
  su_period_start :: time
  su_period_end :: time
  su_selected :: "string list"
  su_paused_at :: "time option"
  su_cancelled_at :: "time option"
  su_cancel_reason :: "string option"
  su_created_at :: time
  su_updated_at :: time

record subscription_event_row =
  se_subscription :: uuid
  se_type :: subscription_status
  se_from :: subscription_status
  se_reason :: "string option"
  se_actor :: uuid
  se_created_at :: time

datatype invoice_status = INV_OPEN | INV_PAID | INV_VOID

datatype item_type = SETUP_FEE | SUBSCRIPTION_ITEM

record invoice_row =
  iv_id :: uuid
  iv_subscription :: uuid
  iv_user :: uuid
  iv_number :: string
  iv_plan :: uuid
  iv_plan_version :: int
  iv_period_start :: time
  iv_period_end :: time
  iv_subtotal :: rat
  iv_discounts :: rat
  iv_taxes :: rat
  iv_total :: rat
  iv_commissionable :: rat
  iv_currency :: string
  iv_status :: invoice_status
  iv_due :: time
  iv_paid_at :: "time option"
  iv_provider_invoice :: "string option"
  iv_hosted_url :: "string option"
  iv_created_at :: time

record invoice_item_row =
  ii_invoice :: uuid
  ii_description :: string
  ii_type :: item_type
  ii_quantity :: rat
  ii_unit_price :: rat
  ii_amount :: rat
  ii_commissionable :: bool

datatype payment_status = PY_PENDING | PY_COMPLETED | PY_UNDERPAID | PY_FAILED

record payment_row =
  py_id :: uuid
  py_invoice :: "uuid option"
  py_subscription :: "uuid option"
  py_user :: uuid
  py_provider :: string
  py_ref :: "string option"
  py_amount :: rat
  py_currency :: string
  py_status :: payment_status
  py_processed_at :: "time option"
  py_created_at :: time

record payment_event_row =
  pe_provider :: string
  pe_event_id :: string
  pe_type :: string

record preference_row =
  sp_user :: uuid
  sp_selected :: "string list"
  sp_updated_at :: time

record billing_db =
  plans :: "plan_row list"
  plan_entitlements :: "(uuid \<times> string \<times> string) list"
  subscriptions :: "subscription_row list"
  subscription_events :: "subscription_event_row list"
  strategy_preferences :: "preference_row list"
  invoices :: "invoice_row list"
  invoice_items :: "invoice_item_row list"
  payments :: "payment_row list"
  payment_events :: "payment_event_row list"
  default_tax_rate :: "rat option"
  invoice_seq :: nat

section \<open>Invoice numbers\<close>

text \<open>\<^verbatim>\<open>nextval(...)::text\<close> and \<^verbatim>\<open>padStart(6, '0')\<close>\<close>

fun nat_text :: "nat \<Rightarrow> string" where
  "nat_text n = (if n < 10 then [char_of (48 + n)] else nat_text (n div 10) @ [char_of (48 + n mod 10)])"

declare nat_text.simps [simp del]

definition padStart :: "nat \<Rightarrow> char \<Rightarrow> string \<Rightarrow> string" where
  "padStart n c s = replicate (n - length s) c @ s"

definition invoice_number :: "nat \<Rightarrow> string" where
  "invoice_number n = ''PAT-INV-'' @ padStart 6 (CHR ''0'') (nat_text n)"

definition nextInvoiceNumber :: "billing_db \<Rightarrow> string \<times> billing_db" where
  "nextInvoiceNumber db = (invoice_number (invoice_seq db), db\<lparr>invoice_seq := Suc (invoice_seq db)\<rparr>)"

section \<open>Ownership\<close>

definition assertSubscriptionOwnership :: "uuid \<Rightarrow> uuid \<Rightarrow> billing_db \<Rightarrow> unit result" where
  "assertSubscriptionOwnership u sid db =
     (if exists_row (\<lambda>s. su_id s = sid \<and> su_user s = u) (subscriptions db) then Inr ()
      else Inl (NotFound ''Subscription not found''))"

definition assertInvoiceOwnership :: "uuid \<Rightarrow> uuid \<Rightarrow> billing_db \<Rightarrow> unit result" where
  "assertInvoiceOwnership u iid db =
     (if exists_row (\<lambda>i. iv_id i = iid \<and> iv_user i = u) (invoices db) then Inr ()
      else Inl (NotFound ''Invoice not found''))"

section \<open>Generating an invoice\<close>

record invoice_opts =
  opt_start :: "time option"
  opt_end :: "time option"
  opt_markPaid :: bool
  opt_paymentId :: "uuid option"

text \<open>
  A line item before it has an invoice. The unit price goes through a JavaScript number and back
  (\<^verbatim>\<open>toNumber()\<close>, \<^verbatim>\<open>new Decimal(it.unit_price)\<close>): the parameter \<open>num\<close>.
\<close>

definition line_item :: "decimal_ops \<Rightarrow> (rat \<Rightarrow> rat) \<Rightarrow> uuid \<Rightarrow> string \<Rightarrow> item_type \<Rightarrow> rat \<Rightarrow> bool \<Rightarrow> invoice_item_row" where
  "line_item D num iid desc t price comm =
     \<lparr>ii_invoice = iid, ii_description = desc, ii_type = t, ii_quantity = 1, ii_unit_price = num price,
      ii_amount = d_mul D (num price) 1, ii_commissionable = comm\<rparr>"

definition interval_text :: "billing_interval \<Rightarrow> string" where
  "interval_text i = (case i of MONTHLY \<Rightarrow> ''MONTHLY'' | ANNUAL \<Rightarrow> ''ANNUAL'')"

definition unit_price :: "subscription_row \<Rightarrow> plan_row \<Rightarrow> rat option" where
  "unit_price s p = (if su_interval s = ANNUAL then pl_annual_price p else Some (pl_monthly_price p))"

definition invoice_lines ::
  "decimal_ops \<Rightarrow> (rat \<Rightarrow> rat) \<Rightarrow> uuid \<Rightarrow> subscription_row \<Rightarrow> plan_row \<Rightarrow> bool \<Rightarrow> rat \<Rightarrow> invoice_item_row list" where
  "invoice_lines D num iid s p isFirst price =
     (if isFirst \<and> 0 < pl_setup_fee p
      then [line_item D num iid (pl_name p @ '' - setup fee'') SETUP_FEE (pl_setup_fee p) False] else []) @
     [line_item D num iid (pl_name p @ '' subscription ('' @ interval_text (su_interval s) @ '')'')
        SUBSCRIPTION_ITEM price True]"

definition invoice_subtotal :: "decimal_ops \<Rightarrow> plan_row \<Rightarrow> bool \<Rightarrow> rat \<Rightarrow> rat" where
  "invoice_subtotal D p isFirst price =
     (if isFirst \<and> 0 < pl_setup_fee p then d_plus D (d_plus D 0 (pl_setup_fee p)) price
      else d_plus D 0 price)"

definition new_invoice ::
  "decimal_ops \<Rightarrow> time \<Rightarrow> uuid \<Rightarrow> string \<Rightarrow> subscription_row \<Rightarrow> plan_row \<Rightarrow> time \<Rightarrow> time \<Rightarrow> rat \<Rightarrow> rat \<Rightarrow> bool \<Rightarrow> invoice_row" where
  "new_invoice D now iid num s p pstart pend subtotal taxRate paid =
     (let taxes = d_toDP D 8 (d_mul D subtotal taxRate)
      in \<lparr>iv_id = iid, iv_subscription = su_id s, iv_user = su_user s, iv_number = num,
          iv_plan = su_plan s, iv_plan_version = (if pl_version p = 0 then 1 else pl_version p),
          iv_period_start = pstart, iv_period_end = pend, iv_subtotal = subtotal, iv_discounts = 0,
          iv_taxes = taxes,
          iv_total = d_toDP D 8 (d_plus D (d_minus D subtotal 0) taxes),
          iv_commissionable = subtotal,
          iv_currency = (if pl_currency p = [] then ''USD'' else pl_currency p),
          iv_status = (if paid then INV_PAID else INV_OPEN), iv_due = now + days 14,
          iv_paid_at = None, iv_provider_invoice = None, iv_hosted_url = None, iv_created_at = now\<rparr>)"

definition link_payment :: "uuid \<Rightarrow> uuid option \<Rightarrow> payment_row list \<Rightarrow> payment_row list" where
  "link_payment iid pid ps =
     (case pid of None \<Rightarrow> ps
      | Some x \<Rightarrow> update_rows (\<lambda>r. py_id r = x) (\<lambda>r. r\<lparr>py_invoice := Some iid\<rparr>) ps)"

definition set_paid :: "time \<Rightarrow> invoice_row \<Rightarrow> invoice_row" where
  "set_paid now i = i\<lparr>iv_status := INV_PAID, iv_paid_at := Some now\<rparr>"

text \<open>The statements after the period was found to be free.\<close>

definition insert_invoice ::
  "decimal_ops \<Rightarrow> (rat \<Rightarrow> rat) \<Rightarrow> time \<Rightarrow> uuid \<Rightarrow> subscription_row \<Rightarrow> plan_row \<Rightarrow> time \<Rightarrow> time \<Rightarrow> rat \<Rightarrow> invoice_opts
   \<Rightarrow> (billing_db, uuid) handler" where
  "insert_invoice D num now iid s p pstart pend price opts db =
     (let isFirst = (count_rows (\<lambda>i. iv_subscription i = su_id s) (invoices db) = 0);
          subtotal = invoice_subtotal D p isFirst price;
          taxRate = (case default_tax_rate db of None \<Rightarrow> 0 | Some r \<Rightarrow> r);
          (number, db1) = nextInvoiceNumber db;
          inv = new_invoice D now iid number s p pstart pend subtotal taxRate (opt_markPaid opts);
          db2 = db1\<lparr>invoices := invoices db1 @ [inv],
                    invoice_items := invoice_items db1 @ invoice_lines D num iid s p isFirst price\<rparr>;
          db3 = (if opt_markPaid opts
                 then db2\<lparr>invoices := update_rows (\<lambda>i. iv_id i = iid) (set_paid now) (invoices db2),
                          payments := link_payment iid (opt_paymentId opts) (payments db2)\<rparr>
                 else db2)
      in if exists_row (\<lambda>i. iv_id i = iid \<or> iv_number i = number) (invoices db)
         then (Inl (SqlError ''23505''), db1) else (Inr iid, db3))"

definition generateInvoiceForSubscription ::
  "decimal_ops \<Rightarrow> (rat \<Rightarrow> rat) \<Rightarrow> time \<Rightarrow> uuid \<Rightarrow> uuid \<Rightarrow> uuid \<Rightarrow> invoice_opts \<Rightarrow> (billing_db, uuid) handler" where
  "generateInvoiceForSubscription D num now iid sid actor opts db =
     (case assertSubscriptionOwnership actor sid db of
        Inl e \<Rightarrow> (Inl e, db)
      | Inr _ \<Rightarrow>
          (case first_row (\<lambda>s. su_id s = sid) (subscriptions db) of
             None \<Rightarrow> (Inl (NotFound ''Subscription not found''), db)
           | Some s \<Rightarrow>
               (case first_row (\<lambda>p. pl_id p = su_plan s) (plans db) of
                  None \<Rightarrow> (Inl (NotFound ''Subscription not found''), db)
                | Some p \<Rightarrow>
                    (case unit_price s p of
                       None \<Rightarrow> (Inl (InternalError ''DecimalError''), db)
                     | Some price \<Rightarrow>
                         let pstart = (case opt_start opts of Some t \<Rightarrow> t | None \<Rightarrow> su_period_start s);
                             pend = (case opt_end opts of Some t \<Rightarrow> t | None \<Rightarrow> su_period_end s)
                         in (case first_row (\<lambda>i. iv_subscription i = sid \<and> iv_period_start i = pstart \<and>
                                                 iv_period_end i = pend) (invoices db) of
                               Some i \<Rightarrow> (Inr (iv_id i), db)
                             | None \<Rightarrow> insert_invoice D num now iid s p pstart pend price opts db)))))"

section \<open>Settlement and queries\<close>

definition getInvoice :: "uuid \<Rightarrow> billing_db \<Rightarrow> (invoice_row \<times> invoice_item_row list) result" where
  "getInvoice iid db =
     (case first_row (\<lambda>i. iv_id i = iid \<and> exists_row (\<lambda>p. pl_id p = iv_plan i) (plans db)) (invoices db) of
        None \<Rightarrow> Inl (NotFound ''Invoice not found'')
      | Some i \<Rightarrow> Inr (i, filter (\<lambda>it. ii_invoice it = iid) (invoice_items db)))"

definition markInvoicePaid :: "time \<Rightarrow> uuid \<Rightarrow> uuid option \<Rightarrow> (billing_db, invoice_row \<times> invoice_item_row list) handler" where
  "markInvoicePaid now iid pid db =
     (let db' = db\<lparr>invoices := update_rows (\<lambda>i. iv_id i = iid) (set_paid now) (invoices db),
                   payments := link_payment iid pid (payments db)\<rparr>
      in (getInvoice iid db', db'))"

definition listInvoices :: "uuid \<Rightarrow> billing_db \<Rightarrow> (invoice_row \<times> rat) list" where
  "listInvoices u db =
     map (\<lambda>i. (i, sum_list (map ii_amount (filter (\<lambda>it. ii_invoice it = iv_id i) (invoice_items db)))))
       (take 50 (sort_key (\<lambda>i. - iv_created_at i)
          (filter (\<lambda>i. exists_row (\<lambda>s. su_id s = iv_subscription i \<and> su_user s = u) (subscriptions db))
             (invoices db))))"

datatype display_status = Confirmed | Underpaid | Failed_payment | Awaiting_payment

definition listPaymentsForUser :: "uuid \<Rightarrow> billing_db \<Rightarrow> (payment_row \<times> display_status) list" where
  "listPaymentsForUser u db =
     map (\<lambda>r. (r, case py_status r of PY_COMPLETED \<Rightarrow> Confirmed | PY_UNDERPAID \<Rightarrow> Underpaid
                  | PY_FAILED \<Rightarrow> Failed_payment | _ \<Rightarrow> Awaiting_payment))
       (take 20 (sort_key (\<lambda>r. - py_created_at r) (filter (\<lambda>r. py_user r = u) (payments db))))"

text \<open>\<^verbatim>\<open>esc\<close>: the five global replacements, one after the other.\<close>

definition replace_char :: "char \<Rightarrow> string \<Rightarrow> string \<Rightarrow> string" where
  "replace_char c r s = concat (map (\<lambda>x. if x = c then r else [x]) s)"

definition esc :: "string \<Rightarrow> string" where
  "esc s =
     replace_char (char_of (39 :: nat)) ''&#39;''
       (replace_char (char_of (34 :: nat)) ''&quot;''
         (replace_char (CHR ''>'') ''&gt;''
           (replace_char (CHR ''<'') ''&lt;''
             (replace_char (CHR ''&'') ''&amp;'' s))))"

section \<open>Webhook\<close>

text \<open>
  The request as the handler reads it: the signature of the first of the three headers that is set,
  the raw body, and the fields it takes from the parsed body.
\<close>

record webhook =
  wh_signatures :: "string option list"
  wh_raw :: "string option"
  wh_event :: "string option"
  wh_provider :: string
  wh_event_id :: string
  wh_subscription :: "uuid option"
  wh_payment :: "uuid option"

fun first_truthy :: "string option list \<Rightarrow> string" where
  "first_truthy [] = []"
| "first_truthy (Some (c # s) # _) = c # s"
| "first_truthy (_ # rest) = first_truthy rest"

definition strip_prefix :: "string \<Rightarrow> string \<Rightarrow> string" where
  "strip_prefix pre s = (if take (length pre) s = pre then drop (length pre) s else s)"

definition signature_ok :: "(string \<Rightarrow> string \<Rightarrow> string) \<Rightarrow> string \<Rightarrow> webhook \<Rightarrow> bool" where
  "signature_ok hmac secret wh =
     (let provided = strip_prefix ''sha256='' (first_truthy (wh_signatures wh))
      in provided \<noteq> [] \<and> (case wh_raw wh of None \<Rightarrow> False | Some raw \<Rightarrow> provided = hmac secret raw))"

record webhook_result =
  wr_duplicate :: bool
  wr_invoice :: "uuid option"

definition subscriptionOwner :: "uuid \<Rightarrow> billing_db \<Rightarrow> uuid option" where
  "subscriptionOwner sid db = map_option su_user (first_row (\<lambda>s. su_id s = sid) (subscriptions db))"

definition paidEvents :: "string list" where
  "paidEvents = [''payment.succeeded'', ''invoice.paid'']"

definition handleWebhook ::
  "decimal_ops \<Rightarrow> (rat \<Rightarrow> rat) \<Rightarrow> (string \<Rightarrow> string \<Rightarrow> string) \<Rightarrow> string option \<Rightarrow> time \<Rightarrow> uuid \<Rightarrow> webhook
   \<Rightarrow> (billing_db, webhook_result) handler" where
  "handleWebhook D num hmac secret now iid wh db =
     (if secret \<in> {None, Some []} then (Inl (InternalError ''webhook_secret_not_configured''), db)
      else if \<not> signature_ok hmac (the secret) wh then (Inl (InternalError ''invalid_webhook_signature''), db)
      else if exists_row (\<lambda>e. pe_provider e = wh_provider wh \<and> pe_event_id e = wh_event_id wh) (payment_events db)
      then (Inr \<lparr>wr_duplicate = True, wr_invoice = None\<rparr>, db)
      else
        let db1 = db\<lparr>payment_events := payment_events db @
              [\<lparr>pe_provider = wh_provider wh, pe_event_id = wh_event_id wh,
                pe_type = (case wh_event wh of None \<Rightarrow> ''unknown'' | Some e \<Rightarrow> e)\<rparr>]\<rparr>
        in (case (wh_subscription wh, wh_event wh) of
              (Some sid, Some ev) \<Rightarrow>
                if ev \<in> set paidEvents then
                  (case generateInvoiceForSubscription D num now iid sid
                          (case subscriptionOwner sid db1 of Some u \<Rightarrow> u | None \<Rightarrow> sid)
                          \<lparr>opt_start = None, opt_end = None, opt_markPaid = True, opt_paymentId = wh_payment wh\<rparr> db1 of
                     (Inl e, db2) \<Rightarrow> (Inr \<lparr>wr_duplicate = False, wr_invoice = None\<rparr>, db2)
                   | (Inr i, db2) \<Rightarrow> (Inr \<lparr>wr_duplicate = False, wr_invoice = Some i\<rparr>, db2))
                else (Inr \<lparr>wr_duplicate = False, wr_invoice = None\<rparr>, db1)
            | _ \<Rightarrow> (Inr \<lparr>wr_duplicate = False, wr_invoice = None\<rparr>, db1)))"

section \<open>Invoice numbers are unique\<close>

lemma char_digit_inj: "a < 10 \<Longrightarrow> b < 10 \<Longrightarrow> (char_of (48 + a :: nat) = char_of (48 + b)) = (a = b)"
  by (simp add: char_of_eq_iff take_bit_eq_mod)

lemma nat_text_inj: "nat_text m = nat_text n \<Longrightarrow> m = n"
proof (induction m arbitrary: n rule: nat_text.induct)
  case (1 m)
  have len: "nat_text k \<noteq> []" for k by (subst nat_text.simps) simp
  show ?case
  proof (cases "m < 10")
    case True
    have "[] \<noteq> nat_text (n div 10)" using len by metis
    with True "1.prems" show ?thesis
      by (cases "n < 10") (simp_all add: nat_text.simps [of m] nat_text.simps [of n] char_digit_inj)
  next
    case False
    with "1.prems" len have n: "\<not> n < 10"
      by (cases "n < 10") (simp_all add: nat_text.simps [of m] nat_text.simps [of n])
    with False "1.prems" have "nat_text (m div 10) = nat_text (n div 10)" "m mod 10 = n mod 10"
      by (simp_all add: nat_text.simps [of m] nat_text.simps [of n] char_digit_inj)
    with "1.IH" False have "m div 10 = n div 10" by blast
    with \<open>m mod 10 = n mod 10\<close> show ?thesis by (metis mult_div_mod_eq)
  qed
qed

lemma nat_text_first: "0 < n \<Longrightarrow> hd (nat_text n) \<noteq> CHR ''0''"
proof (induction n rule: nat_text.induct)
  case (1 n)
  show ?case
  proof (cases "n < 10")
    case True
    have "CHR ''0'' = char_of (48 + 0 :: nat)" by code_simp
    with True "1.prems" show ?thesis using char_digit_inj [of n 0] by (simp add: nat_text.simps [of n])
  next
    case False
    have "nat_text (n div 10) \<noteq> []" by (subst nat_text.simps) simp
    with 1 False show ?thesis by (simp add: nat_text.simps [of n])
  qed
qed

lemma padStart_strip: "dropWhile (\<lambda>x. x = c) (padStart n c s) = dropWhile (\<lambda>x. x = c) s"
proof -
  have "dropWhile (\<lambda>x. x = c) (replicate k c @ s) = dropWhile (\<lambda>x. x = c) s" for k
    by (induction k) simp_all
  then show ?thesis by (simp add: padStart_def)
qed

lemma invoice_number_inj: "0 < m \<Longrightarrow> 0 < n \<Longrightarrow> invoice_number m = invoice_number n \<Longrightarrow> m = n"
proof -
  assume pos: "0 < m" "0 < n" and eq: "invoice_number m = invoice_number n"
  have "dropWhile (\<lambda>x. x = CHR ''0'') (nat_text k) = nat_text k" if "0 < k" for k
    using nat_text_first [OF that] by (cases "nat_text k") simp_all
  with pos eq have "nat_text m = nat_text n"
    by (metis append_same_eq invoice_number_def padStart_strip same_append_eq)
  then show ?thesis by (rule nat_text_inj)
qed

section \<open>One invoice per period\<close>

definition period_key :: "invoice_row \<Rightarrow> uuid \<times> time \<times> time" where
  "period_key i = (iv_subscription i, iv_period_start i, iv_period_end i)"

text \<open>
  The invariant of the invoices: periods, identifiers and numbers are unique, and every number was
  drawn from the sequence.
\<close>

definition invoices_ok :: "billing_db \<Rightarrow> bool" where
  "invoices_ok db \<longleftrightarrow>
     0 < invoice_seq db \<and> distinct (map period_key (invoices db)) \<and> distinct (map iv_id (invoices db)) \<and>
     distinct (map iv_number (invoices db)) \<and>
     (\<forall>i\<in>set (invoices db). \<exists>n. 0 < n \<and> n < invoice_seq db \<and> iv_number i = invoice_number n)"

lemma set_paid_frame [simp]:
  "period_key (set_paid now i) = period_key i" "iv_id (set_paid now i) = iv_id i"
  "iv_number (set_paid now i) = iv_number i" "iv_subtotal (set_paid now i) = iv_subtotal i"
  "iv_total (set_paid now i) = iv_total i" "iv_taxes (set_paid now i) = iv_taxes i"
  "iv_commissionable (set_paid now i) = iv_commissionable i"
  by (simp_all add: set_paid_def period_key_def)

lemma invoices_ok_update:
  assumes "invoices_ok db" and "invoices db' = update_rows p (set_paid now) (invoices db)"
    and "invoice_seq db' = invoice_seq db"
  shows "invoices_ok db'"
proof -
  have "map period_key (invoices db') = map period_key (invoices db)"
    "map iv_id (invoices db') = map iv_id (invoices db)"
    "map iv_number (invoices db') = map iv_number (invoices db)"
    unfolding assms(2) by (rule map_update_rows_frame, simp)+
  moreover have "\<exists>n. 0 < n \<and> n < invoice_seq db' \<and> iv_number i = invoice_number n" if "i \<in> set (invoices db')" for i
    using that assms by (auto simp: invoices_ok_def in_update_rows)
  ultimately show ?thesis using assms(1) unfolding invoices_ok_def assms(3) by (simp add: assms(3))
qed

lemma invoices_ok_cong:
  "invoices db' = invoices db \<Longrightarrow> invoice_seq db' = invoice_seq db \<Longrightarrow> invoices_ok db = invoices_ok db'"
  by (simp add: invoices_ok_def)

lemma invoices_ok_append:
  assumes "invoices_ok db" and "invoices db' = invoices db @ [i]" and "invoice_seq db' = Suc (invoice_seq db)"
    and "iv_number i = invoice_number (invoice_seq db)" and "iv_id i \<notin> iv_id ` set (invoices db)"
    and "period_key i \<notin> period_key ` set (invoices db)"
  shows "invoices_ok db'"
proof -
  have "iv_number i \<notin> iv_number ` set (invoices db)"
  proof
    assume "iv_number i \<in> iv_number ` set (invoices db)"
    then obtain n where "0 < n" "n < invoice_seq db" "invoice_number n = invoice_number (invoice_seq db)"
      using assms(1,4) by (auto simp: invoices_ok_def)
    with invoice_number_inj [of n "invoice_seq db"] show False by simp
  qed
  moreover have "\<exists>n. 0 < n \<and> n < Suc (invoice_seq db) \<and> iv_number j = invoice_number n"
    if "j \<in> set (invoices db @ [i])" for j
    using that assms(1,4) by (auto simp: invoices_ok_def intro: less_SucI)
  ultimately show ?thesis using assms unfolding invoices_ok_def by simp
qed

lemma new_invoice_frame [simp]:
  "iv_id (new_invoice D now iid num s p ps pe st tx paid) = iid"
  "iv_number (new_invoice D now iid num s p ps pe st tx paid) = num"
  "period_key (new_invoice D now iid num s p ps pe st tx paid) = (su_id s, ps, pe)"
  by (simp_all add: new_invoice_def Let_def period_key_def)

lemma insert_invoice_ok:
  assumes "invoices_ok db" and "(su_id s, pstart, pend) \<notin> period_key ` set (invoices db)"
  shows "invoices_ok (snd (insert_invoice D num now iid s p pstart pend price opts db))"
proof (cases "exists_row (\<lambda>i. iv_id i = iid \<or> iv_number i = invoice_number (invoice_seq db)) (invoices db)")
  case True
  have "invoices_ok (db\<lparr>invoice_seq := Suc (invoice_seq db)\<rparr>)"
    using assms(1) by (auto simp: invoices_ok_def intro: less_SucI)
  with True show ?thesis by (simp add: insert_invoice_def nextInvoiceNumber_def Let_def)
next
  case False
  let ?inv = "new_invoice D now iid (invoice_number (invoice_seq db)) s p pstart pend
      (invoice_subtotal D p (count_rows (\<lambda>i. iv_subscription i = su_id s) (invoices db) = 0) price)
      (case default_tax_rate db of None \<Rightarrow> 0 | Some r \<Rightarrow> r) (opt_markPaid opts)"
  let ?db = "db\<lparr>invoices := invoices db @ [?inv], invoice_seq := Suc (invoice_seq db)\<rparr>"
  have "invoices_ok ?db"
    by (rule invoices_ok_append [OF assms(1), of _ ?inv])
      (use False assms(2) in \<open>auto simp: list_ex_iff\<close>)
  moreover have upd: "invoices (snd (insert_invoice D num now iid s p pstart pend price opts db)) =
      (if opt_markPaid opts then update_rows (\<lambda>i. iv_id i = iid) (set_paid now) (invoices ?db) else invoices ?db)"
    "invoice_seq (snd (insert_invoice D num now iid s p pstart pend price opts db)) = invoice_seq ?db"
    using False by (simp_all add: insert_invoice_def nextInvoiceNumber_def Let_def)
  ultimately show ?thesis
    using invoices_ok_update [of ?db _ "\<lambda>i. iv_id i = iid" now]
      invoices_ok_cong [of "snd (insert_invoice D num now iid s p pstart pend price opts db)" ?db]
    by (cases "opt_markPaid opts") (simp_all only: if_True if_False)
qed

lemma generate_cases:
  obtains (error) e where "generateInvoiceForSubscription D num now iid sid actor opts db = (Inl e, db)"
  | (existing) i where "i \<in> set (invoices db)" "iv_subscription i = sid"
    "generateInvoiceForSubscription D num now iid sid actor opts db = (Inr (iv_id i), db)"
  | (insert) s p price pstart pend where
    "first_row (\<lambda>s. su_id s = sid) (subscriptions db) = Some s" "su_user s = actor \<or> \<not> distinct (map su_id (subscriptions db))"
    "first_row (\<lambda>p. pl_id p = su_plan s) (plans db) = Some p" "unit_price s p = Some price"
    "pstart = (case opt_start opts of Some t \<Rightarrow> t | None \<Rightarrow> su_period_start s)"
    "pend = (case opt_end opts of Some t \<Rightarrow> t | None \<Rightarrow> su_period_end s)"
    "(sid, pstart, pend) \<notin> period_key ` set (invoices db)"
    "generateInvoiceForSubscription D num now iid sid actor opts db =
       insert_invoice D num now iid s p pstart pend price opts db"
proof -
  let ?g = "generateInvoiceForSubscription D num now iid sid actor opts db"
  consider "exists_row (\<lambda>s. su_id s = sid \<and> su_user s = actor) (subscriptions db)"
    | "\<not> exists_row (\<lambda>s. su_id s = sid \<and> su_user s = actor) (subscriptions db)" by blast
  then show thesis
  proof cases
    case 2
    then show thesis by (intro error) (simp add: generateInvoiceForSubscription_def assertSubscriptionOwnership_def)
  next
    case 1
    then have own: "assertSubscriptionOwnership actor sid db = Inr ()" by (simp add: assertSubscriptionOwnership_def)
    from 1 have "first_row (\<lambda>s. su_id s = sid) (subscriptions db) \<noteq> None" by (auto simp: first_row_None list_ex_iff)
    then obtain s where s: "first_row (\<lambda>s. su_id s = sid) (subscriptions db) = Some s" by blast
    have user: "su_user s = actor \<or> \<not> distinct (map su_id (subscriptions db))"
      using 1 first_row_Some [OF s] by (auto simp: list_ex_iff distinct_map dest: inj_onD)
    show thesis
    proof (cases "first_row (\<lambda>p. pl_id p = su_plan s) (plans db)")
      case None
      with own s show thesis by (intro error) (simp add: generateInvoiceForSubscription_def)
    next
      case p: (Some p)
      show thesis
      proof (cases "unit_price s p")
        case None
        with own s p show thesis by (intro error) (simp add: generateInvoiceForSubscription_def)
      next
        case price: (Some price)
        let ?st = "case opt_start opts of Some t \<Rightarrow> t | None \<Rightarrow> su_period_start s"
        let ?en = "case opt_end opts of Some t \<Rightarrow> t | None \<Rightarrow> su_period_end s"
        let ?q = "\<lambda>i. iv_subscription i = sid \<and> iv_period_start i = ?st \<and> iv_period_end i = ?en"
        show thesis
        proof (cases "first_row ?q (invoices db)")
          case None
          then have "(sid, ?st, ?en) \<notin> period_key ` set (invoices db)"
            by (auto simp: first_row_None period_key_def)
          then show thesis
            using own s p price None user
            by (intro insert) (auto simp: generateInvoiceForSubscription_def)
        next
          case (Some i)
          with first_row_Some [OF this] own s p price show thesis
            by (intro existing) (auto simp: generateInvoiceForSubscription_def)
        qed
      qed
    qed
  qed
qed

lemma generate_ok:
  assumes "invoices_ok db"
  shows "invoices_ok (snd (generateInvoiceForSubscription D num now iid sid actor opts db))"
proof (cases rule: generate_cases [of D num now iid sid actor opts db])
  case (insert s p price pstart pend)
  have "su_id s = sid" using first_row_Some [OF insert(1)] by simp
  with insert(7,8) show ?thesis by (simp add: insert_invoice_ok [OF assms])
qed (simp_all add: assms)

section \<open>The service as a sequence of requests\<close>

datatype billing_request =
    GenerateInvoice uuid uuid uuid invoice_opts
  | MarkInvoicePaid uuid "uuid option"
  | Webhook uuid webhook

fun exec_billing ::
  "decimal_ops \<Rightarrow> (rat \<Rightarrow> rat) \<Rightarrow> (string \<Rightarrow> string \<Rightarrow> string) \<Rightarrow> string option
   \<Rightarrow> time \<times> billing_request \<Rightarrow> billing_db \<Rightarrow> billing_db" where
  "exec_billing D num hmac secret (now, GenerateInvoice iid sid actor opts) db =
     snd (generateInvoiceForSubscription D num now iid sid actor opts db)"
| "exec_billing D num hmac secret (now, MarkInvoicePaid iid pid) db = snd (markInvoicePaid now iid pid db)"
| "exec_billing D num hmac secret (now, Webhook iid wh) db = snd (handleWebhook D num hmac secret now iid wh db)"

text \<open>Every effect of a webhook beyond the recorded event is that of an invoice generation.\<close>

lemma webhook_cases:
  obtains (same) "snd (handleWebhook D num hmac secret now iid wh db) = db"
    "secret \<in> {None, Some []} \<or> \<not> signature_ok hmac (the secret) wh \<or>
     exists_row (\<lambda>e. pe_provider e = wh_provider wh \<and> pe_event_id e = wh_event_id wh) (payment_events db)"
  | (recorded) db1 where
    "db1 = db\<lparr>payment_events := payment_events db @
       [\<lparr>pe_provider = wh_provider wh, pe_event_id = wh_event_id wh,
         pe_type = (case wh_event wh of None \<Rightarrow> ''unknown'' | Some e \<Rightarrow> e)\<rparr>]\<rparr>"
    "snd (handleWebhook D num hmac secret now iid wh db) = db1 \<or>
     (\<exists>sid. wh_subscription wh = Some sid \<and> snd (handleWebhook D num hmac secret now iid wh db) =
        snd (generateInvoiceForSubscription D num now iid sid
          (case subscriptionOwner sid db1 of Some u \<Rightarrow> u | None \<Rightarrow> sid)
          \<lparr>opt_start = None, opt_end = None, opt_markPaid = True, opt_paymentId = wh_payment wh\<rparr> db1))"
proof (cases "secret \<in> {None, Some []} \<or> \<not> signature_ok hmac (the secret) wh \<or>
    exists_row (\<lambda>e. pe_provider e = wh_provider wh \<and> pe_event_id e = wh_event_id wh) (payment_events db)")
  case True
  then show thesis by (intro same [OF _ True]) (auto simp: handleWebhook_def)
next
  case False
  then show thesis
    by (intro recorded [OF refl])
      (auto simp: handleWebhook_def Let_def split: option.split prod.split sum.split)
qed

lemma exec_billing_ok: "invoices_ok db \<Longrightarrow> invoices_ok (exec_billing D num hmac secret req db)"
proof (cases "(D, num, hmac, secret, req, db)" rule: exec_billing.cases)
  case (2 D' num' hmac' secret' now iid pid db')
  assume "invoices_ok db"
  with 2 show ?thesis
    by (auto simp: markInvoicePaid_def Let_def elim!: invoices_ok_update [where p = "\<lambda>i. iv_id i = iid" and now = now])
next
  case (3 D' num' hmac' secret' now iid wh db')
  assume ok: "invoices_ok db"
  have "invoices_ok (snd (handleWebhook D num hmac secret now iid wh db))"
  proof (cases rule: webhook_cases [of D num hmac secret now iid wh db])
    case (recorded db1)
    have "invoices_ok db1" using ok by (simp add: recorded(1) invoices_ok_def)
    with recorded(2) show ?thesis by (auto simp: generate_ok)
  qed (simp add: ok)
  with 3 show ?thesis by simp
qed (simp add: generate_ok)

interpretation billing_invoices: guarded_service "exec_billing D num hmac secret" invoices_ok
  for D num hmac secret
  by unfold_locales (rule exec_billing_ok)

text \<open>Deliveries are recorded once and never forgotten.\<close>

definition seen :: "billing_db \<Rightarrow> (string \<times> string) set" where
  "seen db = (\<lambda>e. (pe_provider e, pe_event_id e)) ` set (payment_events db)"

lemma insert_invoice_events [simp]:
  "payment_events (snd (insert_invoice D num now iid s p pstart pend price opts db)) = payment_events db"
  by (simp add: insert_invoice_def nextInvoiceNumber_def Let_def)

lemma generate_events [simp]:
  "payment_events (snd (generateInvoiceForSubscription D num now iid sid actor opts db)) = payment_events db"
  by (cases rule: generate_cases [of D num now iid sid actor opts db]) simp_all

lemma webhook_seen: "seen db \<subseteq> seen (snd (handleWebhook D num hmac secret now iid wh db))"
  by (cases rule: webhook_cases [of D num hmac secret now iid wh db]) (auto simp: seen_def)

lemma exec_billing_seen: "seen db \<subseteq> seen (exec_billing D num hmac secret req db)"
proof (cases "(D, num, hmac, secret, req, db)" rule: exec_billing.cases)
  case (3 D' num' hmac' secret' now iid wh db')
  then show ?thesis using webhook_seen [of db D num hmac secret now iid wh] by simp
qed (auto simp: seen_def markInvoicePaid_def Let_def)

interpretation billing_events:
  monotone_service "exec_billing D num hmac secret" "\<lambda>db db'. seen db \<subseteq> seen db'" for D num hmac secret
  by unfold_locales (auto dest: subsetD [OF exec_billing_seen])

lemma webhook_rejected:
  "secret \<in> {None, Some []} \<or> \<not> signature_ok hmac (the secret) wh \<Longrightarrow>
   \<exists>e. handleWebhook D num hmac secret now iid wh db = (Inl (InternalError e), db)"
  by (cases "secret \<in> {None, Some []}") (auto simp: handleWebhook_def)

lemma webhook_duplicate:
  assumes "secret \<notin> {None, Some []}" and "signature_ok hmac (the secret) wh"
    and "(wh_provider wh, wh_event_id wh) \<in> seen db"
  shows "handleWebhook D num hmac secret now iid wh db = (Inr \<lparr>wr_duplicate = True, wr_invoice = None\<rparr>, db)"
proof -
  have "exists_row (\<lambda>e. pe_provider e = wh_provider wh \<and> pe_event_id e = wh_event_id wh) (payment_events db)"
    using assms(3) by (auto simp: seen_def list_ex_iff)
  with assms(1,2) show ?thesis by (simp add: handleWebhook_def)
qed

lemma webhook_records:
  assumes "handleWebhook D num hmac secret now iid wh db = (Inr r, db')"
  shows "(wh_provider wh, wh_event_id wh) \<in> seen db'"
proof (cases rule: webhook_cases [of D num hmac secret now iid wh db])
  case same
  with assms have "exists_row (\<lambda>e. pe_provider e = wh_provider wh \<and> pe_event_id e = wh_event_id wh) (payment_events db)"
    using webhook_rejected [of secret hmac wh D num now iid db] by auto
  with same assms show ?thesis by (force simp: seen_def list_ex_iff)
next
  case (recorded db1)
  have "payment_events db' = payment_events db1" using recorded(2) assms by auto
  with recorded(1) show ?thesis by (simp add: seen_def)
qed

section \<open>Escaping\<close>

definition esc_char :: "char \<Rightarrow> string" where
  "esc_char c =
     (if c = CHR ''&'' then ''&amp;'' else if c = CHR ''<'' then ''&lt;'' else if c = CHR ''>'' then ''&gt;''
      else if c = char_of (34 :: nat) then ''&quot;'' else if c = char_of (39 :: nat) then ''&#39;'' else [c])"

lemma replace_char_append [simp]: "replace_char c r (s @ t) = replace_char c r s @ replace_char c r t"
  by (simp add: replace_char_def)

lemma replace_char_Nil [simp]: "replace_char c r [] = []"
  by (simp add: replace_char_def)

lemma replace_char_Cons [simp]: "replace_char c r (x # s) = (if x = c then r else [x]) @ replace_char c r s"
  by (simp add: replace_char_def)

lemma quote_chars: "char_of (34 :: nat) = CHR 0x22" "char_of (39 :: nat) = CHR 0x27"
  by code_simp+

lemma esc_append: "esc (s @ t) = esc s @ esc t"
  by (simp add: esc_def)

lemma esc_single: "esc [c] = esc_char c"
  by (simp add: esc_def esc_char_def quote_chars)

lemma esc_charwise: "esc s = concat (map esc_char s)"
proof (induction s)
  case Nil
  show ?case by (simp add: esc_def)
next
  case (Cons c s)
  then show ?case using esc_append [of "[c]" s] by (simp add: esc_single)
qed

lemma esc_char_prefix_free: "esc_char c @ x = esc_char d @ y \<Longrightarrow> c = d \<and> x = y"
  by (auto simp: esc_char_def quote_chars split: if_splits)

lemma esc_char_nonempty: "esc_char c \<noteq> []"
  by (simp add: esc_char_def)

lemma esc_inj: "esc s = esc t \<Longrightarrow> s = t"
  unfolding esc_charwise
proof (induction s arbitrary: t)
  case Nil
  then show ?case by (cases t) (simp_all add: esc_char_nonempty)
next
  case (Cons c s)
  then obtain d u where t: "t = d # u" by (cases t) (auto simp: esc_char_nonempty)
  with Cons.prems have "c = d \<and> concat (map esc_char s) = concat (map esc_char u)"
    by (intro esc_char_prefix_free) simp
  with Cons.IH t show ?case by simp
qed

section \<open>Arithmetic of an invoice\<close>

lemma subtotal_exact:
  assumes "decimal_arith D" and "grid8 price" and "grid8 (pl_setup_fee p)" and "0 \<le> price" and "0 \<le> pl_setup_fee p"
    and "price < 10 ^ 10" and "pl_setup_fee p < 10 ^ 10"
  shows "invoice_subtotal D p isFirst price = (if isFirst then pl_setup_fee p else 0) + price"
    and "grid8 (invoice_subtotal D p isFirst price)" and "0 \<le> invoice_subtotal D p isFirst price"
    and "invoice_subtotal D p isFirst price < 2 * 10 ^ 10"
proof -
  have "d_plus D 0 (pl_setup_fee p) = pl_setup_fee p" "d_plus D 0 price = price"
    "d_plus D (pl_setup_fee p) price = pl_setup_fee p + price"
    using assms grid8_add [OF assms(3,2)]
    by (simp_all add: decimal_arith.plus_exact [OF assms(1)] grid8_fits20)
  then have eq: "invoice_subtotal D p isFirst price = (if isFirst then pl_setup_fee p else 0) + price"
    using assms(5) by (auto simp: invoice_subtotal_def)
  then show "invoice_subtotal D p isFirst price = (if isFirst then pl_setup_fee p else 0) + price" .
  show "grid8 (invoice_subtotal D p isFirst price)" "0 \<le> invoice_subtotal D p isFirst price"
    "invoice_subtotal D p isFirst price < 2 * 10 ^ 10"
    using assms grid8_add [OF assms(3,2)] unfolding eq by auto
qed

lemma new_invoice_totals:
  assumes D: "decimal_arith D" and "grid8 subtotal" and "0 \<le> subtotal" and "subtotal < 2 * 10 ^ 10"
    and "0 \<le> rate" and "rate \<le> 1"
  shows "iv_total (new_invoice D now iid n s p ps pe subtotal rate paid) =
           subtotal + iv_taxes (new_invoice D now iid n s p ps pe subtotal rate paid)"
    and "\<bar>iv_taxes (new_invoice D now iid n s p ps pe subtotal rate paid) - subtotal * rate\<bar> \<le> 1 / 10 ^ 8"
    and "0 \<le> iv_taxes (new_invoice D now iid n s p ps pe subtotal rate paid)"
proof -
  let ?m = "d_mul D subtotal rate"
  let ?t = "d_toDP D 8 ?m"
  have le: "subtotal * rate \<le> 2 * 10 ^ 10"
    using assms(3-6) mult_mono [of subtotal "2 * 10 ^ 10" rate 1] by simp
  have "\<bar>?m - subtotal * rate\<bar> \<le> subtotal * rate * mul_eps"
    using decimal_arith.mul_rel [OF D, of subtotal rate] assms(3,5) by simp
  also have "\<dots> \<le> 2 * 10 ^ 10 * mul_eps"
    using le mul_eps_bounds by (intro mult_right_mono) simp_all
  also have "\<dots> = 1 / 10 ^ 9" by (simp add: mul_eps_def)
  finally have m: "\<bar>?m - subtotal * rate\<bar> \<le> 1 / 10 ^ 9" .
  have t: "\<bar>?t - ?m\<bar> \<le> 1 / (2 * 10 ^ 8)" by (rule decimal_arith.toDP_err [OF D])
  have "1 / 10 ^ 9 + 1 / (2 * 10 ^ 8) \<le> (1 / 10 ^ 8 :: rat)" by simp
  with m t have close: "\<bar>?t - subtotal * rate\<bar> \<le> 1 / 10 ^ 8" by linarith
  have nonneg: "0 \<le> ?t"
    by (intro decimal_arith.toDP_nonneg [OF D] decimal_arith.mul_nonneg [OF D]) (use assms in simp_all)
  have grid: "grid8 ?t" using decimal_arith.toDP_grid [OF D, of 8 ?m] by (simp add: grid8_def)
  have "(1 / 10 ^ 8 :: rat) \<le> 1" by simp
  with close le have "?t \<le> 2 * 10 ^ 10 + 1" by linarith
  then have fits: "fits20 (subtotal + ?t)"
    using grid8_add [OF assms(2) grid] nonneg assms(3,4) by (intro grid8_fits20) auto
  have "d_minus D subtotal 0 = subtotal"
    by (subst decimal_arith.minus_exact [OF D]) (use assms in \<open>auto intro: grid8_fits20\<close>)
  moreover have "d_plus D subtotal ?t = subtotal + ?t" by (rule decimal_arith.plus_exact [OF D fits])
  moreover have "d_toDP D 8 (subtotal + ?t) = subtotal + ?t"
    using grid8_add [OF assms(2) grid] unfolding grid8_def by (metis decimal_arith.toDP_exact [OF D])
  ultimately show "iv_total (new_invoice D now iid n s p ps pe subtotal rate paid) =
      subtotal + iv_taxes (new_invoice D now iid n s p ps pe subtotal rate paid)"
    "\<bar>iv_taxes (new_invoice D now iid n s p ps pe subtotal rate paid) - subtotal * rate\<bar> \<le> 1 / 10 ^ 8"
    "0 \<le> iv_taxes (new_invoice D now iid n s p ps pe subtotal rate paid)"
    using close nonneg by (simp_all add: new_invoice_def Let_def)
qed

lemma lines_sum:
  assumes D: "decimal_arith D" and "num price = price" and "num (pl_setup_fee p) = pl_setup_fee p"
    and "fits20 price" and "fits20 (pl_setup_fee p)" and "0 \<le> pl_setup_fee p"
  shows "sum_list (map ii_amount (invoice_lines D num iid s p isFirst price)) =
           (if isFirst then pl_setup_fee p else 0) + price"
    and "sum_list (map ii_amount (filter ii_commissionable (invoice_lines D num iid s p isFirst price))) = price"
  using assms decimal_arith.mul_exact [OF D, of price 1] decimal_arith.mul_exact [OF D, of "pl_setup_fee p" 1]
  by (auto simp: invoice_lines_def line_item_def)

section \<open>Properties\<close>

definition example_plan :: plan_row where
  "example_plan =
     \<lparr>pl_id = 7, pl_code = ''PRO'', pl_name = ''Pro'', pl_active = True, pl_monthly_price = 299,
      pl_annual_price = Some 2990, pl_setup_fee = 100, pl_currency = ''USD'', pl_version = 1,
      pl_billing_enabled = True,
      pl_allowed_strategies = Some [''STANDARD_SCALPING'', ''STANDARD_SWING''], pl_max_slots = Some 2,
      pl_max_signals = 50, pl_feature_level = Some ''smc''\<rparr>"

definition example_subscription :: subscription_row where
  "example_subscription =
     \<lparr>su_id = 40, su_user = 20, su_plan = 7, su_status = S_ACTIVE, su_interval = MONTHLY,
      su_period_start = 0, su_period_end = days 30, su_selected = [''STANDARD_SCALPING''],
      su_paused_at = None, su_cancelled_at = None, su_cancel_reason = None, su_created_at = 0,
      su_updated_at = 0\<rparr>"

definition example_billing :: billing_db where
  "example_billing =
     \<lparr>plans = [example_plan], plan_entitlements = [], subscriptions = [example_subscription],
      subscription_events = [], strategy_preferences = [], invoices = [], invoice_items = [],
      payments = [], payment_events = [], default_tax_rate = Some (1 / 10), invoice_seq = 1\<rparr>"

abbreviation (input) no_opts :: "bool \<Rightarrow> invoice_opts" where
  "no_opts paid \<equiv> \<lparr>opt_start = None, opt_end = None, opt_markPaid = paid, opt_paymentId = None\<rparr>"

text \<open>
  C12. The invoice a billing period gets is arithmetically right: its subtotal is the sum of its line
  items, the setup fee is charged on the first invoice of the subscription only, the tax differs from
  subtotal times rate by at most one hundred-millionth, and the total is exactly subtotal plus tax.
  The commissionable amount, however, is the whole subtotal: it exceeds the sum of the line items
  marked commissionable by the setup fee.
\<close>

theorem invoice_arithmetic:
  assumes "decimal_arith D"
    and "insert_invoice D num now iid s p pstart pend price opts db = (Inr iid, db')"
    and "num price = price" and "num (pl_setup_fee p) = pl_setup_fee p"
    and "grid8 price" and "0 \<le> price" and "price < 10 ^ 10"
    and "grid8 (pl_setup_fee p)" and "0 \<le> pl_setup_fee p" and "pl_setup_fee p < 10 ^ 10"
    and "default_tax_rate db = Some rate" and "0 \<le> rate" and "rate \<le> 1"
    and "fee = (if \<exists>i\<in>set (invoices db). iv_subscription i = su_id s then 0 else pl_setup_fee p)"
  shows "\<exists>inv items. inv \<in> set (invoices db') \<and> iv_id inv = iid \<and>
    invoice_items db' = invoice_items db @ items \<and>
    iv_subtotal inv = fee + price \<and> sum_list (map ii_amount items) = iv_subtotal inv \<and>
    iv_total inv = iv_subtotal inv + iv_taxes inv \<and> 0 \<le> iv_taxes inv \<and>
    \<bar>iv_taxes inv - iv_subtotal inv * rate\<bar> \<le> 1 / 10 ^ 8 \<and>
    iv_commissionable inv = sum_list (map ii_amount (filter ii_commissionable items)) + fee"
proof -
  define isFirst where "isFirst = (count_rows (\<lambda>i. iv_subscription i = su_id s) (invoices db) = 0)"
  have fee: "fee = (if isFirst then pl_setup_fee p else 0)"
    unfolding assms(14) isFirst_def by (auto simp: count_rows_def filter_empty_conv)
  let ?st = "invoice_subtotal D p isFirst price"
  let ?inv0 = "new_invoice D now iid (invoice_number (invoice_seq db)) s p pstart pend ?st rate (opt_markPaid opts)"
  let ?inv = "if opt_markPaid opts then set_paid now ?inv0 else ?inv0"
  let ?items = "invoice_lines D num iid s p isFirst price"
  note sub = subtotal_exact [OF assms(1,5,8,6,9,7,10), of isFirst]
  note tot = new_invoice_totals [OF assms(1) sub(2,3,4) assms(12,13),
      of now iid "invoice_number (invoice_seq db)" s p pstart pend "opt_markPaid opts"]
  have sums: "sum_list (map ii_amount ?items) = fee + price"
    "sum_list (map ii_amount (filter ii_commissionable ?items)) = price"
    using lines_sum [OF assms(1,3,4) grid8_fits20 [OF assms(5)] grid8_fits20 [OF assms(8)] assms(9)] assms(6,7,9,10)
    by (simp_all add: fee)
  have "?inv \<in> set (invoices db')" "invoice_items db' = invoice_items db @ ?items"
    using assms(2,11) by (auto simp: insert_invoice_def nextInvoiceNumber_def Let_def isFirst_def split: if_splits)
  moreover have "iv_id ?inv = iid" "iv_subtotal ?inv = ?st" "iv_total ?inv = iv_total ?inv0"
    "iv_taxes ?inv = iv_taxes ?inv0" "iv_commissionable ?inv = ?st"
    by (simp_all add: new_invoice_def Let_def set_paid_def)
  ultimately show ?thesis
    using sums tot sub(1) by (intro exI [of _ ?inv] exI [of _ ?items]) (auto simp: fee)
qed

theorem invoice_arithmetic_witness:
  "\<exists>inv items. inv \<in> set (invoices (snd (insert_invoice dec20 (\<lambda>x. x) 5 60 example_subscription example_plan
       0 (days 30) 299 (no_opts False) example_billing))) \<and>
     iv_subtotal inv = 399 \<and> iv_total inv = iv_subtotal inv + iv_taxes inv"
proof -
  let ?r = "insert_invoice dec20 (\<lambda>x. x) 5 60 example_subscription example_plan 0 (days 30) 299 (no_opts False) example_billing"
  have r: "?r = (Inr 60, snd ?r)"
    by (simp add: insert_invoice_def nextInvoiceNumber_def Let_def example_billing_def)
  have g: "grid8 299" "grid8 (pl_setup_fee example_plan)"
    unfolding grid8_def example_plan_def
    by (auto intro: exI [of _ "29900000000"] exI [of _ "10000000000"])
  show ?thesis
    using invoice_arithmetic [OF dec20.decimal_arith_axioms r refl refl g(1) _ _ g(2) _ _ _ _ _ refl, of "1 / 10"]
    by (auto simp: example_plan_def example_billing_def)
qed

text \<open>
  C13. Whatever requests and webhooks the billing service handles, a subscription's billing period has
  at most one invoice and no two invoices share an identifier or a number.
\<close>

theorem one_invoice_per_period:
  assumes "invoices_ok db" and "db' = run_requests (exec_billing D num hmac secret) reqs db"
    and "i \<in> set (invoices db')" and "j \<in> set (invoices db')"
    and "iv_subscription i = iv_subscription j \<and> iv_period_start i = iv_period_start j \<and>
           iv_period_end i = iv_period_end j \<or> iv_id i = iv_id j \<or> iv_number i = iv_number j"
  shows "i = j"
proof -
  have "invoices_ok db'" unfolding assms(2) by (rule billing_invoices.run_inv [OF assms(1)])
  then have inj: "inj_on period_key (set (invoices db'))" "inj_on iv_id (set (invoices db'))"
    "inj_on iv_number (set (invoices db'))" by (simp_all add: invoices_ok_def distinct_map)
  from assms(5) have "period_key i = period_key j \<or> iv_id i = iv_id j \<or> iv_number i = iv_number j"
    by (auto simp: period_key_def)
  then show ?thesis using inj assms(3,4) by (auto dest: inj_onD)
qed

theorem one_invoice_per_period_witness:
  "inj_on iv_number (set (invoices (run_requests (exec_billing dec20 (\<lambda>x. x) (\<lambda>k m. k @ m) (Some ''k''))
     [(1, GenerateInvoice 60 40 20 (no_opts False)), (2, GenerateInvoice 61 40 20 (no_opts True))] example_billing)))"
proof -
  have "invoices_ok example_billing" by (simp add: invoices_ok_def example_billing_def)
  from one_invoice_per_period [OF this refl] show ?thesis by (intro inj_onI) blast
qed

text \<open>
  A webhook whose body is not signed with the configured secret is refused and changes nothing. A
  delivery that was accepted once is, after any further requests, recognised as a duplicate and
  changes nothing, whatever it contains.
\<close>

theorem webhook_authentic_and_once:
  assumes "handleWebhook D num hmac (Some secret) now iid wh db = (Inr r, db1)"
    and "wh_provider wh' = wh_provider wh" and "wh_event_id wh' = wh_event_id wh"
    and "db2 = run_requests (exec_billing D num hmac (Some secret)) reqs db1"
  shows "signature_ok hmac secret wh \<and> secret \<noteq> [] \<and>
    snd (handleWebhook D num hmac (Some secret) now' iid' wh' db2) = db2 \<and>
    (signature_ok hmac secret wh' \<longrightarrow>
       fst (handleWebhook D num hmac (Some secret) now' iid' wh' db2) = Inr \<lparr>wr_duplicate = True, wr_invoice = None\<rparr>)"
proof -
  have sig: "signature_ok hmac secret wh" and sec: "secret \<noteq> []"
    using assms(1) webhook_rejected [of "Some secret" hmac wh D num now iid db] by auto
  have "(wh_provider wh, wh_event_id wh) \<in> seen db2"
    unfolding assms(4) using webhook_records [OF assms(1)] billing_events.run_leq by blast
  then have dup: "(wh_provider wh', wh_event_id wh') \<in> seen db2" by (simp add: assms(2,3))
  show ?thesis
  proof (cases "signature_ok hmac secret wh'")
    case True
    then show ?thesis using webhook_duplicate [of "Some secret" hmac wh' db2 D num now' iid'] sec sig dup by simp
  next
    case False
    then show ?thesis using webhook_rejected [of "Some secret" hmac wh' D num now' iid' db2] sec sig by auto
  qed
qed

definition example_webhook :: webhook where
  "example_webhook =
     \<lparr>wh_signatures = [None, Some ''sha256=kbody''], wh_raw = Some ''body'', wh_event = Some ''invoice.paid'',
      wh_provider = ''internal'', wh_event_id = ''ev1'', wh_subscription = Some 40, wh_payment = None\<rparr>"

theorem webhook_authentic_and_once_witness:
  "snd (handleWebhook dec20 (\<lambda>x. x) (\<lambda>k m. k @ m) (Some ''k'') 9 61 example_webhook
     (snd (handleWebhook dec20 (\<lambda>x. x) (\<lambda>k m. k @ m) (Some ''k'') 8 60 example_webhook example_billing))) =
   snd (handleWebhook dec20 (\<lambda>x. x) (\<lambda>k m. k @ m) (Some ''k'') 8 60 example_webhook example_billing)"
proof -
  let ?r = "handleWebhook dec20 (\<lambda>x. x) (\<lambda>k m. k @ m) (Some ''k'') 8 60 example_webhook example_billing"
  have "signature_ok (\<lambda>k m. k @ m) ''k'' example_webhook" by (simp add: signature_ok_def example_webhook_def strip_prefix_def)
  then have "ok (fst ?r)"
    by (simp add: handleWebhook_def example_billing_def example_webhook_def Let_def split: prod.split sum.split)
  then obtain r where "?r = (Inr r, snd ?r)" by (cases ?r; cases "fst ?r") auto
  from webhook_authentic_and_once [OF this refl refl, of _ "[]"] show ?thesis by simp
qed

text \<open>
  A paid event does not settle an invoice that exists already: when the subscription's period has
  an invoice, the webhook answers with that invoice but leaves every invoice as it is, also one that
  is still open.
\<close>

theorem paid_webhook_keeps_open_invoice:
  assumes "wh_subscription wh = Some sid" and "wh_event wh = Some ''invoice.paid''"
    and "first_row (\<lambda>s. su_id s = sid) (subscriptions db) = Some s"
    and "i \<in> set (invoices db)" and "iv_subscription i = sid"
    and "iv_period_start i = su_period_start s" and "iv_period_end i = su_period_end s"
  shows "invoices (snd (handleWebhook D num hmac secret now iid wh db)) = invoices db"
proof (cases rule: webhook_cases [of D num hmac secret now iid wh db])
  case (recorded db1)
  have inv: "invoices db1 = invoices db" "subscriptions db1 = subscriptions db" by (simp_all add: recorded(1))
  have "invoices (snd (generateInvoiceForSubscription D num now iid sid actor
      \<lparr>opt_start = None, opt_end = None, opt_markPaid = True, opt_paymentId = wh_payment wh\<rparr> db1)) = invoices db1" for actor
  proof (cases rule: generate_cases [of D num now iid sid actor
      "\<lparr>opt_start = None, opt_end = None, opt_markPaid = True, opt_paymentId = wh_payment wh\<rparr>" db1])
    case (insert s' p price pstart pend)
    with assms(3) have "s' = s" by (simp add: inv)
    with insert(5-7) assms(4-7) show ?thesis by (auto simp: inv period_key_def image_iff)
  qed simp_all
  with recorded(2) inv assms(1) show ?thesis by auto
qed simp

theorem paid_webhook_keeps_open_invoice_witness:
  "map iv_status (invoices (snd (handleWebhook dec20 (\<lambda>x. x) (\<lambda>k m. k @ m) (Some ''k'') 8 61 example_webhook
     (snd (generateInvoiceForSubscription dec20 (\<lambda>x. x) 5 60 40 20 (no_opts False) example_billing))))) = [INV_OPEN]"
proof -
  let ?db = "snd (generateInvoiceForSubscription dec20 (\<lambda>x. x) 5 60 40 20 (no_opts False) example_billing)"
  have st: "map iv_status (invoices ?db) = [INV_OPEN]" "map iv_subscription (invoices ?db) = [40]"
    "map iv_period_start (invoices ?db) = [0]" "map iv_period_end (invoices ?db) = [days 30]"
    by (simp_all add: generateInvoiceForSubscription_def assertSubscriptionOwnership_def example_billing_def
        example_subscription_def example_plan_def unit_price_def insert_invoice_def nextInvoiceNumber_def
        new_invoice_def Let_def)
  have "subscriptions ?db = [example_subscription]"
    by (cases rule: generate_cases [of dec20 "\<lambda>x. x" 5 60 40 20 "no_opts False" example_billing])
      (simp_all add: example_billing_def insert_invoice_def nextInvoiceNumber_def Let_def)
  then have s: "first_row (\<lambda>s. su_id s = 40) (subscriptions ?db) = Some example_subscription"
    by (simp add: example_subscription_def)
  obtain i where i: "invoices ?db = [i]" using st(1) by auto
  have "invoices (snd (handleWebhook dec20 (\<lambda>x. x) (\<lambda>k m. k @ m) (Some ''k'') 8 61 example_webhook ?db)) = invoices ?db"
    by (rule paid_webhook_keeps_open_invoice [OF _ _ s, of _ i])
      (use st i in \<open>simp_all add: example_webhook_def example_subscription_def\<close>)
  with st(1) show ?thesis by simp
qed

text \<open>
  Escaping for the HTML invoice is what five successive global replacements should be: each
  character is replaced on its own, so the result contains no markup character, and different texts
  stay different.
\<close>

theorem esc_faithful:
  "esc s = concat (map esc_char s) \<and>
   set (esc s) \<inter> {CHR ''<'', CHR ''>'', CHR 0x22, CHR 0x27} = {} \<and> (esc s = esc t \<longleftrightarrow> s = t)"
proof -
  have "set (esc_char c) \<inter> {CHR ''<'', CHR ''>'', CHR 0x22, CHR 0x27} = {}" for c
    by (simp add: esc_char_def quote_chars)
  then have "set (esc s) \<inter> {CHR ''<'', CHR ''>'', CHR 0x22, CHR 0x27} = {}"
    unfolding esc_charwise set_concat by auto
  moreover have "esc s = esc t \<longleftrightarrow> s = t"
    using esc_inj by blast
  ultimately show ?thesis using esc_charwise by blast
qed

end
