(* ===== verification/Subscriptions.thy ===== *)
theory Subscriptions
  imports Billing
begin

text \<open>
  The subscription service, \<^verbatim>\<open>control/src/modules/subscriptions/subscriptions.service.ts\<close>:
  creating a subscription (with the invoice the billing service generates for it), the effective
  entitlements of a user, the strategy preferences, and the guarded life cycle (pause, resume,
  cancel). Adding a calendar month or year to a timestamp is done by the database and is the
  parameter \<open>cal\<close>. The properties: what the service stores and reports is always within the plan;
  a subscription only moves along the transition table and only at its owner's request.
\<close>

section \<open>Transition table\<close>

fun ALLOWED_TRANSITIONS :: "subscription_status \<Rightarrow> subscription_status list" where
  "ALLOWED_TRANSITIONS S_ACTIVE = [S_PAUSED, S_CANCELLED, S_PAST_DUE]"
| "ALLOWED_TRANSITIONS S_PAUSED = [S_ACTIVE, S_CANCELLED]"
| "ALLOWED_TRANSITIONS S_PAST_DUE = [S_ACTIVE, S_CANCELLED]"
| "ALLOWED_TRANSITIONS _ = []"

section \<open>Creating a subscription\<close>

record create_dto =
  cd_planId :: uuid
  cd_strategyIds :: "string option"
  cd_selected :: "string list option"
  cd_interval :: "billing_interval option"

definition requested_strategies :: "create_dto \<Rightarrow> string list" where
  "requested_strategies dto =
     (case cd_selected dto of
        Some xs \<Rightarrow> xs
      | None \<Rightarrow>
          (case cd_strategyIds dto of
             Some (c # s) \<Rightarrow> map js_trim (js_split (CHR '','') (c # s))
           | _ \<Rightarrow> [''STANDARD_SCALPING'']))"

definition policy_of :: "plan_row \<Rightarrow> plan_policy" where
  "policy_of p = planPolicyFromRow (pl_code p) (pl_allowed_strategies p) (pl_max_slots p)"

definition reason_text :: "strategy_reason \<Rightarrow> string" where
  "reason_text r =
     (case r of
        AT_LEAST_ONE_STRATEGY_REQUIRED \<Rightarrow> ''AT_LEAST_ONE_STRATEGY_REQUIRED''
      | UNKNOWN_STRATEGY \<Rightarrow> ''UNKNOWN_STRATEGY''
      | STRATEGY_NOT_ENTITLED \<Rightarrow> ''STRATEGY_NOT_ENTITLED''
      | PLAN_STRATEGY_LIMIT \<Rightarrow> ''plan_strategy_limit'')"

definition new_subscription ::
  "(billing_interval \<Rightarrow> time \<Rightarrow> time) \<Rightarrow> time \<Rightarrow> uuid \<Rightarrow> uuid \<Rightarrow> plan_row \<Rightarrow> billing_interval \<Rightarrow> string list
   \<Rightarrow> subscription_row" where
  "new_subscription cal now sid u p iv sel =
     \<lparr>su_id = sid, su_user = u, su_plan = pl_id p,
      su_status = (if pl_code p = ''FREE'' then S_ACTIVE else S_INCOMPLETE), su_interval = iv,
      su_period_start = now, su_period_end = cal iv now, su_selected = sel, su_paused_at = None,
      su_cancelled_at = None, su_cancel_reason = None, su_created_at = now, su_updated_at = now\<rparr>"

text \<open>The invoice is generated after the insertion; its failure is only logged.\<close>

definition create_subscription ::
  "decimal_ops \<Rightarrow> (rat \<Rightarrow> rat) \<Rightarrow> (billing_interval \<Rightarrow> time \<Rightarrow> time) \<Rightarrow> time \<Rightarrow> uuid \<Rightarrow> uuid \<Rightarrow> uuid \<Rightarrow> create_dto
   \<Rightarrow> (billing_db, subscription_row) handler" where
  "create_subscription D num cal now sid iid u dto db =
     (case first_row (\<lambda>p. pl_id p = cd_planId dto \<and> pl_active p) (plans db) of
        None \<Rightarrow> (Inl (NotFound ''Active plan not found''), db)
      | Some p \<Rightarrow>
          let iv = (case cd_interval dto of None \<Rightarrow> MONTHLY | Some i \<Rightarrow> i)
          in if pl_code p \<noteq> ''FREE'' \<and> \<not> pl_billing_enabled p
             then (Inl (BadRequest ''Plan is not available for new subscriptions''), db)
             else if iv = ANNUAL \<and> pl_annual_price p = None
             then (Inl (BadRequest ''Annual billing is not available for this plan''), db)
             else
               (case validateStrategySelection (policy_of p) (Some (requested_strategies dto)) of
                  Inl r \<Rightarrow> (Inl (BadRequest (reason_text r)), db)
                | Inr sel \<Rightarrow>
                    if exists_row (\<lambda>s. su_id s = sid) (subscriptions db) then (Inl (SqlError ''23505''), db)
                    else
                      let s = new_subscription cal now sid u p iv sel;
                          db1 = db\<lparr>subscriptions := subscriptions db @ [s]\<rparr>
                      in (Inr s,
                          snd (generateInvoiceForSubscription D num now iid sid u
                            \<lparr>opt_start = None, opt_end = None, opt_markPaid = (pl_code p = ''FREE''),
                             opt_paymentId = None\<rparr> db1))))"

section \<open>Entitlements\<close>

definition entitled_status :: "subscription_status \<Rightarrow> bool" where
  "entitled_status s \<longleftrightarrow> s \<in> {S_ACTIVE, S_TRIAL, S_GRACE, S_CANCEL_AT_PERIOD_END}"

definition plan_of :: "billing_db \<Rightarrow> subscription_row \<Rightarrow> plan_row option" where
  "plan_of db s = first_row (\<lambda>p. pl_id p = su_plan s) (plans db)"

text \<open>\<^verbatim>\<open>COALESCE(NULLIF(s.selected_strategies, '[]'), p.allowed_strategies)\<close>\<close>

definition effective_strategies :: "subscription_row \<Rightarrow> plan_row \<Rightarrow> string list" where
  "effective_strategies s p =
     (if su_selected s = [] then (case pl_allowed_strategies p of Some xs \<Rightarrow> xs | None \<Rightarrow> []) else su_selected s)"

definition current_subscription :: "uuid \<Rightarrow> billing_db \<Rightarrow> subscription_row option" where
  "current_subscription u db =
     latest su_created_at (\<lambda>s. su_user s = u \<and> entitled_status (su_status s) \<and> plan_of db s \<noteq> None)
       (subscriptions db)"

definition current_plan :: "uuid \<Rightarrow> billing_db \<Rightarrow> (subscription_row \<times> plan_row) option" where
  "current_plan u db =
     (case current_subscription u db of None \<Rightarrow> None | Some s \<Rightarrow> map_option (Pair s) (plan_of db s))"

record entitlements =
  en_code :: string
  en_selected :: "string list"
  en_max_signals :: int
  en_level :: "string option"
  en_features :: "feature_group list"
  en_entitlements :: "(string \<times> string) list"

text \<open>
  The query groups by plan and selection and takes the group with the newest subscription, which is
  the group of the newest subscription.
\<close>

definition getEntitlements :: "uuid \<Rightarrow> billing_db \<Rightarrow> entitlements" where
  "getEntitlements u db =
     (case current_plan u db of
        None \<Rightarrow>
          \<lparr>en_code = ''FREE'', en_selected = [''STANDARD_SCALPING''], en_max_signals = 5,
           en_level = Some ''core'', en_features = visibleFeatureGroups (Some ''core''), en_entitlements = []\<rparr>
      | Some (s, p) \<Rightarrow>
          \<lparr>en_code = pl_code p, en_selected = effective_strategies s p,
           en_max_signals = pl_max_signals p, en_level = pl_feature_level p,
           en_features = visibleFeatureGroups (pl_feature_level p),
           en_entitlements = map snd (filter (\<lambda>e. fst e = pl_id p) (plan_entitlements db))\<rparr>)"

definition findSubscriptionsByUser :: "uuid \<Rightarrow> billing_db \<Rightarrow> (subscription_row \<times> plan_row) list" where
  "findSubscriptionsByUser u db =
     map (\<lambda>s. (s, the (plan_of db s)))
       (sort_key (\<lambda>s. - su_created_at s)
          (filter (\<lambda>s. su_user s = u \<and> plan_of db s \<noteq> None) (subscriptions db)))"

section \<open>Preferences\<close>

definition upsert_preference :: "time \<Rightarrow> uuid \<Rightarrow> string list \<Rightarrow> preference_row list \<Rightarrow> preference_row list" where
  "upsert_preference now u sel ps =
     (if exists_row (\<lambda>r. sp_user r = u) ps
      then update_rows (\<lambda>r. sp_user r = u) (\<lambda>r. r\<lparr>sp_selected := sel, sp_updated_at := now\<rparr>) ps
      else ps @ [\<lparr>sp_user = u, sp_selected = sel, sp_updated_at = now\<rparr>])"

definition updateStrategyPreferences :: "time \<Rightarrow> uuid \<Rightarrow> string list \<Rightarrow> (billing_db, string list) handler" where
  "updateStrategyPreferences now u sel db =
     (case current_plan u db of
        None \<Rightarrow> (Inl (NotFound ''No active subscription found''), db)
      | Some (s, p) \<Rightarrow>
               (case validateStrategySelection (policy_of p) (Some sel) of
                  Inl r \<Rightarrow> (Inl (BadRequest (reason_text r)), db)
                | Inr chosen \<Rightarrow>
                    let target = latest su_created_at (\<lambda>s. su_user s = u \<and> entitled_status (su_status s))
                                   (subscriptions db)
                    in (Inr chosen,
                        db\<lparr>strategy_preferences := upsert_preference now u chosen (strategy_preferences db),
                           subscriptions :=
                             update_rows (\<lambda>s. Some (su_id s) = map_option su_id target)
                               (\<lambda>s. s\<lparr>su_selected := chosen\<rparr>) (subscriptions db)\<rparr>)))"

section \<open>Life cycle\<close>

definition set_status :: "time \<Rightarrow> subscription_status \<Rightarrow> string option \<Rightarrow> subscription_row \<Rightarrow> subscription_row" where
  "set_status now st reason s =
     s\<lparr>su_status := st, su_updated_at := now,
       su_paused_at := (if st = S_PAUSED then Some now else su_paused_at s),
       su_cancelled_at := (if st = S_CANCELLED then Some now else su_cancelled_at s),
       su_cancel_reason := (if st = S_CANCELLED then reason else su_cancel_reason s)\<rparr>"

definition transition_subscription ::
  "time \<Rightarrow> uuid \<Rightarrow> uuid \<Rightarrow> subscription_status \<Rightarrow> string option \<Rightarrow> (billing_db, uuid \<times> subscription_status) handler" where
  "transition_subscription now sid u st reason db =
     (case first_row (\<lambda>s. su_id s = sid) (subscriptions db) of
        None \<Rightarrow> (Inl (NotFound ''Subscription not found''), db)
      | Some s \<Rightarrow>
          if su_user s \<noteq> u then (Inl (NotFound ''Subscription not found''), db)
          else if st \<notin> set (ALLOWED_TRANSITIONS (su_status s))
          then (Inl (BadRequest ''Invalid transition''), db)
          else
            (Inr (sid, st),
             db\<lparr>subscriptions := update_rows (\<lambda>s. su_id s = sid) (set_status now st reason) (subscriptions db),
                subscription_events := subscription_events db @
                  [\<lparr>se_subscription = sid, se_type = st, se_from = su_status s, se_reason = reason,
                    se_actor = u, se_created_at = now\<rparr>]\<rparr>))"

definition pauseSubscription :: "time \<Rightarrow> uuid \<Rightarrow> uuid \<Rightarrow> (billing_db, uuid \<times> subscription_status) handler" where
  "pauseSubscription now sid u = transition_subscription now sid u S_PAUSED (Some ''PAUSED_BY_USER'')"

definition resumeSubscription :: "time \<Rightarrow> uuid \<Rightarrow> uuid \<Rightarrow> (billing_db, uuid \<times> subscription_status) handler" where
  "resumeSubscription now sid u = transition_subscription now sid u S_ACTIVE (Some ''RESUMED_BY_USER'')"

definition cancelSubscription ::
  "time \<Rightarrow> uuid \<Rightarrow> uuid \<Rightarrow> string option \<Rightarrow> (billing_db, uuid \<times> subscription_status) handler" where
  "cancelSubscription now sid u reason =
     transition_subscription now sid u S_CANCELLED
       (Some (case reason of None \<Rightarrow> ''CANCELLED_BY_USER'' | Some r \<Rightarrow> r))"

section \<open>The service as a sequence of requests\<close>

datatype subscription_request =
    CreateSub uuid uuid create_dto
  | UpdateStrategies "string list"
  | PauseSub uuid
  | ResumeSub uuid
  | CancelSub uuid "string option"

text \<open>A request carries its time and the authenticated user.\<close>

type_synonym user_request = "time \<times> uuid \<times> subscription_request"

fun exec_subscription ::
  "decimal_ops \<Rightarrow> (rat \<Rightarrow> rat) \<Rightarrow> (billing_interval \<Rightarrow> time \<Rightarrow> time) \<Rightarrow> user_request \<Rightarrow> billing_db \<Rightarrow> billing_db" where
  "exec_subscription D num cal (now, u, CreateSub sid iid dto) db =
     snd (create_subscription D num cal now sid iid u dto db)"
| "exec_subscription D num cal (now, u, UpdateStrategies sel) db = snd (updateStrategyPreferences now u sel db)"
| "exec_subscription D num cal (now, u, PauseSub sid) db = snd (pauseSubscription now sid u db)"
| "exec_subscription D num cal (now, u, ResumeSub sid) db = snd (resumeSubscription now sid u db)"
| "exec_subscription D num cal (now, u, CancelSub sid reason) db = snd (cancelSubscription now sid u reason db)"

section \<open>The invariant of the stored selections\<close>

definition within_plan :: "billing_db \<Rightarrow> subscription_row \<Rightarrow> bool" where
  "within_plan db s \<longleftrightarrow> (\<exists>p. plan_of db s = Some p \<and> selection_ok (policy_of p) (su_selected s))"

definition subscriptions_ok :: "billing_db \<Rightarrow> bool" where
  "subscriptions_ok db \<longleftrightarrow>
     distinct (map su_id (subscriptions db)) \<and> distinct (map pl_id (plans db)) \<and>
     (\<forall>s\<in>set (subscriptions db). within_plan db s)"

lemma insert_invoice_frame [simp]:
  "subscriptions (snd (insert_invoice D num now iid s p pstart pend price opts db)) = subscriptions db"
  "plans (snd (insert_invoice D num now iid s p pstart pend price opts db)) = plans db"
  by (simp_all add: insert_invoice_def nextInvoiceNumber_def Let_def)

lemma generate_frame [simp]:
  "subscriptions (snd (generateInvoiceForSubscription D num now iid sid actor opts db)) = subscriptions db"
  "plans (snd (generateInvoiceForSubscription D num now iid sid actor opts db)) = plans db"
  by (cases rule: generate_cases [of D num now iid sid actor opts db]; simp)+

lemma within_plan_cong:
  "plans db' = plans db \<Longrightarrow> su_plan s' = su_plan s \<Longrightarrow> su_selected s' = su_selected s \<Longrightarrow>
   within_plan db' s' = within_plan db s"
  by (simp add: within_plan_def plan_of_def)

text \<open>A new subscription, when the request is accepted.\<close>

lemma create_cases:
  obtains (refused) e where "create_subscription D num cal now sid iid u dto db = (Inl e, db)"
  | (created) p iv sel db1 where
    "first_row (\<lambda>p. pl_id p = cd_planId dto \<and> pl_active p) (plans db) = Some p"
    "selection_ok (policy_of p) sel" "sid \<notin> su_id ` set (subscriptions db)"
    "create_subscription D num cal now sid iid u dto db = (Inr (new_subscription cal now sid u p iv sel), db1)"
    "subscriptions db1 = subscriptions db @ [new_subscription cal now sid u p iv sel]" "plans db1 = plans db"
proof (cases "first_row (\<lambda>p. pl_id p = cd_planId dto \<and> pl_active p) (plans db)")
  case None
  then show thesis by (intro refused) (simp add: create_subscription_def)
next
  case (Some p)
  let ?iv = "case cd_interval dto of None \<Rightarrow> MONTHLY | Some i \<Rightarrow> i"
  show thesis
  proof (cases "validateStrategySelection (policy_of p) (Some (requested_strategies dto))")
    case (Inl r)
    with Some have "\<exists>e. create_subscription D num cal now sid iid u dto db = (Inl e, db)"
      by (simp add: create_subscription_def Let_def)
    then show thesis using refused by blast
  next
    case (Inr sel)
    consider "pl_code p \<noteq> ''FREE'' \<and> \<not> pl_billing_enabled p \<or> ?iv = ANNUAL \<and> pl_annual_price p = None \<or>
        exists_row (\<lambda>s. su_id s = sid) (subscriptions db)"
      | "\<not> (pl_code p \<noteq> ''FREE'' \<and> \<not> pl_billing_enabled p)" "\<not> (?iv = ANNUAL \<and> pl_annual_price p = None)"
        "\<not> exists_row (\<lambda>s. su_id s = sid) (subscriptions db)" by blast
    then show thesis
    proof cases
      case 1
      then have "\<exists>e. create_subscription D num cal now sid iid u dto db = (Inl e, db)"
        using Some Inr by (auto simp: create_subscription_def Let_def)
      then show thesis using refused by blast
    next
      case 2
      have fresh: "sid \<notin> su_id ` set (subscriptions db)" using 2(3) by (auto simp: list_ex_iff)
      let ?db1 = "snd (create_subscription D num cal now sid iid u dto db)"
      have "create_subscription D num cal now sid iid u dto db = (Inr (new_subscription cal now sid u p ?iv sel), ?db1)"
        "subscriptions ?db1 = subscriptions db @ [new_subscription cal now sid u p ?iv sel]" "plans ?db1 = plans db"
        using 2 Some Inr by (auto simp: create_subscription_def Let_def)
      then show thesis by (rule created [OF Some validate_selection_Inr [OF Inr] fresh])
    qed
  qed
qed

lemma current_plan_Some:
  assumes "current_plan u db = Some (s, p)"
  shows "s \<in> set (subscriptions db)" "su_user s = u" "entitled_status (su_status s)" "plan_of db s = Some p"
    "current_subscription u db = Some s"
  using assms
  by (auto simp: current_plan_def current_subscription_def split: option.splits dest!: latest_Some)

lemma update_strategies_cases:
  obtains (refused) e where "updateStrategyPreferences now u sel db = (Inl e, db)"
  | (updated) s p chosen where "current_plan u db = Some (s, p)" "selection_ok (policy_of p) chosen"
    "plans (snd (updateStrategyPreferences now u sel db)) = plans db"
    "subscriptions (snd (updateStrategyPreferences now u sel db)) =
       update_rows (\<lambda>r. Some (su_id r) = map_option su_id
           (latest su_created_at (\<lambda>s. su_user s = u \<and> entitled_status (su_status s)) (subscriptions db)))
         (\<lambda>s. s\<lparr>su_selected := chosen\<rparr>) (subscriptions db)"
proof (cases "current_plan u db")
  case None
  then show thesis by (intro refused) (simp add: updateStrategyPreferences_def)
next
  case (Some sp)
  obtain s p where sp: "sp = (s, p)" by fastforce
  show thesis
  proof (cases "validateStrategySelection (policy_of p) (Some sel)")
    case (Inl r)
    with Some sp show thesis by (intro refused) (simp add: updateStrategyPreferences_def)
  next
    case (Inr chosen)
    show thesis
      by (rule updated [OF Some [unfolded sp] validate_selection_Inr [OF Inr]])
        (use Some sp Inr in \<open>simp_all add: updateStrategyPreferences_def Let_def\<close>)
  qed
qed

text \<open>With a plan for every subscription both queries of the update find the same one.\<close>

lemma current_subscription_joined:
  assumes "subscriptions_ok db"
  shows "current_subscription u db =
    latest su_created_at (\<lambda>s. su_user s = u \<and> entitled_status (su_status s)) (subscriptions db)"
proof -
  have "filter (\<lambda>s. su_user s = u \<and> entitled_status (su_status s) \<and> plan_of db s \<noteq> None) (subscriptions db) =
      filter (\<lambda>s. su_user s = u \<and> entitled_status (su_status s)) (subscriptions db)"
    using assms by (intro filter_cong) (auto simp: subscriptions_ok_def within_plan_def)
  then show ?thesis by (simp only: current_subscription_def latest_def)
qed

lemma create_ok:
  assumes "subscriptions_ok db"
  shows "subscriptions_ok (snd (create_subscription D num cal now sid iid u dto db))"
proof (cases rule: create_cases [of D num cal now sid iid u dto db])
  case (created p iv sel db1)
  let ?s = "new_subscription cal now sid u p iv sel"
  have p: "p \<in> set (plans db)" using first_row_Some [OF created(1)] by simp
  have "plan_of db1 ?s = Some p"
  proof -
    from p have "first_row (\<lambda>q. pl_id q = pl_id p) (plans db) \<noteq> None" by (auto simp: first_row_None)
    then obtain q where q: "first_row (\<lambda>q. pl_id q = pl_id p) (plans db) = Some q" by blast
    then have "q = p" using first_row_Some [OF q] p assms by (auto simp: subscriptions_ok_def distinct_map dest: inj_onD)
    with q show ?thesis by (simp add: plan_of_def new_subscription_def created(6))
  qed
  then have "within_plan db1 ?s" using created(2) by (simp add: within_plan_def new_subscription_def)
  moreover have "within_plan db1 s = within_plan db s" for s by (rule within_plan_cong) (simp_all add: created(6))
  ultimately show ?thesis
    using assms created(3-6) by (simp add: subscriptions_ok_def) (simp add: new_subscription_def)
qed (simp add: assms)

lemma update_strategies_ok:
  assumes ok: "subscriptions_ok db"
  shows "subscriptions_ok (snd (updateStrategyPreferences now u sel db))"
proof (cases rule: update_strategies_cases [of now u sel db])
  case (updated s p chosen)
  let ?db = "snd (updateStrategyPreferences now u sel db)"
  have s: "s \<in> set (subscriptions db)" "plan_of db s = Some p"
    "latest su_created_at (\<lambda>s. su_user s = u \<and> entitled_status (su_status s)) (subscriptions db) = Some s"
    using current_plan_Some [OF updated(1)] current_subscription_joined [OF ok, of u] by simp_all
  have subs: "subscriptions ?db = update_rows (\<lambda>r. su_id r = su_id s) (\<lambda>r. r\<lparr>su_selected := chosen\<rparr>) (subscriptions db)"
    using updated(4) by (simp add: s(3))
  have "within_plan ?db r'" if "r' \<in> set (subscriptions ?db)" for r'
  proof -
    from that obtain r where r: "r \<in> set (subscriptions db)"
      "r' = (if su_id r = su_id s then r\<lparr>su_selected := chosen\<rparr> else r)" by (auto simp: subs in_update_rows)
    show ?thesis
    proof (cases "su_id r = su_id s")
      case True
      then have "r = s" using r(1) s(1) ok by (auto simp: subscriptions_ok_def distinct_map dest: inj_onD)
      then show ?thesis using r(2) s(2) updated(2,3) by (simp add: within_plan_def plan_of_def)
    next
      case False
      then have "within_plan ?db r' = within_plan db r" using r(2) updated(3) by (intro within_plan_cong) simp_all
      then show ?thesis using ok r(1) by (simp add: subscriptions_ok_def)
    qed
  qed
  moreover have "map su_id (subscriptions ?db) = map su_id (subscriptions db)"
    unfolding subs by (rule map_update_rows_frame) simp
  ultimately show ?thesis using ok by (simp add: subscriptions_ok_def updated(3))
qed (simp add: ok)

lemma transition_snd:
  "snd (transition_subscription now sid u st reason db) = db \<or>
   (\<exists>s es. first_row (\<lambda>s. su_id s = sid) (subscriptions db) = Some s \<and> su_user s = u \<and>
      st \<in> set (ALLOWED_TRANSITIONS (su_status s)) \<and>
      snd (transition_subscription now sid u st reason db) =
        db\<lparr>subscriptions := update_rows (\<lambda>s. su_id s = sid) (set_status now st reason) (subscriptions db),
           subscription_events := es\<rparr>)"
  by (auto simp: transition_subscription_def split: option.split)

lemma subscription_transition_ok:
  assumes "subscriptions_ok db"
  shows "subscriptions_ok (snd (transition_subscription now sid u st reason db))"
proof -
  have "subscriptions_ok (db\<lparr>subscriptions := update_rows (\<lambda>s. su_id s = sid) (set_status now st reason)
      (subscriptions db), subscription_events := es\<rparr>)" (is "subscriptions_ok ?db") for es
  proof -
    have "map su_id (subscriptions ?db) = map su_id (subscriptions db)"
      by (simp, rule map_update_rows_frame) (simp add: set_status_def)
    moreover have "within_plan ?db (if su_id s = sid then set_status now st reason s else s) = within_plan db s" for s
      by (rule within_plan_cong) (simp_all add: set_status_def)
    ultimately show ?thesis using assms by (simp add: subscriptions_ok_def ball_update_rows)
  qed
  with assms show ?thesis using transition_snd [of now sid u st reason db] by auto
qed

lemma exec_subscription_ok: "subscriptions_ok db \<Longrightarrow> subscriptions_ok (exec_subscription D num cal req db)"
  by (cases "(D, num, cal, req, db)" rule: exec_subscription.cases)
    (simp_all add: create_ok update_strategies_ok subscription_transition_ok pauseSubscription_def resumeSubscription_def
      cancelSubscription_def)

interpretation subscription_entitlements: guarded_service "exec_subscription D num cal" subscriptions_ok for D num cal
  by unfold_locales (rule exec_subscription_ok)

section \<open>Ownership and the transition table\<close>

text \<open>
  How a user's subscriptions may develop when somebody else makes the requests: not at all.
\<close>

definition keeps_user :: "uuid \<Rightarrow> billing_db \<Rightarrow> billing_db \<Rightarrow> bool" where
  "keeps_user u db db' \<longleftrightarrow>
     (subscriptions_ok db \<longrightarrow> subscriptions_ok db' \<and>
        filter (\<lambda>s. su_user s = u) (subscriptions db') = filter (\<lambda>s. su_user s = u) (subscriptions db))"

lemma filter_user_update:
  assumes "distinct (map su_id (subscriptions db))" and "s \<in> set (subscriptions db)" and "su_user s \<noteq> u"
    and "\<And>r. su_user (f r) = su_user r"
  shows "filter (\<lambda>s. su_user s = u) (update_rows (\<lambda>r. su_id r = su_id s) f (subscriptions db)) =
    filter (\<lambda>s. su_user s = u) (subscriptions db)"
proof -
  have "update_rows (\<lambda>r. su_id r = su_id s) f (filter (\<lambda>s. su_user s = u) (subscriptions db)) =
      filter (\<lambda>s. su_user s = u) (subscriptions db)"
    by (rule update_rows_none) (use assms in \<open>auto simp: distinct_map dest: inj_onD\<close>)
  then show ?thesis using assms(4) by (simp add: filter_update_frame)
qed

lemma transition_keeps_user:
  assumes "actor \<noteq> u"
  shows "keeps_user u db (snd (transition_subscription now sid actor st reason db))"
proof -
  have "filter (\<lambda>s. su_user s = u) (subscriptions (snd (transition_subscription now sid actor st reason db))) =
      filter (\<lambda>s. su_user s = u) (subscriptions db)" if ok: "subscriptions_ok db"
    using transition_snd [of now sid actor st reason db]
  proof (elim disjE exE conjE)
    fix s es
    assume s: "first_row (\<lambda>s. su_id s = sid) (subscriptions db) = Some s" "su_user s = actor" and
      eq: "snd (transition_subscription now sid actor st reason db) =
        db\<lparr>subscriptions := update_rows (\<lambda>s. su_id s = sid) (set_status now st reason) (subscriptions db),
           subscription_events := es\<rparr>"
    have "s \<in> set (subscriptions db)" "sid = su_id s" using first_row_Some [OF s(1)] by auto
    with filter_user_update [of db s u "set_status now st reason"] ok s(2) assms eq show ?thesis
      by (simp add: subscriptions_ok_def set_status_def)
  qed simp
  then show ?thesis by (simp add: keeps_user_def subscription_transition_ok)
qed

lemma update_strategies_keeps_user:
  assumes "actor \<noteq> u"
  shows "keeps_user u db (snd (updateStrategyPreferences now actor sel db))"
  unfolding keeps_user_def
proof (intro impI conjI)
  assume ok: "subscriptions_ok db"
  then show "subscriptions_ok (snd (updateStrategyPreferences now actor sel db))" by (rule update_strategies_ok)
  show "filter (\<lambda>s. su_user s = u) (subscriptions (snd (updateStrategyPreferences now actor sel db))) =
      filter (\<lambda>s. su_user s = u) (subscriptions db)"
  proof (cases rule: update_strategies_cases [of now actor sel db])
    case (updated s p chosen)
    then have "latest su_created_at (\<lambda>s. su_user s = actor \<and> entitled_status (su_status s)) (subscriptions db) = Some s"
      using current_plan_Some [OF updated(1)] current_subscription_joined [OF ok, of actor] by simp
    with updated(4) have "subscriptions (snd (updateStrategyPreferences now actor sel db)) =
        update_rows (\<lambda>r. su_id r = su_id s) (\<lambda>s. s\<lparr>su_selected := chosen\<rparr>) (subscriptions db)" by simp
    with filter_user_update [of db s u "\<lambda>s. s\<lparr>su_selected := chosen\<rparr>"] current_plan_Some [OF updated(1)] ok assms
    show ?thesis by (simp add: subscriptions_ok_def)
  qed simp
qed

lemma create_keeps_user:
  assumes "actor \<noteq> u"
  shows "keeps_user u db (snd (create_subscription D num cal now sid iid actor dto db))"
proof (cases rule: create_cases [of D num cal now sid iid actor dto db])
  case (created p iv sel db1)
  with create_ok [of db D num cal now sid iid actor dto] assms show ?thesis
    by (simp add: keeps_user_def new_subscription_def)
qed (simp add: keeps_user_def)

interpretation subscription_isolation:
  selective_service "exec_subscription D num cal" "keeps_user u" "\<lambda>req. fst (snd req) \<noteq> u" for D num cal u
proof
  show "fst (snd req) \<noteq> u \<Longrightarrow> keeps_user u db (exec_subscription D num cal req db)" for req db
    by (cases "(D, num, cal, req, db)" rule: exec_subscription.cases)
      (simp_all add: create_keeps_user update_strategies_keeps_user transition_keeps_user pauseSubscription_def
        resumeSubscription_def cancelSubscription_def)
qed (auto simp: keeps_user_def)

definition subscription_path :: "billing_db \<Rightarrow> billing_db \<Rightarrow> bool" where
  "subscription_path db db' \<longleftrightarrow>
     (subscriptions_ok db \<longrightarrow> subscriptions_ok db' \<and>
       (\<forall>s\<in>set (subscriptions db). \<exists>s'\<in>set (subscriptions db'). su_id s' = su_id s \<and> su_user s' = su_user s \<and>
          su_plan s' = su_plan s \<and>
          (\<lambda>a b. b \<in> set (ALLOWED_TRANSITIONS a))\<^sup>*\<^sup>* (su_status s) (su_status s')))"

lemma subscription_path_trans: "subscription_path a b \<Longrightarrow> subscription_path b c \<Longrightarrow> subscription_path a c"
  unfolding subscription_path_def by (metis (no_types, lifting) rtranclp_trans)

lemma subscription_path_update:
  assumes "subscriptions_ok db'" and "subscriptions db' = update_rows q f (subscriptions db)"
    and "\<And>r. su_id (f r) = su_id r" "\<And>r. su_user (f r) = su_user r" "\<And>r. su_plan (f r) = su_plan r"
    and "\<And>r. r \<in> set (subscriptions db) \<Longrightarrow> q r \<Longrightarrow> su_status (f r) = su_status r \<or>
           su_status (f r) \<in> set (ALLOWED_TRANSITIONS (su_status r))"
  shows "subscription_path db db'"
  unfolding subscription_path_def
proof (intro impI conjI ballI)
  fix s assume s: "s \<in> set (subscriptions db)"
  show "\<exists>s'\<in>set (subscriptions db'). su_id s' = su_id s \<and> su_user s' = su_user s \<and> su_plan s' = su_plan s \<and>
          (\<lambda>a b. b \<in> set (ALLOWED_TRANSITIONS a))\<^sup>*\<^sup>* (su_status s) (su_status s')"
  proof (rule bexI [of _ "if q s then f s else s"])
    have "(\<lambda>a b. b \<in> set (ALLOWED_TRANSITIONS a))\<^sup>*\<^sup>* (su_status s) (su_status (f s))" if "q s"
      using assms(6) [OF s that] by (auto intro: r_into_rtranclp)
    then show "su_id (if q s then f s else s) = su_id s \<and> su_user (if q s then f s else s) = su_user s \<and>
        su_plan (if q s then f s else s) = su_plan s \<and>
        (\<lambda>a b. b \<in> set (ALLOWED_TRANSITIONS a))\<^sup>*\<^sup>* (su_status s) (su_status (if q s then f s else s))"
      using assms(3-5) by simp
    show "(if q s then f s else s) \<in> set (subscriptions db')" using s by (auto simp: assms(2) in_update_rows)
  qed
qed (rule assms(1))

lemma exec_subscription_path: "subscription_path db (exec_subscription D num cal req db)"
proof (cases "subscriptions_ok db")
  case ok: True
  have tr: "subscription_path db (snd (transition_subscription now sid u st reason db))" for now sid u st reason
    using transition_snd [of now sid u st reason db]
  proof (elim disjE exE conjE)
    fix s es
    assume s: "first_row (\<lambda>s. su_id s = sid) (subscriptions db) = Some s"
      and st: "st \<in> set (ALLOWED_TRANSITIONS (su_status s))"
      and eq: "snd (transition_subscription now sid u st reason db) =
        db\<lparr>subscriptions := update_rows (\<lambda>s. su_id s = sid) (set_status now st reason) (subscriptions db),
           subscription_events := es\<rparr>"
    have uniq: "r = s" if "r \<in> set (subscriptions db)" "su_id r = sid" for r
      using that first_row_Some [OF s] ok by (auto simp: subscriptions_ok_def distinct_map dest: inj_onD)
    show ?thesis
      by (rule subscription_path_update [where q = "\<lambda>s. su_id s = sid" and f = "set_status now st reason"])
        (use eq st uniq subscription_transition_ok [OF ok, of now sid u st reason] in \<open>auto simp: set_status_def\<close>)
  qed (auto simp: subscription_path_def)
  have up: "subscription_path db (snd (updateStrategyPreferences now u sel db))" for now u sel
  proof (cases rule: update_strategies_cases [of now u sel db])
    case (updated s p chosen)
    show ?thesis
      by (rule subscription_path_update [OF update_strategies_ok [OF ok] updated(4)]) simp_all
  qed (auto simp: subscription_path_def)
  have cr: "subscription_path db (snd (create_subscription D num cal now sid iid u dto db))" for now sid iid u dto
  proof (cases rule: create_cases [of D num cal now sid iid u dto db])
    case (created p iv sel db1)
    then show ?thesis using create_ok [OF ok, of D num cal now sid iid u dto] by (auto simp: subscription_path_def)
  qed (auto simp: subscription_path_def)
  show ?thesis
    by (cases "(D, num, cal, req, db)" rule: exec_subscription.cases)
      (simp_all add: tr up cr pauseSubscription_def resumeSubscription_def cancelSubscription_def)
qed (simp add: subscription_path_def)

interpretation subscription_lifecycle: monotone_service "exec_subscription D num cal" subscription_path for D num cal
proof
  show "subscription_path db db" for db by (auto simp: subscription_path_def)
  show "subscription_path a b \<Longrightarrow> subscription_path b c \<Longrightarrow> subscription_path a c" for a b c
    by (rule subscription_path_trans)
qed (rule exec_subscription_path)

section \<open>Properties\<close>


lemma example_billing_ok: "subscriptions_ok example_billing"
  by (simp add: subscriptions_ok_def within_plan_def plan_of_def selection_ok_def policy_of_def planPolicyFromRow_def
      STRATEGIES_def example_billing_def example_subscription_def example_plan_def)


text \<open>
  A subscription belongs to its user: requests of other users, whatever they are, leave every
  subscription of the user exactly as it was.
\<close>

theorem subscriptions_isolated:
  assumes "subscriptions_ok db" and "\<forall>req\<in>set reqs. fst (snd req) \<noteq> u"
  shows "filter (\<lambda>s. su_user s = u) (subscriptions (run_requests (exec_subscription D num cal) reqs db)) =
         filter (\<lambda>s. su_user s = u) (subscriptions db)"
  using subscription_isolation.run_sel_leq [OF assms(2), of db D num cal] assms(1) by (simp add: keeps_user_def)

theorem subscriptions_isolated_witness:
  "filter (\<lambda>s. su_user s = 20) (subscriptions (run_requests (exec_subscription dec20 (\<lambda>x. x) (\<lambda>i t. t + days 30))
     [(5, 21, PauseSub 40), (6, 22, CancelSub 40 None)] example_billing)) = [example_subscription]"
proof -
  have "\<forall>req\<in>set [(5, 21, PauseSub 40), (6, 22, CancelSub 40 None)] :: user_request set. fst (snd req) \<noteq> 20" by simp
  from subscriptions_isolated [OF example_billing_ok this] show ?thesis
    by (simp add: example_billing_def example_subscription_def)
qed

text \<open>
  Over any sequence of requests a subscription keeps its owner and plan, and its status follows
  the transition table: a cancelled subscription stays cancelled.
\<close>

theorem subscription_lifecycle_paths:
  assumes "subscriptions_ok db" and "s \<in> set (subscriptions db)"
  shows "\<exists>s'\<in>set (subscriptions (run_requests (exec_subscription D num cal) reqs db)).
    su_id s' = su_id s \<and> su_user s' = su_user s \<and> su_plan s' = su_plan s \<and>
    (\<lambda>a b. b \<in> set (ALLOWED_TRANSITIONS a))\<^sup>*\<^sup>* (su_status s) (su_status s') \<and>
    (su_status s = S_CANCELLED \<longrightarrow> su_status s' = S_CANCELLED)"
proof -
  obtain s' where s': "s' \<in> set (subscriptions (run_requests (exec_subscription D num cal) reqs db))"
    "su_id s' = su_id s" "su_user s' = su_user s" "su_plan s' = su_plan s"
    "(\<lambda>a b. b \<in> set (ALLOWED_TRANSITIONS a))\<^sup>*\<^sup>* (su_status s) (su_status s')"
    using subscription_lifecycle.run_leq [of db D num cal reqs] assms unfolding subscription_path_def by blast
  moreover have "su_status s' = S_CANCELLED" if "su_status s = S_CANCELLED"
    using s'(5) that by (cases rule: converse_rtranclpE) auto
  ultimately show ?thesis by blast
qed

theorem subscription_lifecycle_paths_witness:
  "\<exists>s'\<in>set (subscriptions (run_requests (exec_subscription dec20 (\<lambda>x. x) (\<lambda>i t. t + days 30))
     [(5, 20, CancelSub 40 None), (6, 20, ResumeSub 40)] example_billing)). su_id s' = 40 \<and> su_user s' = 20"
proof -
  have "example_subscription \<in> set (subscriptions example_billing)" by (simp add: example_billing_def)
  from subscription_lifecycle_paths [OF example_billing_ok this, of dec20 "\<lambda>x. x" "\<lambda>i t. t + days 30"
      "[(5, 20, CancelSub 40 None), (6, 20, ResumeSub 40)]"]
  show ?thesis by (auto simp: example_subscription_def)
qed

end
