(* ===== verification/LicenseTables.thy ===== *)
theory LicenseTables
  imports Prelude
begin

text \<open>
  The tables of the schema \<^verbatim>\<open>licensing\<close> that the device authentication, the licensing service and
  the edge polling share: licenses, devices, activations of MetaTrader terminals, device credentials,
  rotating refresh tokens, session leases, request nonces and the license event log, with the plans,
  subscriptions and users the services read. A column that the database declares nullable is an
  \<open>option\<close>; the columns of a terminal's account are grouped in \<open>account_state\<close>. The cryptographic
  primitives of \<^verbatim>\<open>node:crypto\<close> and the JWT signer are a record of parameters.
\<close>

section \<open>Rows\<close>

datatype license_status = L_PENDING | L_ACTIVE | L_SUSPENDED | L_EXPIRED | L_REVOKED | L_GRACE

fun license_status_text :: "license_status \<Rightarrow> string" where
  "license_status_text L_PENDING = ''PENDING''"
| "license_status_text L_ACTIVE = ''ACTIVE''"
| "license_status_text L_SUSPENDED = ''SUSPENDED''"
| "license_status_text L_EXPIRED = ''EXPIRED''"
| "license_status_text L_REVOKED = ''REVOKED''"
| "license_status_text L_GRACE = ''GRACE''"

record license_row =
  lc_id :: uuid
  lc_user :: uuid
  lc_plan :: uuid
  lc_subscription :: "uuid option"
  lc_key :: "string option"
  lc_status :: license_status
  lc_issued_at :: time
  lc_expires_at :: "time option"
  lc_max_devices :: int
  lc_max_mt :: int
  lc_strategies :: "string list"
  lc_modes :: "string list"
  lc_suspended_at :: "time option"
  lc_revoked_at :: "time option"
  lc_reason :: "string option"
  lc_created_at :: time
  lc_updated_at :: time

type_synonym fingerprint_components = "(string \<times> string) list"

record device_row =
  dv_id :: uuid
  dv_user :: uuid
  dv_license :: "uuid option"
  dv_name :: string
  dv_windows :: string
  dv_installation :: "string option"
  dv_fp_hash :: "string option"
  dv_components :: fingerprint_components
  dv_role :: "string option"
  dv_status :: string
  dv_security :: string
  dv_agent_version :: "string option"
  dv_hostname :: "string option"
  dv_os_name :: "string option"
  dv_architecture :: "string option"
  dv_uptime :: "rat option"
  dv_service :: string
  dv_health :: string
  dv_started_at :: "string option"
  dv_last_ip :: "string option"
  dv_account_type :: "string option"
  dv_first_seen :: time
  dv_last_seen :: "time option"
  dv_last_activation :: "time option"
  dv_last_reset :: "time option"
  dv_force_upgrade :: bool
  dv_signal_enabled :: bool
  dv_revoked_at :: "time option"
  dv_reason :: "string option"
  dv_deleted_at :: "time option"
  dv_updated_at :: time

record account_state =
  ac_balance :: "rat option"
  ac_equity :: "rat option"
  ac_profit :: "rat option"
  ac_open :: "rat option"
  ac_buy :: "rat option"
  ac_sell :: "rat option"
  ac_lots :: "rat option"
  ac_pnl :: "rat option"
  ac_updated :: "time option"
  ac_connected :: bool
  ac_version :: "string option"
  ac_xau :: bool
  ac_bid :: "rat option"
  ac_ask :: "rat option"
  ac_spread :: "rat option"
  ac_tick :: "string option"
  ac_currency :: "string option"
  ac_leverage :: "rat option"
  ac_margin :: "rat option"
  ac_free_margin :: "rat option"
  ac_margin_level :: "rat option"
  ac_type :: "string option"
  ac_pending :: "rat option"

record activation_row =
  da_id :: uuid
  da_license :: uuid
  da_device :: uuid
  da_client :: string
  da_build :: "string option"
  da_ea :: "string option"
  da_broker :: "string option"
  da_server :: "string option"
  da_login :: "string option"
  da_installation :: "string option"
  da_fp_hash :: "string option"
  da_components :: fingerprint_components
  da_ip :: "string option"
  da_activated_at :: time
  da_created_at :: time
  da_deactivated_at :: "time option"
  da_account :: account_state

record credential_row =
  cr_id :: uuid
  cr_device :: uuid
  cr_hash :: string
  cr_family :: uuid
  cr_issued_at :: time
  cr_expires_at :: "time option"
  cr_revoked_at :: "time option"
  cr_reason :: "string option"

record refresh_row =
  rt_id :: uuid
  rt_device :: uuid
  rt_hash :: string
  rt_family :: uuid
  rt_issued_at :: time
  rt_expires_at :: time
  rt_used_at :: "time option"
  rt_revoked_at :: "time option"
  rt_reason :: "string option"

datatype lease_status = LS_ACTIVE | LS_EXPIRED | LS_REVOKED

record lease_row =
  sl_id :: uuid
  sl_license :: uuid
  sl_device :: uuid
  sl_session :: uuid
  sl_status :: lease_status
  sl_heartbeat_at :: time
  sl_expires_at :: time
  sl_ip :: "string option"
  sl_revoked_at :: "time option"
  sl_reason :: "string option"

record nonce_row =
  no_nonce :: string
  no_device :: uuid
  no_created_at :: time
  no_expires_at :: time

record license_event_row =
  le_license :: uuid
  le_type :: string
  le_reason :: "string option"
  le_device :: "uuid option"
  le_created_at :: time

text \<open>The columns the licensing service reads of \<^verbatim>\<open>control.plans\<close> and \<^verbatim>\<open>billing.subscriptions\<close>.\<close>

record license_plan =
  lp_id :: uuid
  lp_code :: string
  lp_name :: string
  lp_strategies :: "string list option"
  lp_max_devices :: "int option"
  lp_max_mt :: "int option"

record license_subscription =
  ls_id :: uuid
  ls_user :: uuid
  ls_plan :: uuid

record license_db =
  licenses :: "license_row list"
  devices :: "device_row list"
  activations :: "activation_row list"
  credentials :: "credential_row list"
  refresh_tokens :: "refresh_row list"
  leases :: "lease_row list"
  nonces :: "nonce_row list"
  license_events :: "license_event_row list"
  license_plans :: "license_plan list"
  license_subs :: "license_subscription list"
  license_users :: "uuid list"

definition no_account :: account_state where
  "no_account = \<lparr>ac_balance = None, ac_equity = None, ac_profit = None, ac_open = None, ac_buy = None,
     ac_sell = None, ac_lots = None, ac_pnl = None, ac_updated = None, ac_connected = True, ac_version = None,
     ac_xau = False, ac_bid = None, ac_ask = None, ac_spread = None, ac_tick = None, ac_currency = None,
     ac_leverage = None, ac_margin = None, ac_free_margin = None, ac_margin_level = None, ac_type = None,
     ac_pending = None\<rparr>"

text \<open>A row of \<^verbatim>\<open>licensing.devices\<close> with the defaults of its columns.\<close>

definition blank_device :: "uuid \<Rightarrow> uuid \<Rightarrow> time \<Rightarrow> device_row" where
  "blank_device i u now = \<lparr>dv_id = i, dv_user = u, dv_license = None, dv_name = [], dv_windows = [],
     dv_installation = None, dv_fp_hash = None, dv_components = [], dv_role = None, dv_status = ''OFFLINE'',
     dv_security = ''UNKNOWN'', dv_agent_version = None, dv_hostname = None, dv_os_name = None,
     dv_architecture = None, dv_uptime = None, dv_service = ''unknown'', dv_health = ''unknown'',
     dv_started_at = None, dv_last_ip = None, dv_account_type = None, dv_first_seen = now, dv_last_seen = None,
     dv_last_activation = None, dv_last_reset = None, dv_force_upgrade = False, dv_signal_enabled = True,
     dv_revoked_at = None, dv_reason = None, dv_deleted_at = None, dv_updated_at = now\<rparr>"

section \<open>JavaScript values\<close>

text \<open>\<^verbatim>\<open>x || d\<close> on strings and on numbers, and \<^verbatim>\<open>x || null\<close>.\<close>

definition or_string :: "string option \<Rightarrow> string \<Rightarrow> string" where
  "or_string x d = (case x of Some s \<Rightarrow> if s = [] then d else s | None \<Rightarrow> d)"

definition or_null :: "string option \<Rightarrow> string option" where
  "or_null x = (case x of Some s \<Rightarrow> if s = [] then None else Some s | None \<Rightarrow> None)"

definition or_zero :: "rat option \<Rightarrow> rat" where
  "or_zero x = (case x of Some q \<Rightarrow> q | None \<Rightarrow> 0)"

text \<open>\<^verbatim>\<open>COALESCE(x, y)\<close>.\<close>

definition coalesce :: "'a option \<Rightarrow> 'a option \<Rightarrow> 'a option" where
  "coalesce x y = (case x of Some v \<Rightarrow> Some v | None \<Rightarrow> y)"

definition coalesce_text :: "'a option \<Rightarrow> 'a \<Rightarrow> 'a" where
  "coalesce_text x y = (case x of Some v \<Rightarrow> v | None \<Rightarrow> y)"

section \<open>Cryptography\<close>

text \<open>
  Bytes and text are both strings. \<open>k_aes_enc key iv text\<close> returns the ciphertext and the tag;
  \<open>k_aes_dec key iv tag cipher\<close> is \<open>None\<close> when the tag does not authenticate the ciphertext, where
  \<^verbatim>\<open>decipher.final()\<close> throws. \<open>k_jwt\<close> signs the claims with a lifetime at
  a time; \<open>k_uuid\<close> is the text of a UUID.
\<close>

record crypto_ops =
  k_sha_hex :: "string \<Rightarrow> string"
  k_sha_raw :: "string \<Rightarrow> string"
  k_hmac_hex :: "string \<Rightarrow> string \<Rightarrow> string"
  k_aes_enc :: "string \<Rightarrow> string \<Rightarrow> string \<Rightarrow> string \<times> string"
  k_aes_dec :: "string \<Rightarrow> string \<Rightarrow> string \<Rightarrow> string \<Rightarrow> string option"
  k_jwt :: "(string \<times> string) list \<Rightarrow> string \<Rightarrow> time \<Rightarrow> string"
  k_uuid :: "uuid \<Rightarrow> string"

end
