(* ===== verification/Codecs.thy ===== *)
theory Codecs
  imports Prelude
begin

text \<open>
  The encodings of the JavaScript runtime the device authentication uses on byte strings:
  \<^verbatim>\<open>toString('base64')\<close> and \<^verbatim>\<open>Buffer.from(s, 'base64')\<close> with its round trip,
  \<^verbatim>\<open>Buffer.from(s, 'hex')\<close>, \<^verbatim>\<open>parseInt(s, 10)\<close> and \<^verbatim>\<open>toUpperCase\<close> on ASCII text, and the
  facts about \<^verbatim>\<open>split\<close> and \<^verbatim>\<open>join\<close> that make a colon or newline separated record readable.
\<close>

section \<open>Base64\<close>

definition b64_alphabet :: string where
  "b64_alphabet = ''ABCDEFGHIJKLMNOPQRSTUVWXYZabcdefghijklmnopqrstuvwxyz0123456789+/''"

definition b64_char :: "nat \<Rightarrow> char" where
  "b64_char n = b64_alphabet ! n"

fun index_of :: "'a \<Rightarrow> 'a list \<Rightarrow> nat option" where
  "index_of x [] = None"
| "index_of x (y # ys) = (if x = y then Some 0 else map_option Suc (index_of x ys))"

text \<open>The decoder also takes the URL-safe alphabet and skips every other character.\<close>

definition b64_value :: "char \<Rightarrow> nat option" where
  "b64_value c = (if c = CHR ''-'' then Some 62 else if c = CHR ''_'' then Some 63 else index_of c b64_alphabet)"

fun b64_digits :: "nat list \<Rightarrow> string" where
  "b64_digits [] = []"
| "b64_digits [a] = [b64_char (a div 4), b64_char (a mod 4 * 16), CHR ''='', CHR ''='']"
| "b64_digits [a, b] =
     [b64_char (a div 4), b64_char (a mod 4 * 16 + b div 16), b64_char (b mod 16 * 4), CHR ''='']"
| "b64_digits (a # b # c # rest) =
     b64_char (a div 4) # b64_char (a mod 4 * 16 + b div 16) # b64_char (b mod 16 * 4 + c div 64) #
     b64_char (c mod 64) # b64_digits rest"

definition b64_encode :: "string \<Rightarrow> string" where
  "b64_encode s = b64_digits (map of_char s)"

fun b64_bytes :: "nat list \<Rightarrow> nat list" where
  "b64_bytes (p # q # r # s # rest) =
     (p * 4 + q div 16) # (q mod 16 * 16 + r div 4) # (r mod 4 * 64 + s) # b64_bytes rest"
| "b64_bytes [p, q, r] = [p * 4 + q div 16, q mod 16 * 16 + r div 4]"
| "b64_bytes [p, q] = [p * 4 + q div 16]"
| "b64_bytes _ = []"

definition b64_decode :: "string \<Rightarrow> string" where
  "b64_decode s = map char_of (b64_bytes (List.map_filter b64_value s))"

lemma b64_value_char [simp]: "n < 64 \<Longrightarrow> b64_value (b64_char n) = Some n"
proof -
  have "\<forall>n\<in>set [0..<64]. b64_value (b64_char n) = Some n" by code_simp
  then show "n < 64 \<Longrightarrow> b64_value (b64_char n) = Some n" by simp
qed

lemma b64_char_no_colon: "n < 64 \<Longrightarrow> b64_char n \<noteq> CHR '':''"
proof -
  have "\<forall>n\<in>set [0..<64]. b64_char n \<noteq> CHR '':''" by code_simp
  then show "n < 64 \<Longrightarrow> b64_char n \<noteq> CHR '':''" by simp
qed

lemma b64_value_pad [simp]: "b64_value CHR ''='' = None"
  by code_simp

lemma map_filter_Cons [simp]:
  "List.map_filter f (x # xs) = (case f x of None \<Rightarrow> List.map_filter f xs | Some y \<Rightarrow> y # List.map_filter f xs)"
  by (auto simp: List.map_filter_def split: option.splits)

lemma map_filter_Nil [simp]: "List.map_filter f [] = []"
  by (simp add: List.map_filter_def)

lemma b64_fit:
  fixes a b c :: nat
  assumes "a < 256" "b < 256" "c < 256"
  shows "b div 16 mod 16 * 16 + b mod 16 = b" "c div 64 mod 4 * 64 + c mod 64 = c"
    "b div 16 div 16 = 0" "c div 64 div 4 = 0"
    "a div 4 < 64" "a mod 4 * 16 + b div 16 < 64" "b mod 16 * 4 + c div 64 < 64" "c mod 64 < 64"
proof -
  have b: "b div 16 < 16" and c: "c div 64 < 4" using assms by (simp_all add: less_mult_imp_div_less)
  have m: "a mod 4 < 4" "b mod 16 < 16" by simp_all
  show "b div 16 mod 16 * 16 + b mod 16 = b" "c div 64 mod 4 * 64 + c mod 64 = c" using b c by simp_all
  show "b div 16 div 16 = 0" "c div 64 div 4 = 0" using b c by simp_all
  show "a div 4 < 64" using assms by (simp add: less_mult_imp_div_less)
  show "a mod 4 * 16 + b div 16 < 64" using b m by linarith
  show "b mod 16 * 4 + c div 64 < 64" using c m by linarith
qed simp

lemma b64_digits_bytes:
  "\<forall>n\<in>set ns. n < 256 \<Longrightarrow> b64_bytes (List.map_filter b64_value (b64_digits ns)) = ns"
proof (induction ns rule: b64_digits.induct)
  case (2 a)
  then show ?case using b64_fit [of a 0 0] by simp
next
  case (3 a b)
  then show ?case using b64_fit [of a b 0] by simp
next
  case (4 a b c rest)
  then have "a < 256" "b < 256" "c < 256" by simp_all
  note fit = b64_fit [OF this]
  from 4 show ?case by (simp add: fit)
qed simp

lemma b64_roundtrip [simp]: "b64_decode (b64_encode s) = s"
proof -
  have "\<forall>n\<in>set (map of_char s). (n::nat) < 256" by simp
  from b64_digits_bytes [OF this] show ?thesis by (simp add: b64_decode_def b64_encode_def comp_def)
qed

lemma b64_digits_no_colon: "\<forall>n\<in>set ns. n < 256 \<Longrightarrow> CHR '':'' \<notin> set (b64_digits ns)"
proof (induction ns rule: b64_digits.induct)
  case (2 a)
  then have "a div 4 < 64" "a mod 4 * 16 < 64" using b64_fit [of a 0 0] by simp_all
  from this [THEN b64_char_no_colon] show ?case by auto
next
  case (3 a b)
  then have "a div 4 < 64" "a mod 4 * 16 + b div 16 < 64" "b mod 16 * 4 < 64"
    using b64_fit [of a b 0] by simp_all
  from this [THEN b64_char_no_colon] show ?case by auto
next
  case (4 a b c rest)
  then have "a div 4 < 64" "a mod 4 * 16 + b div 16 < 64" "b mod 16 * 4 + c div 64 < 64" "c mod 64 < 64"
    using b64_fit [of a b c] by simp_all
  from this [THEN b64_char_no_colon] show ?case using 4 by auto
qed simp

lemma b64_no_colon [simp]: "CHR '':'' \<notin> set (b64_encode s)"
  unfolding b64_encode_def by (rule b64_digits_no_colon) simp

section \<open>Hexadecimal\<close>

definition hex_value :: "char \<Rightarrow> nat option" where
  "hex_value c = (let n = of_char c in
     if 48 \<le> n \<and> n \<le> 57 then Some (n - 48)
     else if 97 \<le> n \<and> n \<le> 102 then Some (n - 87)
     else if 65 \<le> n \<and> n \<le> 70 then Some (n - 55) else None)"

text \<open>\<^verbatim>\<open>Buffer.from(s, 'hex')\<close> stops at the first pair that is not hexadecimal; it does not throw.\<close>

fun from_hex :: "string \<Rightarrow> string" where
  "from_hex (a # b # rest) =
     (case (hex_value a, hex_value b) of
        (Some x, Some y) \<Rightarrow> char_of (16 * x + y) # from_hex rest
      | _ \<Rightarrow> [])"
| "from_hex _ = []"

section \<open>Numbers and case\<close>

definition digit_value :: "char \<Rightarrow> nat option" where
  "digit_value c = (let n = of_char c in if 48 \<le> n \<and> n \<le> 57 then Some (n - 48) else None)"

fun parse_digits :: "int option \<Rightarrow> string \<Rightarrow> int option" where
  "parse_digits acc [] = acc"
| "parse_digits acc (c # cs) =
     (case digit_value c of
        None \<Rightarrow> acc
      | Some d \<Rightarrow> parse_digits (Some ((case acc of None \<Rightarrow> 0 | Some n \<Rightarrow> n) * 10 + int d)) cs)"

text \<open>\<^verbatim>\<open>parseInt(s, 10)\<close>; \<open>None\<close> is \<^verbatim>\<open>NaN\<close>.\<close>

definition js_parseInt :: "string \<Rightarrow> int option" where
  "js_parseInt s =
     (case dropWhile js_space s of
        c # cs \<Rightarrow>
          if c = CHR ''-'' then map_option uminus (parse_digits None cs)
          else if c = CHR ''+'' then parse_digits None cs
          else parse_digits None (c # cs)
      | [] \<Rightarrow> None)"

definition upper_char :: "char \<Rightarrow> char" where
  "upper_char c = (let n = of_char c :: nat in if 97 \<le> n \<and> n \<le> 122 then char_of (n - 32) else c)"

definition js_upper :: "string \<Rightarrow> string" where
  "js_upper s = map upper_char s"

section \<open>Separated records\<close>

text \<open>\<^verbatim>\<open>parts.join(sep)\<close>.\<close>

fun js_join :: "string \<Rightarrow> string list \<Rightarrow> string" where
  "js_join sep [] = []"
| "js_join sep [x] = x"
| "js_join sep (x # y # ys) = x @ sep @ js_join sep (y # ys)"

lemma js_split_single: "c \<notin> set a \<Longrightarrow> js_split c a = [a]"
  by (induction a) auto

lemma js_split_ne [simp]: "js_split c s \<noteq> []"
  by (induction s) (auto split: list.splits)

lemma js_split_sep: "c \<notin> set a \<Longrightarrow> js_split c (a @ c # rest) = a # js_split c rest"
proof (induction a)
  case Nil
  obtain p ps where "js_split c rest = p # ps" by (cases "js_split c rest") auto
  then show ?case by simp
qed auto

lemma js_split_join:
  "parts \<noteq> [] \<Longrightarrow> \<forall>p\<in>set parts. c \<notin> set p \<Longrightarrow> js_split c (js_join [c] parts) = parts"
proof (induction "[c]" parts rule: js_join.induct)
  case (2 x)
  then show ?case by (simp add: js_split_single)
next
  case (3 x y ys)
  then show ?case by (simp add: js_split_sep)
qed simp

end
