(* ===== verification/Licensing.thy ===== *)
theory Licensing
  imports LicenseTables Codecs
begin

text \<open>
  The licensing service, \<^verbatim>\<open>control/src/modules/licensing/licensing.service.ts\<close>: registration of devices
  and terminals by users, the life of a license (issue, suspend, revoke, activate, deactivate, renew,
  change of plan, reset, forced logout), the license that a paid subscription is entitled to, the
  device switches of the administrator, and the public validation of a license key. Statements the
  code issues without a transaction take effect one by one, so an exception leaves the earlier ones
  in place. The fresh identifiers are arguments.
\<close>

section \<open>Statements with parameters\<close>

text \<open>
  PostgreSQL refuses to prepare a statement that skips one of its parameters (\<^verbatim>\<open>42P18\<close>), and to
  bind another number of values than the statement has parameters (\<^verbatim>\<open>08P01\<close>).
\<close>

definition prepare_statement :: "nat list \<Rightarrow> nat \<Rightarrow> http_error option" where
  "prepare_statement used supplied =
     (let n = fold max used 0 in
      if \<exists>i\<in>set [1..<n + 1]. i \<notin> set used then Some (SqlError ''42P18'')
      else if supplied \<noteq> n then Some (SqlError ''08P01'') else None)"

section \<open>Requests\<close>

record device_registration =
  dr_name :: "string option"
  dr_os :: "string option"
  dr_agent_version :: "string option"
  dr_hostname :: "string option"
  dr_installation :: "string option"
  dr_fp_hash :: "string option"
  dr_components :: "fingerprint_components option"
  dr_license_key :: "string option"

record terminal_fingerprint =
  tf_machine_guid :: "string option"
  tf_system_uuid :: "string option"
  tf_motherboard :: "string option"
  tf_disk :: "string option"
  tf_installation_id :: "string option"

record terminal_registration =
  tr_device :: "uuid option"
  tr_license_key :: "string option"
  tr_client :: string
  tr_build :: "string option"
  tr_ea :: "string option"
  tr_broker :: "string option"
  tr_server :: "string option"
  tr_login :: "string option"
  tr_installation :: "string option"
  tr_fp_hash :: "string option"
  tr_fingerprint :: "terminal_fingerprint option"

record account_sync =
  as_client :: string
  as_login :: "string option"
  as_balance :: "rat option"
  as_equity :: "rat option"
  as_profit :: "rat option"
  as_currency :: "string option"
  as_open :: "rat option"
  as_buy :: "rat option"
  as_sell :: "rat option"
  as_lots :: "rat option"
  as_pnl :: "rat option"

record license_request =
  lr_user :: "uuid option"
  lr_plan :: "uuid option"
  lr_max_devices :: "int option"
  lr_max_mt :: "int option"
  lr_strategies :: "string list option"
  lr_modes :: "string list option"
  lr_valid_days :: "rat option"

record plan_change =
  pc_plan :: "uuid option"
  pc_max_devices :: "rat option"
  pc_max_mt :: "rat option"
  pc_reason :: "string option"

section \<open>Listings\<close>

definition device_count :: "license_db \<Rightarrow> uuid \<Rightarrow> nat" where
  "device_count db lid = count_rows (\<lambda>d. dv_license d = Some lid \<and> dv_deleted_at d = None) (devices db)"

definition plan_row_of :: "license_db \<Rightarrow> uuid \<Rightarrow> license_plan option" where
  "plan_row_of db pid = first_row (\<lambda>p. lp_id p = pid) (license_plans db)"

definition license_row_of :: "license_db \<Rightarrow> uuid \<Rightarrow> license_row option" where
  "license_row_of db lid = first_row (\<lambda>l. lc_id l = lid) (licenses db)"

definition listLicenses :: "uuid \<Rightarrow> license_db \<Rightarrow> (license_row \<times> string option \<times> nat) list" where
  "listLicenses u db = map (\<lambda>l. (l, map_option lp_name (plan_row_of db (lc_plan l)), device_count db (lc_id l)))
     (sort_key (\<lambda>l. - lc_created_at l) (filter (\<lambda>l. lc_user l = u) (licenses db)))"

definition listLicensesAll :: "license_db \<Rightarrow> (license_row \<times> string option \<times> nat) list" where
  "listLicensesAll db = map (\<lambda>l. (l, map_option lp_name (plan_row_of db (lc_plan l)), device_count db (lc_id l)))
     (take 200 (sort_key (\<lambda>l. - lc_created_at l) (licenses db)))"

definition listDevices :: "uuid \<Rightarrow> license_db \<Rightarrow> (device_row \<times> license_row option \<times> activation_row list) list" where
  "listDevices u db =
     map (\<lambda>d. (d, Option.bind (dv_license d) (license_row_of db),
            filter (\<lambda>a. da_device a = dv_id d \<and> da_deactivated_at a = None) (activations db)))
       (sort_key (\<lambda>d. - dv_first_seen d) (filter (\<lambda>d. dv_user d = u \<and> dv_deleted_at d = None) (devices db)))"

definition listMtAccounts :: "uuid \<Rightarrow> license_db \<Rightarrow> (activation_row \<times> device_row \<times> license_row option) list" where
  "listMtAccounts u db = sort_key (\<lambda>(a, d, l). - da_activated_at a)
     [(a, d, license_row_of db (da_license a)). a \<leftarrow> activations db, d \<leftarrow> devices db,
        da_device a = dv_id d, dv_user d = u, dv_deleted_at d = None]"

section \<open>Registration\<close>

definition reregister :: "time \<Rightarrow> device_registration \<Rightarrow> device_row \<Rightarrow> device_row" where
  "reregister now b d = d
     \<lparr>dv_name := or_string (dr_name b) ''Windows Client'', dv_windows := or_string (dr_os b) ''Windows'',
      dv_agent_version := Some (or_string (dr_agent_version b) ''1.0.0''),
      dv_hostname := Some (or_string (dr_hostname b) []), dv_installation := Some (or_string (dr_installation b) []),
      dv_components := coalesce_text (dr_components b) [], dv_status := ''ONLINE'', dv_last_seen := Some now,
      dv_updated_at := now\<rparr>"

definition registered_device :: "time \<Rightarrow> uuid \<Rightarrow> uuid \<Rightarrow> uuid option \<Rightarrow> device_registration \<Rightarrow> device_row" where
  "registered_device now i u lic b = (blank_device i u now)
     \<lparr>dv_license := lic, dv_name := or_string (dr_name b) ''Windows Client'',
      dv_windows := or_string (dr_os b) ''Windows'',
      dv_agent_version := Some (or_string (dr_agent_version b) ''1.0.0''),
      dv_hostname := Some (or_string (dr_hostname b) []), dv_installation := Some (or_string (dr_installation b) []),
      dv_fp_hash := Some (or_string (dr_fp_hash b) []), dv_components := coalesce_text (dr_components b) [],
      dv_status := ''ONLINE'', dv_security := ''SECURE'', dv_last_seen := Some now\<rparr>"

text \<open>The license to bind: \<open>Inr None\<close> when the body names none.\<close>

definition registration_license :: "uuid \<Rightarrow> device_registration \<Rightarrow> license_db \<Rightarrow> (uuid option) result" where
  "registration_license u b db =
     (case or_null (dr_license_key b) of
        None \<Rightarrow> Inr None
      | Some key \<Rightarrow>
          (case first_row (\<lambda>l. lc_key l = Some key \<and> lc_user l = u \<and> lc_status l = L_ACTIVE \<and> lc_revoked_at l = None)
                  (licenses db) of
             None \<Rightarrow> Inl (BadRequest ''Invalid or inactive license key'')
           | Some l \<Rightarrow>
               if int (count_rows (\<lambda>d. dv_license d = Some (lc_id l) \<and> dv_deleted_at d = None \<and> dv_revoked_at d = None)
                     (devices db)) \<ge> lc_max_devices l
               then Inl (BadRequest ''Maximum device limit reached for this license'')
               else Inr (Some (lc_id l))))"

definition registerDevice :: "time \<Rightarrow> uuid \<Rightarrow> uuid \<Rightarrow> device_registration \<Rightarrow> (license_db, device_row) handler" where
  "registerDevice now i u b db =
     (case (case or_null (dr_fp_hash b) of
              None \<Rightarrow> None
            | Some h \<Rightarrow> first_row (\<lambda>d. dv_user d = u \<and> dv_fp_hash d = Some h \<and> dv_deleted_at d = None) (devices db)) of
        Some d \<Rightarrow>
          (Inr (reregister now b d),
           db\<lparr>devices := update_rows (\<lambda>r. dv_id r = dv_id d \<and> dv_user r = u) (reregister now b) (devices db)\<rparr>)
      | None \<Rightarrow>
          (case registration_license u b db of
             Inl e \<Rightarrow> (Inl e, db)
           | Inr lic \<Rightarrow>
               if exists_row (\<lambda>d. dv_id d = i) (devices db) then (Inl (SqlError ''23505''), db)
               else (Inr (registered_device now i u lic b),
                     db\<lparr>devices := devices db @ [registered_device now i u lic b]\<rparr>)))"

definition terminal_fingerprint_hash :: "(string \<Rightarrow> string) \<Rightarrow> terminal_registration \<Rightarrow> string" where
  "terminal_fingerprint_hash sha b =
     (case or_null (tr_fp_hash b) of
        Some h \<Rightarrow> h
      | None \<Rightarrow>
          (case tr_fingerprint b of
             None \<Rightarrow> []
           | Some fp \<Rightarrow> sha (js_join ''|'' (map (\<lambda>x. coalesce_text x [])
               [tf_machine_guid fp, tf_system_uuid fp, tf_motherboard fp, tf_disk fp, tf_installation_id fp]))))"

text \<open>\<^verbatim>\<open>ORDER BY last_seen_at DESC LIMIT 1\<close>: a descending order puts the nulls first.\<close>

definition latest_seen :: "(device_row \<Rightarrow> bool) \<Rightarrow> device_row list \<Rightarrow> device_row option" where
  "latest_seen p ds =
     (case first_row (\<lambda>d. p d \<and> dv_last_seen d = None) ds of
        Some d \<Rightarrow> Some d
      | None \<Rightarrow> latest (\<lambda>d. coalesce_text (dv_last_seen d) 0) p ds)"

definition terminal_device :: "uuid \<Rightarrow> terminal_registration \<Rightarrow> license_db \<Rightarrow> uuid result" where
  "terminal_device u b db =
     (case tr_device b of
        Some d \<Rightarrow>
          if exists_row (\<lambda>r. dv_id r = d \<and> dv_user r = u \<and> dv_deleted_at r = None) (devices db) then Inr d
          else Inl (BadRequest ''Device not found for this user'')
      | None \<Rightarrow>
          (case or_null (tr_license_key b) of
             None \<Rightarrow> Inl (BadRequest ''Device not found. Register the device first.'')
           | Some key \<Rightarrow>
               (case first_row (\<lambda>l. lc_key l = Some key \<and> lc_user l = u \<and> lc_status l = L_ACTIVE) (licenses db) of
                  None \<Rightarrow> Inl (BadRequest ''Invalid license key'')
                | Some l \<Rightarrow>
                    (case latest_seen (\<lambda>r. dv_license r = Some (lc_id l) \<and> dv_user r = u \<and> dv_deleted_at r = None)
                            (devices db) of
                       None \<Rightarrow> Inl (BadRequest ''Device not found. Register the device first.'')
                     | Some r \<Rightarrow> Inr (dv_id r)))))"

text \<open>
  The activation row a registration inserts. The unique index on \<open>(license_id, mt_account_login)\<close>
  covers the deactivated rows too.
\<close>

definition login_taken :: "uuid \<Rightarrow> string option \<Rightarrow> activation_row \<Rightarrow> bool" where
  "login_taken lid login a \<longleftrightarrow> da_license a = lid \<and> da_login a = login \<and> login \<noteq> None \<and> login \<noteq> Some []"

definition terminal_activation ::
  "time \<Rightarrow> uuid \<Rightarrow> uuid \<Rightarrow> uuid \<Rightarrow> string \<Rightarrow> terminal_registration \<Rightarrow> activation_row" where
  "terminal_activation now i lid d hash b = \<lparr>da_id = i, da_license = lid, da_device = d, da_client = tr_client b,
     da_build = tr_build b, da_ea = tr_ea b, da_broker = tr_broker b, da_server = tr_server b, da_login = tr_login b,
     da_installation = Some (or_string (tr_installation b) []), da_fp_hash = Some hash, da_components = [], da_ip = None,
     da_activated_at = now, da_created_at = now, da_deactivated_at = None, da_account = no_account\<rparr>"

definition deactivate_terminals :: "time \<Rightarrow> uuid \<Rightarrow> license_db \<Rightarrow> license_db" where
  "deactivate_terminals now d db = db\<lparr>activations :=
     update_rows (\<lambda>a. da_device a = d \<and> da_deactivated_at a = None) (\<lambda>a. a\<lparr>da_deactivated_at := Some now\<rparr>)
       (activations db)\<rparr>"

definition registerTerminal ::
  "(string \<Rightarrow> string) \<Rightarrow> time \<Rightarrow> uuid \<Rightarrow> uuid \<Rightarrow> terminal_registration \<Rightarrow> (license_db, activation_row) handler" where
  "registerTerminal sha now i u b db =
     (case terminal_device u b db of
        Inl e \<Rightarrow> (Inl e, db)
      | Inr d \<Rightarrow>
          (let hash = terminal_fingerprint_hash sha b;
               db1 = deactivate_terminals now d db in
           case Option.bind (first_row (\<lambda>r. dv_id r = d) (devices db1)) (\<lambda>r. Option.bind (dv_license r) (license_row_of db1)) of
             None \<Rightarrow> (Inl (SqlError ''23502''), db1)
           | Some l \<Rightarrow>
               if int (count_rows (\<lambda>a. da_device a = d \<and> da_deactivated_at a = None) (activations db1)) \<ge> lc_max_mt l
               then (Inl (BadRequest ''Maximum MT account limit reached for this license''), db1)
               else if exists_row (login_taken (lc_id l) (tr_login b)) (activations db1)
               then (Inl (SqlError ''23505''), db1)
               else
                 (let row = terminal_activation now i (lc_id l) d hash b in
                  (Inr row,
                   db1\<lparr>activations := activations db1 @ [row],
                       devices := update_rows (\<lambda>r. dv_id r = d)
                         (\<lambda>r. r\<lparr>dv_last_seen := Some now, dv_status := ''ONLINE'', dv_last_activation := Some now,
                                dv_fp_hash := Some hash\<rparr>) (devices db1)\<rparr>))))"

definition addMtAccount ::
  "(string \<Rightarrow> string) \<Rightarrow> time \<Rightarrow> uuid \<Rightarrow> uuid \<Rightarrow> terminal_registration \<Rightarrow> (license_db, activation_row) handler" where
  "addMtAccount sha now i u b = registerTerminal sha now i u b"

section \<open>Devices\<close>

definition license_heartbeat ::
  "time \<Rightarrow> uuid \<Rightarrow> string option \<Rightarrow> string option \<Rightarrow> uuid option \<Rightarrow> (license_db, uuid \<times> string \<times> time) handler" where
  "license_heartbeat now d conn hash owner db =
     (let p = (\<lambda>r. dv_id r = d \<and> dv_deleted_at r = None \<and> (owner = None \<or> owner = Some (dv_user r))) in
      if exists_row p (devices db) then
        (Inr (d, or_string conn ''ONLINE'', now),
         db\<lparr>devices := update_rows p
           (\<lambda>r. r\<lparr>dv_last_seen := Some now, dv_status := or_string conn ''ONLINE'', dv_updated_at := now,
                  dv_fp_hash := coalesce (or_null hash) (dv_fp_hash r)\<rparr>) (devices db)\<rparr>)
      else (Inl (NotFound ''Device not found''), db))"

text \<open>
  The statement of \<^verbatim>\<open>revokeDevice\<close> refers to \<^verbatim>\<open>$1\<close> and \<^verbatim>\<open>$2\<close> and is given three values; it
  compares the owner with the reason, and returns no row.
\<close>

definition license_revokeDevice ::
  "(string \<Rightarrow> uuid option) \<Rightarrow> time \<Rightarrow> uuid \<Rightarrow> string \<Rightarrow> uuid option \<Rightarrow> (license_db, device_row) handler" where
  "license_revokeDevice as_uuid now d reason owner db =
     (case owner of
        None \<Rightarrow> (Inl (BadRequest ''owner context required for device revocation''), db)
      | Some _ \<Rightarrow>
          (case prepare_statement [2, 1, 2] 3 of
             Some e \<Rightarrow> (Inl e, db)
           | None \<Rightarrow>
               (Inl (NotFound ''Device not found''),
                db\<lparr>devices := update_rows (\<lambda>r. dv_id r = d \<and> dv_deleted_at r = None \<and> as_uuid reason = Some (dv_user r))
                  (\<lambda>r. r\<lparr>dv_revoked_at := Some now, dv_reason := Some reason, dv_status := ''REVOKED'', dv_updated_at := now\<rparr>)
                  (devices db)\<rparr>)))"

definition sync_account :: "time \<Rightarrow> account_sync \<Rightarrow> account_state \<Rightarrow> account_state" where
  "sync_account now b a = a
     \<lparr>ac_balance := Some (or_zero (as_balance b)), ac_equity := Some (or_zero (as_equity b)),
      ac_profit := Some (or_zero (as_profit b)), ac_currency := Some (or_string (as_currency b) ''USD''),
      ac_open := Some (or_zero (as_open b)), ac_buy := Some (or_zero (as_buy b)), ac_sell := Some (or_zero (as_sell b)),
      ac_lots := Some (or_zero (as_lots b)), ac_pnl := Some (or_zero (as_pnl b)), ac_updated := Some now\<rparr>"

text \<open>The statement has thirteen parameters and mentions all but \<^verbatim>\<open>$11\<close>.\<close>

definition syncTerminalAccount :: "time \<Rightarrow> uuid \<Rightarrow> account_sync \<Rightarrow> (license_db, activation_row option) handler" where
  "syncTerminalAccount now u b db =
     (case prepare_statement [1, 2, 3, 4, 5, 6, 7, 8, 9, 13, 10, 12] 13 of
        Some e \<Rightarrow> (Inl e, db)
      | None \<Rightarrow>
          (let login = (case as_login b of Some s \<Rightarrow> or_null (Some (js_trim s)) | None \<Rightarrow> None);
               p = (\<lambda>a. exists_row (\<lambda>d. dv_id d = da_device a \<and> dv_user d = u) (devices db) \<and>
                        da_client a = as_client b \<and> da_deactivated_at a = None);
               acts = update_rows p (\<lambda>a. a\<lparr>da_account := sync_account now b (da_account a),
                        da_login := coalesce login (da_login a)\<rparr>) (activations db) in
           if exists_row p (activations db) then (Inr (first_row p acts), db\<lparr>activations := acts\<rparr>)
           else (Inr None, db)))"

definition touch_live_device :: "uuid \<Rightarrow> (device_row \<Rightarrow> device_row) \<Rightarrow> (license_db, device_row) handler" where
  "touch_live_device d f db =
     (case first_row (\<lambda>r. dv_id r = d \<and> dv_deleted_at r = None) (devices db) of
        None \<Rightarrow> (Inl (NotFound ''Device not found''), db)
      | Some r \<Rightarrow> (Inr (f r),
          db\<lparr>devices := update_rows (\<lambda>r. dv_id r = d \<and> dv_deleted_at r = None) f (devices db)\<rparr>))"

definition resetDevice :: "time \<Rightarrow> uuid \<Rightarrow> (license_db, device_row) handler" where
  "resetDevice now d = touch_live_device d (\<lambda>r. r
     \<lparr>dv_fp_hash := None, dv_components := [], dv_installation := None, dv_security := ''SECURE'',
      dv_status := ''ONLINE'', dv_last_reset := Some now, dv_updated_at := now\<rparr>)"

definition forceUpgradeDevice :: "time \<Rightarrow> uuid \<Rightarrow> (license_db, device_row) handler" where
  "forceUpgradeDevice now d = touch_live_device d (\<lambda>r. r\<lparr>dv_force_upgrade := True, dv_updated_at := now\<rparr>)"

definition disableDeviceSignal :: "time \<Rightarrow> uuid \<Rightarrow> (license_db, device_row) handler" where
  "disableDeviceSignal now d = touch_live_device d (\<lambda>r. r\<lparr>dv_signal_enabled := False, dv_updated_at := now\<rparr>)"

section \<open>The life of a license\<close>

text \<open>The audit insert is best effort: an event of a license that does not exist is dropped.\<close>

definition logLicenseEvent :: "time \<Rightarrow> uuid \<Rightarrow> string \<Rightarrow> string option \<Rightarrow> license_db \<Rightarrow> license_db" where
  "logLicenseEvent now lid typ reason db =
     (if exists_row (\<lambda>l. lc_id l = lid) (licenses db) then
        db\<lparr>license_events := license_events db @
          [\<lparr>le_license = lid, le_type = typ, le_reason = or_null reason, le_device = None, le_created_at = now\<rparr>]\<rparr>
      else db)"

definition update_license :: "uuid \<Rightarrow> (license_row \<Rightarrow> license_row) \<Rightarrow> license_db \<Rightarrow> license_db" where
  "update_license lid f db = db\<lparr>licenses := update_rows (\<lambda>l. lc_id l = lid) f (licenses db)\<rparr>"

text \<open>An interval of a possibly fractional number of days, in milliseconds.\<close>

definition day_span :: "rat \<Rightarrow> time" where
  "day_span d = round (86400000 * d)"

definition valid_days :: "rat option \<Rightarrow> rat" where
  "valid_days d = (case d of Some n \<Rightarrow> if n > 0 then n else 365 | None \<Rightarrow> 365)"

definition insert_license :: "license_row \<Rightarrow> (license_db, license_row) handler" where
  "insert_license l db =
     (if exists_row (\<lambda>r. lc_id r = lc_id l \<or> lc_key r = lc_key l) (licenses db) then (Inl (SqlError ''23505''), db)
      else (Inr l, db\<lparr>licenses := licenses db @ [l]\<rparr>))"

definition createLicense :: "time \<Rightarrow> uuid \<Rightarrow> string \<Rightarrow> license_request \<Rightarrow> (license_db, license_row) handler" where
  "createLicense now i key b db =
     (case (lr_user b, lr_plan b) of
        (Some u, Some p) \<Rightarrow>
          if u \<notin> set (license_users db) then (Inl (BadRequest ''user_id does not exist''), db)
          else if plan_row_of db p = None then (Inl (BadRequest ''plan_id does not exist''), db)
          else insert_license
            \<lparr>lc_id = i, lc_user = u, lc_plan = p, lc_subscription = None, lc_key = Some (''PAT-'' @ key),
             lc_status = L_ACTIVE, lc_issued_at = now, lc_expires_at = Some (now + day_span (valid_days (lr_valid_days b))),
             lc_max_devices = coalesce_text (lr_max_devices b) 1, lc_max_mt = coalesce_text (lr_max_mt b) 1,
             lc_strategies = coalesce_text (lr_strategies b) [], lc_modes = coalesce_text (lr_modes b) [],
             lc_suspended_at = None, lc_revoked_at = None, lc_reason = None, lc_created_at = now, lc_updated_at = now\<rparr> db
      | _ \<Rightarrow> (Inl (BadRequest ''user_id and plan_id are required''), db))"

text \<open>\<^verbatim>\<open>ORDER BY (status = 'ACTIVE') DESC, issued_at DESC LIMIT 1\<close>.\<close>

definition best_license :: "uuid \<Rightarrow> license_db \<Rightarrow> license_row option" where
  "best_license u db =
     (case latest lc_issued_at (\<lambda>l. lc_user l = u \<and> lc_status l = L_ACTIVE) (licenses db) of
        Some l \<Rightarrow> Some l
      | None \<Rightarrow> latest lc_issued_at (\<lambda>l. lc_user l = u) (licenses db))"

text \<open>\<^verbatim>\<open>GREATEST(x, y)\<close> ignores nulls.\<close>

definition greatest :: "time option \<Rightarrow> time \<Rightarrow> time" where
  "greatest x y = (case x of Some t \<Rightarrow> max t y | None \<Rightarrow> y)"

definition unrevoke_devices :: "time \<Rightarrow> uuid \<Rightarrow> license_db \<Rightarrow> license_db" where
  "unrevoke_devices now lid db = db\<lparr>devices := update_rows (\<lambda>d. dv_license d = Some lid \<and> dv_revoked_at d \<noteq> None)
     (\<lambda>d. d\<lparr>dv_revoked_at := None, dv_reason := None, dv_status := ''OFFLINE'', dv_updated_at := now\<rparr>) (devices db)\<rparr>"

datatype license_action = PlanSynced | AlreadyActive | Reactivated | Issued

definition sync_plan :: "time \<Rightarrow> license_plan \<Rightarrow> uuid \<Rightarrow> license_row \<Rightarrow> license_row" where
  "sync_plan now p sub l = l\<lparr>lc_plan := lp_id p, lc_strategies := coalesce_text (lp_strategies p) [],
     lc_subscription := Some sub, lc_updated_at := now\<rparr>"

definition reactivate :: "time \<Rightarrow> license_plan \<Rightarrow> uuid \<Rightarrow> license_row \<Rightarrow> license_row" where
  "reactivate now p sub l = l\<lparr>lc_status := L_ACTIVE, lc_plan := lp_id p,
     lc_strategies := coalesce_text (lp_strategies p) [], lc_subscription := Some sub, lc_revoked_at := None,
     lc_reason := None, lc_expires_at := Some (greatest (lc_expires_at l) (now + days 30)), lc_updated_at := now\<rparr>"

definition issued_license :: "time \<Rightarrow> uuid \<Rightarrow> string \<Rightarrow> uuid \<Rightarrow> license_plan \<Rightarrow> uuid \<Rightarrow> license_row" where
  "issued_license now i key u p sub = \<lparr>lc_id = i, lc_user = u, lc_plan = lp_id p, lc_subscription = Some sub,
     lc_key = Some (''PAT-'' @ key), lc_status = L_ACTIVE, lc_issued_at = now, lc_expires_at = Some (now + days 30),
     lc_max_devices = coalesce_text (lp_max_devices p) 1, lc_max_mt = coalesce_text (lp_max_mt p) 1,
     lc_strategies = coalesce_text (lp_strategies p) [], lc_modes = [], lc_suspended_at = None, lc_revoked_at = None,
     lc_reason = None, lc_created_at = now, lc_updated_at = now\<rparr>"

definition ensureActiveLicenseForSubscription ::
  "time \<Rightarrow> uuid \<Rightarrow> string \<Rightarrow> uuid \<Rightarrow> (license_db, (license_row \<times> license_action) option) handler" where
  "ensureActiveLicenseForSubscription now i key sub db =
     (case first_row (\<lambda>s. ls_id s = sub \<and> plan_row_of db (ls_plan s) \<noteq> None) (license_subs db) of
        None \<Rightarrow> (Inr None, db)
      | Some s \<Rightarrow>
          (case plan_row_of db (ls_plan s) of
             None \<Rightarrow> (Inr None, db)
           | Some p \<Rightarrow>
               (case best_license (ls_user s) db of
                  Some l \<Rightarrow>
                    if lc_status l = L_ACTIVE then
                      (if lc_plan l \<noteq> ls_plan s then
                         (Inr (Some (sync_plan now p sub l, PlanSynced)),
                          logLicenseEvent now (lc_id l) ''PLAN_CHANGED''
                            (Some (''auto-synced to active subscription plan '' @ lp_code p))
                            (update_license (lc_id l) (sync_plan now p sub) db))
                       else
                         (Inr (Some (l, AlreadyActive)),
                          if lc_subscription l \<noteq> Some sub
                          then update_license (lc_id l) (\<lambda>r. r\<lparr>lc_subscription := Some sub, lc_updated_at := now\<rparr>) db
                          else db))
                    else
                      (Inr (Some (reactivate now p sub l, Reactivated)),
                       unrevoke_devices now (lc_id l)
                         (logLicenseEvent now (lc_id l) ''ACTIVATED''
                           (Some (''auto-reactivated: subscription '' @ lp_code p @ '' payment settled''))
                           (update_license (lc_id l) (reactivate now p sub) db)))
                | None \<Rightarrow>
                    (case insert_license (issued_license now i key (ls_user s) p sub) db of
                       (Inl e, db') \<Rightarrow> (Inl e, db')
                     | (Inr l, db') \<Rightarrow>
                         (Inr (Some (l, Issued)),
                          logLicenseEvent now i ''ISSUED''
                            (Some (''auto-issued on '' @ lp_code p @ '' subscription activation'')) db')))))"

definition suspendLicense :: "time \<Rightarrow> uuid \<Rightarrow> string option \<Rightarrow> (license_db, license_row) handler" where
  "suspendLicense now lid reason db =
     (let f = (\<lambda>l. l\<lparr>lc_status := L_SUSPENDED, lc_suspended_at := Some now, lc_updated_at := now\<rparr>) in
      case license_row_of db lid of
        None \<Rightarrow> (Inl (NotFound ''License not found''), db)
      | Some l \<Rightarrow>
          if lc_revoked_at l \<noteq> None then (Inl (BadRequest ''License is revoked and cannot be suspended''), db)
          else (Inr (f l), logLicenseEvent now lid ''SUSPENDED'' reason (update_license lid f db)))"

definition revokeLicense :: "time \<Rightarrow> uuid \<Rightarrow> string option \<Rightarrow> (license_db, license_row) handler" where
  "revokeLicense now lid reason db =
     (let f = (\<lambda>l. l\<lparr>lc_status := L_REVOKED, lc_revoked_at := Some now,
                     lc_reason := Some (or_string reason ''Admin revoked''), lc_updated_at := now\<rparr>) in
      case license_row_of db lid of
        None \<Rightarrow> (Inl (NotFound ''License not found''), db)
      | Some l \<Rightarrow> (Inr (f l), logLicenseEvent now lid ''REVOKED'' reason (update_license lid f db)))"

definition activate_row :: "time \<Rightarrow> string list option \<Rightarrow> license_row \<Rightarrow> license_row" where
  "activate_row now strategies l = l\<lparr>lc_status := L_ACTIVE, lc_suspended_at := None, lc_revoked_at := None,
     lc_reason := None, lc_strategies := coalesce_text strategies (lc_strategies l),
     lc_expires_at := Some (max (coalesce_text (lc_expires_at l) now) (now + days 30)), lc_updated_at := now\<rparr>"

definition activateLicense :: "time \<Rightarrow> uuid \<Rightarrow> string option \<Rightarrow> (license_db, license_row) handler" where
  "activateLicense now lid reason db =
     (case license_row_of db lid of
        None \<Rightarrow> (Inl (NotFound ''License not found''), db)
      | Some l \<Rightarrow>
          (let strategies = Option.bind (plan_row_of db (lc_plan l)) lp_strategies in
           (Inr (activate_row now strategies l),
            unrevoke_devices now lid
              (logLicenseEvent now lid ''ACTIVATED'' (Some (or_string reason ''Admin activated''))
                (update_license lid (activate_row now strategies) db)))))"

definition deactivateLicense :: "time \<Rightarrow> uuid \<Rightarrow> string option \<Rightarrow> (license_db, license_row) handler" where
  "deactivateLicense now lid reason db =
     (let f = (\<lambda>l. l\<lparr>lc_status := L_SUSPENDED, lc_suspended_at := Some now, lc_updated_at := now\<rparr>) in
      case license_row_of db lid of
        None \<Rightarrow> (Inl (NotFound ''License not found''), db)
      | Some l \<Rightarrow> (Inr (f l),
          logLicenseEvent now lid ''DEACTIVATED'' (Some (or_string reason ''Admin deactivated'')) (update_license lid f db)))"

definition renew_row :: "time \<Rightarrow> rat \<Rightarrow> license_row \<Rightarrow> license_row" where
  "renew_row now d l =
     (let base = (case lc_expires_at l of Some t \<Rightarrow> if t > now then t else now | None \<Rightarrow> now) in
      l\<lparr>lc_expires_at := Some (max base now + day_span d), lc_status := L_ACTIVE, lc_revoked_at := None,
        lc_reason := None, lc_suspended_at := None, lc_updated_at := now\<rparr>)"

definition renewLicense :: "(rat \<Rightarrow> string) \<Rightarrow> time \<Rightarrow> uuid \<Rightarrow> rat option \<Rightarrow> (license_db, license_row) handler" where
  "renewLicense num_text now lid validDays db =
     (case license_row_of db lid of
        None \<Rightarrow> (Inl (NotFound ''License not found''), db)
      | Some l \<Rightarrow>
          (let d = valid_days validDays in
           (Inr (renew_row now d l),
            logLicenseEvent now lid ''RENEWED'' (Some (''extended '' @ num_text d @ '' days''))
              (update_license lid (renew_row now d) db))))"

definition positive_floor :: "rat option \<Rightarrow> int option" where
  "positive_floor x = (case x of Some q \<Rightarrow> if q > 0 then Some \<lfloor>q\<rfloor> else None | None \<Rightarrow> None)"

definition change_plan_row :: "time \<Rightarrow> license_plan \<Rightarrow> int option \<Rightarrow> int option \<Rightarrow> license_row \<Rightarrow> license_row" where
  "change_plan_row now p maxDevices maxMt l = l\<lparr>lc_plan := lp_id p, lc_strategies := coalesce_text (lp_strategies p) [],
     lc_max_devices := coalesce_text maxDevices (lc_max_devices l), lc_max_mt := coalesce_text maxMt (lc_max_mt l),
     lc_updated_at := now\<rparr>"

definition changeLicensePlan :: "time \<Rightarrow> uuid \<Rightarrow> plan_change \<Rightarrow> (license_db, license_row \<times> string \<times> string) handler" where
  "changeLicensePlan now lid b = transaction (\<lambda>db.
     case pc_plan b of
       None \<Rightarrow> (Inl (BadRequest ''plan_id is required''), db)
     | Some pid \<Rightarrow>
         (case license_row_of db lid of
            None \<Rightarrow> (Inl (NotFound ''License not found''), db)
          | Some l \<Rightarrow>
              if lc_revoked_at l \<noteq> None
              then (Inl (BadRequest ''License is revoked - reissue a new license instead''), db)
              else if lc_plan l = pid then (Inl (BadRequest ''License is already on that plan''), db)
              else
                (case plan_row_of db pid of
                   None \<Rightarrow> (Inl (BadRequest ''plan_id does not exist''), db)
                 | Some p \<Rightarrow>
                     (let f = change_plan_row now p (positive_floor (pc_max_devices b)) (positive_floor (pc_max_mt b));
                          db1 = update_license lid f db in
                      (Inr (f l, lp_code p, lp_name p),
                       db1\<lparr>license_events := license_events db1 @
                         [\<lparr>le_license = lid, le_type = ''PLAN_CHANGED'',
                           le_reason = Some (or_string (pc_reason b) (''plan -> '' @ lp_code p)), le_device = None,
                           le_created_at = now\<rparr>]\<rparr>)))))"

definition resetLicense :: "time \<Rightarrow> uuid \<Rightarrow> (license_db, uuid) handler" where
  "resetLicense now lid db =
     (case license_row_of db lid of
        None \<Rightarrow> (Inl (NotFound ''License not found''), db)
      | Some _ \<Rightarrow>
          (Inr lid,
           logLicenseEvent now lid ''RESET'' (Some ''activations soft-deactivated, device bindings cleared'')
             (db\<lparr>activations := update_rows (\<lambda>a. da_license a = lid \<and> da_deactivated_at a = None)
                    (\<lambda>a. a\<lparr>da_deactivated_at := Some now\<rparr>) (activations db),
                 devices := update_rows (\<lambda>d. dv_license d = Some lid)
                    (\<lambda>d. d\<lparr>dv_license := None, dv_status := ''OFFLINE'', dv_updated_at := now\<rparr>) (devices db)\<rparr>)))"

definition forceLogoutLicense :: "(nat \<Rightarrow> string) \<Rightarrow> time \<Rightarrow> uuid \<Rightarrow> (license_db, uuid \<times> nat) handler" where
  "forceLogoutLicense count_text now lid db =
     (case license_row_of db lid of
        None \<Rightarrow> (Inl (NotFound ''License not found''), db)
      | Some _ \<Rightarrow>
          (let p = (\<lambda>d. dv_license d = Some lid \<and> dv_deleted_at d = None);
               n = count_rows p (devices db) in
           (Inr (lid, n),
            logLicenseEvent now lid ''FORCE_LOGOUT'' (Some (''revoked '' @ count_text n @ '' device(s)''))
              (db\<lparr>devices := update_rows p
                 (\<lambda>d. d\<lparr>dv_revoked_at := Some now, dv_reason := Some ''Force logout by admin'', dv_status := ''REVOKED'',
                        dv_updated_at := now\<rparr>) (devices db)\<rparr>))))"

definition fetchLicenseActivations :: "uuid \<Rightarrow> license_db \<Rightarrow> ((activation_row \<times> device_row option) list) result" where
  "fetchLicenseActivations lid db =
     (case license_row_of db lid of
        None \<Rightarrow> Inl (NotFound ''License not found'')
      | Some _ \<Rightarrow> Inr (map (\<lambda>a. (a, first_row (\<lambda>d. dv_id d = da_device a) (devices db)))
          (sort_key (\<lambda>a. - da_activated_at a) (filter (\<lambda>a. da_license a = lid) (activations db)))))"

section \<open>Validation of a key\<close>

datatype key_verdict =
    KeyValid license_row "license_plan option"
  | KeyNotFound
  | KeyNotActive license_status
  | KeyAccountsExceeded int nat
  | KeyBoundElsewhere string

text \<open>\<^verbatim>\<open>COUNT(DISTINCT mt_account_login)\<close> ignores nulls.\<close>

definition distinct_logins :: "uuid \<Rightarrow> license_db \<Rightarrow> nat" where
  "distinct_logins lid db =
     length (remdups (List.map_filter da_login (filter (\<lambda>a. da_license a = lid) (activations db))))"

definition activated_on :: "uuid \<Rightarrow> string \<Rightarrow> license_db \<Rightarrow> bool" where
  "activated_on lid m db \<longleftrightarrow> exists_row (\<lambda>a. da_license a = lid \<and> da_login a = Some m) (activations db)"

definition bound_elsewhere :: "uuid \<Rightarrow> string \<Rightarrow> license_db \<Rightarrow> bool" where
  "bound_elsewhere lid m db \<longleftrightarrow>
     exists_row (\<lambda>a. da_login a = Some m \<and> da_license a \<noteq> lid \<and>
       exists_row (\<lambda>l. lc_id l = da_license a \<and> lc_revoked_at l = None) (licenses db)) (activations db)"

definition validateLicenseKey :: "string \<Rightarrow> string option \<Rightarrow> license_db \<Rightarrow> key_verdict" where
  "validateLicenseKey key mt db =
     (case first_row (\<lambda>l. lc_key l = Some key \<and> lc_revoked_at l = None) (licenses db) of
        None \<Rightarrow> KeyNotFound
      | Some l \<Rightarrow>
          if lc_status l \<noteq> L_ACTIVE then KeyNotActive (lc_status l)
          else
            (case or_null mt of
               None \<Rightarrow> KeyValid l (plan_row_of db (lc_plan l))
             | Some m \<Rightarrow>
                 if activated_on (lc_id l) m db then KeyValid l (plan_row_of db (lc_plan l))
                 else if int (distinct_logins (lc_id l) db) \<ge> lc_max_mt l
                 then KeyAccountsExceeded (lc_max_mt l) (distinct_logins (lc_id l) db)
                 else if bound_elsewhere (lc_id l) m db then KeyBoundElsewhere m
                 else KeyValid l (plan_row_of db (lc_plan l))))"

section \<open>The service\<close>

text \<open>The requests of a user carry the user's identity; the others come from the administrator or billing.\<close>

datatype user_licensing =
    RegisterDevice uuid device_registration
  | RegisterTerminal uuid terminal_registration
  | AddMtAccount uuid terminal_registration
  | DeviceHeartbeat uuid "string option" "string option"
  | RevokeOwnDevice uuid string
  | SyncAccount account_sync

datatype admin_licensing =
    CreateLicense uuid string license_request
  | EnsureLicense uuid string uuid
  | SuspendLicense uuid "string option"
  | RevokeLicense uuid "string option"
  | ActivateLicense uuid "string option"
  | DeactivateLicense uuid "string option"
  | RenewLicense uuid "rat option"
  | ChangePlan uuid plan_change
  | ResetLicense uuid
  | ForceLogout uuid
  | ResetDevice uuid
  | ForceUpgrade uuid
  | DisableSignal uuid

text \<open>The parameters: SHA-256, the parser of UUIDs and the printers of numbers.\<close>

record licensing_env =
  ln_sha :: "string \<Rightarrow> string"
  ln_uuid :: "string \<Rightarrow> uuid option"
  ln_num :: "rat \<Rightarrow> string"
  ln_nat :: "nat \<Rightarrow> string"

fun exec_user_licensing :: "licensing_env \<Rightarrow> time \<times> uuid \<times> user_licensing \<Rightarrow> license_db \<Rightarrow> license_db" where
  "exec_user_licensing E (now, u, RegisterDevice i b) db = snd (registerDevice now i u b db)"
| "exec_user_licensing E (now, u, RegisterTerminal i b) db = snd (registerTerminal (ln_sha E) now i u b db)"
| "exec_user_licensing E (now, u, AddMtAccount i b) db = snd (addMtAccount (ln_sha E) now i u b db)"
| "exec_user_licensing E (now, u, DeviceHeartbeat d conn hash) db = snd (license_heartbeat now d conn hash (Some u) db)"
| "exec_user_licensing E (now, u, RevokeOwnDevice d reason) db =
     snd (license_revokeDevice (ln_uuid E) now d reason (Some u) db)"
| "exec_user_licensing E (now, u, SyncAccount b) db = snd (syncTerminalAccount now u b db)"

fun exec_admin_licensing :: "licensing_env \<Rightarrow> time \<times> admin_licensing \<Rightarrow> license_db \<Rightarrow> license_db" where
  "exec_admin_licensing E (now, CreateLicense i key b) db = snd (createLicense now i key b db)"
| "exec_admin_licensing E (now, EnsureLicense i key sub) db = snd (ensureActiveLicenseForSubscription now i key sub db)"
| "exec_admin_licensing E (now, SuspendLicense l r) db = snd (suspendLicense now l r db)"
| "exec_admin_licensing E (now, RevokeLicense l r) db = snd (revokeLicense now l r db)"
| "exec_admin_licensing E (now, ActivateLicense l r) db = snd (activateLicense now l r db)"
| "exec_admin_licensing E (now, DeactivateLicense l r) db = snd (deactivateLicense now l r db)"
| "exec_admin_licensing E (now, RenewLicense l d) db = snd (renewLicense (ln_num E) now l d db)"
| "exec_admin_licensing E (now, ChangePlan l b) db = snd (changeLicensePlan now l b db)"
| "exec_admin_licensing E (now, ResetLicense l) db = snd (resetLicense now l db)"
| "exec_admin_licensing E (now, ForceLogout l) db = snd (forceLogoutLicense (ln_nat E) now l db)"
| "exec_admin_licensing E (now, ResetDevice d) db = snd (resetDevice now d db)"
| "exec_admin_licensing E (now, ForceUpgrade d) db = snd (forceUpgradeDevice now d db)"
| "exec_admin_licensing E (now, DisableSignal d) db = snd (disableDeviceSignal now d db)"

section \<open>Outcomes\<close>

lemma logLicenseEvent_simps [simp]:
  "licenses (logLicenseEvent now l t r db) = licenses db" "devices (logLicenseEvent now l t r db) = devices db"
  "activations (logLicenseEvent now l t r db) = activations db"
  "license_subs (logLicenseEvent now l t r db) = license_subs db"
  "license_plans (logLicenseEvent now l t r db) = license_plans db"
  "refresh_tokens (logLicenseEvent now l t r db) = refresh_tokens db" "leases (logLicenseEvent now l t r db) = leases db"
  by (simp_all add: logLicenseEvent_def)

lemma update_license_simps [simp]:
  "licenses (update_license l f db) = update_rows (\<lambda>r. lc_id r = l) f (licenses db)"
  "devices (update_license l f db) = devices db" "activations (update_license l f db) = activations db"
  "license_subs (update_license l f db) = license_subs db" "license_plans (update_license l f db) = license_plans db"
  "refresh_tokens (update_license l f db) = refresh_tokens db" "leases (update_license l f db) = leases db"
  by (simp_all add: update_license_def)

lemma unrevoke_devices_simps [simp]:
  "licenses (unrevoke_devices now l db) = licenses db" "activations (unrevoke_devices now l db) = activations db"
  "license_subs (unrevoke_devices now l db) = license_subs db" "license_plans (unrevoke_devices now l db) = license_plans db"
  by (simp_all add: unrevoke_devices_def)

lemma deactivate_terminals_simps [simp]:
  "licenses (deactivate_terminals now d db) = licenses db" "devices (deactivate_terminals now d db) = devices db"
  "refresh_tokens (deactivate_terminals now d db) = refresh_tokens db" "leases (deactivate_terminals now d db) = leases db"
  by (simp_all add: deactivate_terminals_def)

lemma prepare_revoke: "prepare_statement [2, 1, 2] 3 = Some (SqlError ''08P01'')"
  by code_simp

lemma prepare_sync: "prepare_statement [1, 2, 3, 4, 5, 6, 7, 8, 9, 13, 10, 12] 13 = Some (SqlError ''42P18'')"
  by code_simp

text \<open>Two statements of the service can never run.\<close>

lemma syncTerminalAccount_fails: "syncTerminalAccount now u b db = (Inl (SqlError ''42P18''), db)"
  by (simp add: syncTerminalAccount_def prepare_sync del: One_nat_def)

lemma revokeDevice_fails: "license_revokeDevice as_uuid now d reason (Some u) db = (Inl (SqlError ''08P01''), db)"
  by (simp add: license_revokeDevice_def prepare_revoke del: One_nat_def)

lemma terminal_device_owned:
  assumes "terminal_device u b db = Inr d"
  shows "\<exists>r\<in>set (devices db). dv_id r = d \<and> dv_user r = u"
proof (cases "tr_device b")
  case (Some d')
  with assms show ?thesis by (auto simp: terminal_device_def list_ex_iff split: if_splits)
next
  case None
  have seen: "r \<in> set ds \<and> p r" if "latest_seen p ds = Some r" for p ds r
    using that by (auto simp: latest_seen_def split: option.splits dest: first_row_Some latest_Some)
  from None assms obtain l :: license_row and r where
    "latest_seen (\<lambda>r. dv_license r = Some (lc_id l) \<and> dv_user r = u \<and> dv_deleted_at r = None) (devices db) = Some r" "dv_id r = d"
    by (auto simp: terminal_device_def split: option.splits)
  with seen show ?thesis by blast
qed

definition terminal_touch :: "time \<Rightarrow> string \<Rightarrow> device_row \<Rightarrow> device_row" where
  "terminal_touch now hash r = r\<lparr>dv_last_seen := Some now, dv_status := ''ONLINE'', dv_last_activation := Some now,
     dv_fp_hash := Some hash\<rparr>"

lemma registerTerminal_cases [case_names refused deactivated registered]:
  obtains
    (refused) e where "registerTerminal sha now i u b db = (Inl e, db)"
  | (deactivated) d e where "terminal_device u b db = Inr d"
      "registerTerminal sha now i u b db = (Inl e, deactivate_terminals now d db)"
  | (registered) d and l :: license_row where "terminal_device u b db = Inr d" "lc_max_mt l > 0"
      "registerTerminal sha now i u b db =
        (Inr (terminal_activation now i (lc_id l) d (terminal_fingerprint_hash sha b) b),
         (deactivate_terminals now d db)
           \<lparr>activations := activations (deactivate_terminals now d db) @
              [terminal_activation now i (lc_id l) d (terminal_fingerprint_hash sha b) b],
            devices := update_rows (\<lambda>r. dv_id r = d) (terminal_touch now (terminal_fingerprint_hash sha b)) (devices db)\<rparr>)"
proof (cases "terminal_device u b db")
  case (Inl e)
  then show thesis by (intro refused) (simp add: registerTerminal_def)
next
  case (Inr d)
  let ?db = "deactivate_terminals now d db"
  let ?lic = "Option.bind (first_row (\<lambda>r. dv_id r = d) (devices ?db)) (\<lambda>r. Option.bind (dv_license r) (license_row_of ?db))"
  have touch: "(\<lambda>r. r\<lparr>dv_last_seen := Some now, dv_status := ''ONLINE'', dv_last_activation := Some now,
      dv_fp_hash := Some hash\<rparr>) = terminal_touch now hash" for hash by (auto simp: terminal_touch_def)
  have zero: "count_rows (\<lambda>a. da_device a = d \<and> da_deactivated_at a = None) (activations ?db) = 0"
    by (rule count_rows_zero) (auto simp: deactivate_terminals_def ball_update_rows)
  show thesis
  proof (cases ?lic)
    case None
    with Inr show thesis by (intro deactivated) (simp_all add: registerTerminal_def Let_def)
  next
    case (Some l)
    then have lic: "Option.bind (first_row (\<lambda>r. dv_id r = d) (devices db)) (\<lambda>r. Option.bind (dv_license r) (license_row_of ?db)) = Some l"
      by (simp only: deactivate_terminals_simps)
    consider "lc_max_mt l \<le> 0" | "lc_max_mt l > 0" "exists_row (login_taken (lc_id l) (tr_login b)) (activations ?db)"
      | "lc_max_mt l > 0" "\<not> exists_row (login_taken (lc_id l) (tr_login b)) (activations ?db)" by linarith
    then show thesis
    proof cases
      case 3
      then show thesis
        by (intro registered [OF Inr, of l]) (simp_all add: registerTerminal_def Inr lic zero Let_def touch del: bind_eq_Some_conv)
    qed (use Inr lic zero in \<open>intro deactivated [OF Inr]; simp add: registerTerminal_def Let_def\<close>)+
  qed
qed

section \<open>Users do not touch each other's devices\<close>

definition owned :: "uuid \<Rightarrow> license_db \<Rightarrow> uuid list" where
  "owned u db = map dv_id (filter (\<lambda>d. dv_user d = u) (devices db))"

definition keeps_tenant :: "uuid \<Rightarrow> license_db \<Rightarrow> license_db \<Rightarrow> bool" where
  "keeps_tenant u s t \<longleftrightarrow> (distinct (map dv_id (devices s)) \<longrightarrow> distinct (map dv_id (devices t)) \<and>
     filter (\<lambda>d. dv_user d = u) (devices t) = filter (\<lambda>d. dv_user d = u) (devices s) \<and> licenses t = licenses s \<and>
     filter (\<lambda>a. da_device a \<in> set (owned u s)) (activations t) =
     filter (\<lambda>a. da_device a \<in> set (owned u s)) (activations s))"

lemma keeps_tenant_trans: "keeps_tenant u a b \<Longrightarrow> keeps_tenant u b c \<Longrightarrow> keeps_tenant u a c"
  unfolding keeps_tenant_def
proof (intro impI)
  assume ab: "distinct (map dv_id (devices a)) \<longrightarrow> distinct (map dv_id (devices b)) \<and>
      filter (\<lambda>d. dv_user d = u) (devices b) = filter (\<lambda>d. dv_user d = u) (devices a) \<and> licenses b = licenses a \<and>
      filter (\<lambda>x. da_device x \<in> set (owned u a)) (activations b) = filter (\<lambda>x. da_device x \<in> set (owned u a)) (activations a)"
    and bc: "distinct (map dv_id (devices b)) \<longrightarrow> distinct (map dv_id (devices c)) \<and>
      filter (\<lambda>d. dv_user d = u) (devices c) = filter (\<lambda>d. dv_user d = u) (devices b) \<and> licenses c = licenses b \<and>
      filter (\<lambda>x. da_device x \<in> set (owned u b)) (activations c) = filter (\<lambda>x. da_device x \<in> set (owned u b)) (activations b)"
    and d: "distinct (map dv_id (devices a))"
  from ab d have "owned u b = owned u a" by (simp add: owned_def)
  with ab bc d show "distinct (map dv_id (devices c)) \<and>
      filter (\<lambda>d. dv_user d = u) (devices c) = filter (\<lambda>d. dv_user d = u) (devices a) \<and> licenses c = licenses a \<and>
      filter (\<lambda>x. da_device x \<in> set (owned u a)) (activations c) = filter (\<lambda>x. da_device x \<in> set (owned u a)) (activations a)"
    by simp
qed

lemma keeps_tenant_update:
  assumes "devices t = update_rows p f (devices s)" "\<And>r. dv_id (f r) = dv_id r" "\<And>r. dv_user (f r) = dv_user r"
    and "distinct (map dv_id (devices s)) \<Longrightarrow> \<forall>r\<in>set (devices s). p r \<longrightarrow> dv_user r \<noteq> u"
    and "licenses t = licenses s"
    and "distinct (map dv_id (devices s)) \<Longrightarrow> filter (\<lambda>a. da_device a \<in> set (owned u s)) (activations t) =
      filter (\<lambda>a. da_device a \<in> set (owned u s)) (activations s)"
  shows "keeps_tenant u s t"
proof -
  have "filter (\<lambda>d. dv_user d = u) (update_rows p f ds) = filter (\<lambda>d. dv_user d = u) ds"
    if "\<forall>r\<in>set ds. p r \<longrightarrow> dv_user r \<noteq> u" for ds
    using that by (induction ds) (auto simp: assms(3))
  with assms show ?thesis by (simp add: keeps_tenant_def map_update_rows_frame)
qed

lemma not_owned:
  assumes "distinct (map dv_id (devices db))" "r \<in> set (devices db)" "dv_user r \<noteq> u"
  shows "dv_id r \<notin> set (owned u db)"
  using assms key_unique [of dv_id "devices db" r] by (auto simp: owned_def)

lemma registerTerminal_tenant:
  assumes "actor \<noteq> u"
  shows "keeps_tenant u db (snd (registerTerminal sha now i actor b db))"
proof -
  have owner: "d \<notin> set (owned u db)" "\<forall>r\<in>set (devices db). dv_id r = d \<longrightarrow> dv_user r \<noteq> u"
    if dev: "terminal_device actor b db = Inr d" and dist: "distinct (map dv_id (devices db))" for d
  proof -
    obtain r where r: "r \<in> set (devices db)" "dv_id r = d" "dv_user r = actor" using terminal_device_owned [OF dev] by auto
    with dist assms show "d \<notin> set (owned u db)" using not_owned [of db r u] by auto
    then show "\<forall>r\<in>set (devices db). dv_id r = d \<longrightarrow> dv_user r \<noteq> u" by (auto simp: owned_def)
  qed
  have acts: "filter (\<lambda>a. da_device a \<in> set (owned u db)) (activations (deactivate_terminals now d db)) =
      filter (\<lambda>a. da_device a \<in> set (owned u db)) (activations db)" if "d \<notin> set (owned u db)" for d
    unfolding deactivate_terminals_def license_db.simps
    by simp (rule filter_update_outside, use that in auto)
  show ?thesis
  proof (cases rule: registerTerminal_cases [of sha now i actor b db])
    case (deactivated d e)
    then show ?thesis using owner(1) acts by (simp add: keeps_tenant_def)
  next
    case (registered d l)
    show ?thesis
    proof (rule keeps_tenant_update [where p = "\<lambda>r. dv_id r = d" and f = "terminal_touch now (terminal_fingerprint_hash sha b)"])
      show "filter (\<lambda>a. da_device a \<in> set (owned u db)) (activations (snd (registerTerminal sha now i actor b db))) =
          filter (\<lambda>a. da_device a \<in> set (owned u db)) (activations db)" if "distinct (map dv_id (devices db))"
        using registered owner(1) [OF _ that] acts by (simp add: terminal_activation_def)
    qed (use registered owner(2) in \<open>simp_all add: terminal_touch_def\<close>)
  qed (simp add: keeps_tenant_def)
qed

lemma registerDevice_tenant:
  assumes "actor \<noteq> u"
  shows "keeps_tenant u db (snd (registerDevice now i actor b db))"
proof (cases "case or_null (dr_fp_hash b) of None \<Rightarrow> None
    | Some h \<Rightarrow> first_row (\<lambda>d. dv_user d = actor \<and> dv_fp_hash d = Some h \<and> dv_deleted_at d = None) (devices db)")
  case (Some d)
  show ?thesis
    by (rule keeps_tenant_update [where p = "\<lambda>r. dv_id r = dv_id d \<and> dv_user r = actor" and f = "reregister now b"])
      (use Some assms in \<open>auto simp: registerDevice_def reregister_def\<close>)
next
  case None
  with assms show ?thesis
    by (auto simp: registerDevice_def keeps_tenant_def registered_device_def blank_device_def list_ex_iff split: sum.splits)
qed

lemma license_heartbeat_tenant:
  assumes "actor \<noteq> u"
  shows "keeps_tenant u db (snd (license_heartbeat now d conn hash (Some actor) db))"
proof (cases "exists_row (\<lambda>r. dv_id r = d \<and> dv_deleted_at r = None \<and> actor = dv_user r) (devices db)")
  case True
  show ?thesis
    by (rule keeps_tenant_update [where p = "\<lambda>r. dv_id r = d \<and> dv_deleted_at r = None \<and> actor = dv_user r"
          and f = "\<lambda>r. r\<lparr>dv_last_seen := Some now, dv_status := or_string conn ''ONLINE'', dv_updated_at := now,
                  dv_fp_hash := coalesce (or_null hash) (dv_fp_hash r)\<rparr>"])
      (use True assms in \<open>auto simp: license_heartbeat_def\<close>)
next
  case False
  then show ?thesis by (simp add: license_heartbeat_def keeps_tenant_def)
qed

interpretation tenant_isolation: selective_service "exec_user_licensing E" "keeps_tenant u" "\<lambda>req. fst (snd req) \<noteq> u" for E u
proof
  show "fst (snd req) \<noteq> u \<Longrightarrow> keeps_tenant u db (exec_user_licensing E req db)" for req db
    by (cases "(E, req, db)" rule: exec_user_licensing.cases)
      (simp_all add: registerDevice_tenant registerTerminal_tenant addMtAccount_def license_heartbeat_tenant
        revokeDevice_fails syncTerminalAccount_fails, simp_all add: keeps_tenant_def)
qed (simp add: keeps_tenant_def, rule keeps_tenant_trans)

section \<open>The license of a paid subscription\<close>

definition license_keys_ok :: "license_db \<Rightarrow> bool" where
  "license_keys_ok db \<longleftrightarrow> distinct (map lc_id (licenses db)) \<and> distinct (map ls_id (license_subs db)) \<and>
     distinct (map lp_id (license_plans db))"

text \<open>The user's best license already serves the subscription.\<close>

definition serves :: "license_subscription \<Rightarrow> license_row \<Rightarrow> bool" where
  "serves s l \<longleftrightarrow> lc_user l = ls_user s \<and> lc_status l = L_ACTIVE \<and> lc_plan l = ls_plan s \<and> lc_subscription l = Some (ls_id s)"

lemma ensure_served:
  assumes "best_license (ls_user s) db = Some l" "serves s l"
    and "first_row (\<lambda>x. ls_id x = ls_id s \<and> plan_row_of db (ls_plan x) \<noteq> None) (license_subs db) = Some s"
    and "plan_row_of db (ls_plan s) = Some p"
  shows "ensureActiveLicenseForSubscription now i key (ls_id s) db = (Inr (Some (l, AlreadyActive)), db)"
  using assms by (simp add: ensureActiveLicenseForSubscription_def serves_def)

lemma best_license_active:
  assumes "latest lc_issued_at (\<lambda>l. lc_user l = u \<and> lc_status l = L_ACTIVE) (licenses db) = Some l"
  shows "best_license u db = Some l"
  using assms by (simp add: best_license_def)

lemma best_license_kept:
  assumes "best_license u db = Some l" "lc_status l = L_ACTIVE"
    and "licenses db' = update_rows (\<lambda>r. lc_id r = lc_id l) f (licenses db)"
    and "\<And>r. lc_issued_at (f r) = lc_issued_at r" "\<And>r. lc_user (f r) = lc_user r" "\<And>r. lc_status (f r) = lc_status r"
  shows "best_license u db' = Some (f l)"
proof -
  have "latest lc_issued_at (\<lambda>l. lc_user l = u \<and> lc_status l = L_ACTIVE) (licenses db) = Some l"
    using assms(1,2) by (auto simp: best_license_def latest_None split: option.splits dest: latest_Some)
  then have "latest lc_issued_at (\<lambda>l. lc_user l = u \<and> lc_status l = L_ACTIVE) (licenses db') = Some (f l)"
    unfolding assms(3) by (subst latest_update) (simp_all add: assms(4-6))
  then show ?thesis by (rule best_license_active)
qed

lemma best_license_revived:
  assumes ids: "distinct (map lc_id (licenses db))" and l: "best_license u db = Some l" "lc_status l \<noteq> L_ACTIVE"
    and eq: "licenses db' = update_rows (\<lambda>r. lc_id r = lc_id l) f (licenses db)"
    and f: "\<And>r. lc_user (f r) = lc_user r" "\<And>r. lc_status (f r) = L_ACTIVE"
  shows "best_license u db' = Some (f l)"
proof -
  have none: "\<forall>r\<in>set (licenses db). \<not> (lc_user r = u \<and> lc_status r = L_ACTIVE)" and mem: "l \<in> set (licenses db)" "lc_user l = u"
    using l by (auto simp: best_license_def latest_None split: option.splits dest: latest_Some)
  have "filter (\<lambda>r. lc_user r = u \<and> lc_status r = L_ACTIVE) (update_rows (\<lambda>r. lc_id r = lc_id l) f ls) =
      (if l \<in> set ls then [f l] else [])"
    if "set ls \<subseteq> set (licenses db)" "distinct (map lc_id ls)" for ls
    using that
  proof (induction ls)
    case (Cons r ls)
    have r: "r = l" if "lc_id r = lc_id l" using key_unique [OF ids _ mem(1) that] Cons.prems by simp
    show ?case
    proof (cases "r = l")
      case True
      with Cons.prems have "l \<notin> set ls" by auto
      with Cons True show ?thesis by (simp add: f mem(2))
    next
      case False
      with Cons r none show ?thesis by auto
    qed
  qed simp
  from this [of "licenses db"] have "filter (\<lambda>r. lc_user r = u \<and> lc_status r = L_ACTIVE) (licenses db') = [f l]"
    using ids mem eq by simp
  then show ?thesis by (intro best_license_active latest_only)
qed

lemma ensure_cases [case_names absent synced active reactivated issued failed]:
  obtains
    (absent) "ensureActiveLicenseForSubscription now i key sub db = (Inr None, db)"
      "\<nexists>s. s \<in> set (license_subs db) \<and> ls_id s = sub \<and> plan_row_of db (ls_plan s) \<noteq> None"
  | (synced) s p l db' where
      "first_row (\<lambda>s. ls_id s = sub \<and> plan_row_of db (ls_plan s) \<noteq> None) (license_subs db) = Some s"
      "plan_row_of db (ls_plan s) = Some p" "best_license (ls_user s) db = Some l" "lc_status l = L_ACTIVE"
      "ensureActiveLicenseForSubscription now i key sub db = (Inr (Some (sync_plan now p sub l, PlanSynced)), db')"
      "licenses db' = update_rows (\<lambda>r. lc_id r = lc_id l) (sync_plan now p sub) (licenses db)"
      "devices db' = devices db" "license_subs db' = license_subs db" "license_plans db' = license_plans db"
  | (active) s p l db' where
      "first_row (\<lambda>s. ls_id s = sub \<and> plan_row_of db (ls_plan s) \<noteq> None) (license_subs db) = Some s"
      "plan_row_of db (ls_plan s) = Some p" "best_license (ls_user s) db = Some l" "lc_status l = L_ACTIVE" "lc_plan l = ls_plan s"
      "ensureActiveLicenseForSubscription now i key sub db = (Inr (Some (l, AlreadyActive)), db')"
      "(lc_subscription l = Some sub \<and> db' = db) \<or>
       db' = update_license (lc_id l) (\<lambda>r. r\<lparr>lc_subscription := Some sub, lc_updated_at := now\<rparr>) db"
  | (reactivated) s p l db' where
      "first_row (\<lambda>s. ls_id s = sub \<and> plan_row_of db (ls_plan s) \<noteq> None) (license_subs db) = Some s"
      "plan_row_of db (ls_plan s) = Some p" "best_license (ls_user s) db = Some l" "lc_status l \<noteq> L_ACTIVE"
      "ensureActiveLicenseForSubscription now i key sub db = (Inr (Some (reactivate now p sub l, Reactivated)), db')"
      "licenses db' = update_rows (\<lambda>r. lc_id r = lc_id l) (reactivate now p sub) (licenses db)"
      "license_subs db' = license_subs db" "license_plans db' = license_plans db"
  | (issued) s p db' where
      "first_row (\<lambda>s. ls_id s = sub \<and> plan_row_of db (ls_plan s) \<noteq> None) (license_subs db) = Some s"
      "plan_row_of db (ls_plan s) = Some p" "best_license (ls_user s) db = None"
      "ensureActiveLicenseForSubscription now i key sub db =
        (Inr (Some (issued_license now i key (ls_user s) p sub, Issued)), db')"
      "licenses db' = licenses db @ [issued_license now i key (ls_user s) p sub]"
      "\<not> exists_row (\<lambda>r. lc_id r = i) (licenses db)"
      "devices db' = devices db" "license_subs db' = license_subs db" "license_plans db' = license_plans db"
  | (failed) "ensureActiveLicenseForSubscription now i key sub db = (Inl (SqlError ''23505''), db)"
      "exists_row (\<lambda>r. lc_id r = i \<or> lc_key r = Some (''PAT-'' @ key)) (licenses db)"
proof (cases "first_row (\<lambda>s. ls_id s = sub \<and> plan_row_of db (ls_plan s) \<noteq> None) (license_subs db)")
  case None
  then have "\<forall>s\<in>set (license_subs db). \<not> (ls_id s = sub \<and> plan_row_of db (ls_plan s) \<noteq> None)" by (simp only: first_row_None)
  with None show thesis by (intro absent) (simp add: ensureActiveLicenseForSubscription_def, blast)
next
  case (Some s)
  then obtain p where p: "plan_row_of db (ls_plan s) = Some p" using first_row_Some [OF Some] by auto
  show thesis
  proof (cases "best_license (ls_user s) db")
    case None
    let ?l = "issued_license now i key (ls_user s) p sub"
    have key: "lc_id ?l = i" "lc_key ?l = Some (''PAT-'' @ key)" by (simp_all add: issued_license_def)
    show thesis
    proof (cases "exists_row (\<lambda>r. lc_id r = i \<or> lc_key r = Some (''PAT-'' @ key)) (licenses db)")
      case True
      with None Some p show thesis
        by (intro failed) (simp_all add: ensureActiveLicenseForSubscription_def insert_license_def key)
    next
      case False
      then have "\<not> exists_row (\<lambda>r. lc_id r = i) (licenses db)" by (auto simp: list_ex_iff)
      with None Some p False show thesis
        by (intro issued [OF Some p None, of "snd (ensureActiveLicenseForSubscription now i key sub db)"])
          (simp_all add: ensureActiveLicenseForSubscription_def insert_license_def key)
    qed
  next
    case l: (Some l)
    let ?db = "snd (ensureActiveLicenseForSubscription now i key sub db)"
    consider "lc_status l = L_ACTIVE" "lc_plan l \<noteq> ls_plan s" | "lc_status l = L_ACTIVE" "lc_plan l = ls_plan s" "lc_subscription l = Some sub"
      | "lc_status l = L_ACTIVE" "lc_plan l = ls_plan s" "lc_subscription l \<noteq> Some sub" | "lc_status l \<noteq> L_ACTIVE" by blast
    then show thesis
    proof cases
      case 1
      with Some p l show thesis by (intro synced [OF Some p l, of ?db]) (simp_all add: ensureActiveLicenseForSubscription_def)
    next
      case 2
      with Some p l show thesis by (intro active [OF Some p l, of ?db]) (simp_all add: ensureActiveLicenseForSubscription_def)
    next
      case 3
      with Some p l show thesis by (intro active [OF Some p l, of ?db]) (simp_all add: ensureActiveLicenseForSubscription_def)
    next
      case 4
      with Some p l show thesis by (intro reactivated [OF Some p l, of ?db]) (simp_all add: ensureActiveLicenseForSubscription_def)
    qed
  qed
qed

lemma plan_row_of_id: "plan_row_of db pid = Some p \<Longrightarrow> lp_id p = pid"
  by (auto simp: plan_row_of_def dest: first_row_Some)

lemma ensure_serves:
  assumes keys: "license_keys_ok db" and s: "s \<in> set (license_subs db)" "plan_row_of db (ls_plan s) \<noteq> None"
    and fresh: "\<not> exists_row (\<lambda>r. lc_id r = i \<or> lc_key r = Some (''PAT-'' @ key)) (licenses db)"
  shows "\<exists>res db' l. ensureActiveLicenseForSubscription now i key (ls_id s) db = (Inr (Some res), db') \<and>
    best_license (ls_user s) db' = Some l \<and> l \<in> set (licenses db') \<and> serves s l \<and> license_subs db' = license_subs db \<and>
    license_plans db' = license_plans db"
proof (cases rule: ensure_cases [of now i key "ls_id s" db])
  have sub: "x = s" if "first_row (\<lambda>x. ls_id x = ls_id s \<and> plan_row_of db (ls_plan x) \<noteq> None) (license_subs db) = Some x" for x
    using keys s(1) first_row_Some [OF that] key_unique [of ls_id "license_subs db" x s] by (auto simp: license_keys_ok_def)
  have mem: "l \<in> set (licenses d)" "lc_user l = u" if "best_license u d = Some l" for u d l
    using that by (auto simp: best_license_def split: option.splits dest: latest_Some)
  {
    case absent
    with s show ?thesis by auto
  next
    case (synced x p l db')
    have x: "x = s" by (rule sub [OF synced(1)])
    let ?l = "sync_plan now p (ls_id s) l"
    have best: "best_license (ls_user s) db' = Some ?l"
      by (rule best_license_kept [OF synced(3) [unfolded x] synced(4) synced(6)]) (simp_all add: sync_plan_def)
    moreover have "serves s ?l"
      using synced(4) mem(2) [OF synced(3)] plan_row_of_id [OF synced(2)] x by (simp add: serves_def sync_plan_def)
    ultimately show ?thesis using synced mem(1) [OF best] by simp
  next
    case (active x p l db')
    have x: "x = s" by (rule sub [OF active(1)])
    let ?l = "l\<lparr>lc_subscription := Some (ls_id s), lc_updated_at := now\<rparr>"
    have "best_license (ls_user s) db' = Some l \<and> serves s l \<or> best_license (ls_user s) db' = Some ?l \<and> serves s ?l"
      using active(7)
    proof
      assume "lc_subscription l = Some (ls_id s) \<and> db' = db"
      then show ?thesis using active(3-5) mem(2) [OF active(3)] x by (simp add: serves_def)
    next
      assume d: "db' = update_license (lc_id l) (\<lambda>r. r\<lparr>lc_subscription := Some (ls_id s), lc_updated_at := now\<rparr>) db"
      have "best_license (ls_user s) db' = Some ?l"
        by (rule best_license_kept [OF active(3) [unfolded x] active(4)]) (simp_all add: d)
      then show ?thesis using active(4,5) mem(2) [OF active(3)] x by (simp add: serves_def)
    qed
    then obtain l' where "best_license (ls_user s) db' = Some l'" "serves s l'" by blast
    moreover have "license_subs db' = license_subs db" "license_plans db' = license_plans db" using active(7) by auto
    ultimately show ?thesis using active(6) mem(1) by blast
  next
    case (reactivated x p l db')
    have x: "x = s" by (rule sub [OF reactivated(1)])
    let ?l = "reactivate now p (ls_id s) l"
    have best: "best_license (ls_user s) db' = Some ?l"
      by (rule best_license_revived [OF _ reactivated(3) [unfolded x] reactivated(4) reactivated(6)])
        (use keys in \<open>simp_all add: reactivate_def license_keys_ok_def\<close>)
    moreover have "serves s ?l"
      using mem(2) [OF reactivated(3)] plan_row_of_id [OF reactivated(2)] x by (simp add: serves_def reactivate_def)
    ultimately show ?thesis using reactivated mem(1) [OF best] by simp
  next
    case (issued x p db')
    have x: "x = s" by (rule sub [OF issued(1)])
    let ?l = "issued_license now i key (ls_user s) p (ls_id s)"
    have none: "\<forall>r\<in>set (licenses db). lc_user r \<noteq> ls_user s"
      using issued(3) x by (auto simp: best_license_def latest_None split: option.splits)
    then have "filter (\<lambda>r. lc_user r = ls_user s \<and> lc_status r = L_ACTIVE) (licenses db') = [?l]"
      using issued(5) x by (auto simp: filter_empty_conv issued_license_def)
    then have best: "best_license (ls_user s) db' = Some ?l" by (intro best_license_active latest_only)
    moreover have "serves s ?l" using plan_row_of_id [OF issued(2)] x by (simp add: serves_def issued_license_def)
    ultimately show ?thesis using issued x mem(1) [OF best] by simp
  next
    case failed
    with fresh show ?thesis by simp
  }
qed

section \<open>Properties\<close>


definition example_paid :: license_db where
  "example_paid = \<lparr>licenses = [], devices = [], activations = [], credentials = [], refresh_tokens = [], leases = [],
     nonces = [], license_events = [],
     license_plans = [\<lparr>lp_id = 3, lp_code = ''PRO'', lp_name = ''Pro'', lp_strategies = None, lp_max_devices = Some 2,
       lp_max_mt = Some 2\<rparr>],
     license_subs = [\<lparr>ls_id = 4, ls_user = 2, ls_plan = 3\<rparr>], license_users = [2]\<rparr>"


text \<open>
  Users cannot reach each other's devices: whatever other users request, a user's device rows, the
  licenses and the terminal activations of the user's devices stay exactly as they were.
\<close>

theorem tenants_isolated:
  assumes "distinct (map dv_id (devices db))" and "\<forall>req\<in>set reqs. fst (snd req) \<noteq> u"
    and "db' = run_requests (exec_user_licensing E) reqs db"
  shows "filter (\<lambda>d. dv_user d = u) (devices db') = filter (\<lambda>d. dv_user d = u) (devices db) \<and>
    licenses db' = licenses db \<and>
    filter (\<lambda>a. da_device a \<in> set (owned u db)) (activations db') =
    filter (\<lambda>a. da_device a \<in> set (owned u db)) (activations db)"
  using tenant_isolation.run_sel_leq [OF assms(2), of db E] assms(1,3) by (simp add: keeps_tenant_def)

definition example_tenants :: license_db where
  "example_tenants = example_paid\<lparr>devices := [blank_device 1 2 0, blank_device 5 6 0]\<rparr>"

theorem tenants_isolated_witness:
  "filter (\<lambda>d. dv_user d = 2) (devices (run_requests (exec_user_licensing
       \<lparr>ln_sha = (\<lambda>s. s), ln_uuid = (\<lambda>s. None), ln_num = (\<lambda>q. ''n''), ln_nat = (\<lambda>n. ''n'')\<rparr>)
     [(7, 6, DeviceHeartbeat 1 None None), (8, 6, DeviceHeartbeat 5 None None)] example_tenants)) = [blank_device 1 2 0]"
proof -
  have "distinct (map dv_id (devices example_tenants))" by (simp add: example_tenants_def blank_device_def)
  moreover have "\<forall>req\<in>set [(7, 6, DeviceHeartbeat 1 None None), (8, 6, DeviceHeartbeat 5 None None)].
      fst (snd req) \<noteq> (2::nat)" by simp
  ultimately have "filter (\<lambda>d. dv_user d = 2) (devices (run_requests (exec_user_licensing
       \<lparr>ln_sha = (\<lambda>s. s), ln_uuid = (\<lambda>s. None), ln_num = (\<lambda>q. ''n''), ln_nat = (\<lambda>n. ''n'')\<rparr>)
     [(7, 6, DeviceHeartbeat 1 None None), (8, 6, DeviceHeartbeat 5 None None)] example_tenants)) =
     filter (\<lambda>d. dv_user d = 2) (devices example_tenants)"
    by (intro tenants_isolated [OF _ _ refl, THEN conjunct1])
  also have "\<dots> = [blank_device 1 2 0]" by (simp add: example_tenants_def blank_device_def)
  finally show ?thesis .
qed

text \<open>
  A device has one active terminal: a successful registration leaves exactly one active activation
  row for the device, the returned one, and belongs to a device of the caller; a failed one leaves
  the device with at most the active rows it had.
\<close>

theorem one_active_terminal:
  "case registerTerminal sha now i u b db of
     (Inr a, db') \<Rightarrow>
       filter (\<lambda>x. da_device x = da_device a \<and> da_deactivated_at x = None) (activations db') = [a] \<and>
       (\<exists>r\<in>set (devices db). dv_id r = da_device a \<and> dv_user r = u)
   | (Inl e, db') \<Rightarrow>
       devices db' = devices db \<and> licenses db' = licenses db \<and>
       (\<forall>d. count_rows (\<lambda>x. da_device x = d \<and> da_deactivated_at x = None) (activations db') \<le>
            count_rows (\<lambda>x. da_device x = d \<and> da_deactivated_at x = None) (activations db))"
proof (cases rule: registerTerminal_cases [of sha now i u b db])
  case (deactivated d e)
  then show ?thesis by (auto simp: deactivate_terminals_def intro!: count_rows_update_le)
next
  case (registered d l)
  have "filter (\<lambda>x. da_device x = d \<and> da_deactivated_at x = None) (activations (deactivate_terminals now d db)) = []"
    by (auto simp: filter_empty_conv deactivate_terminals_def ball_update_rows in_update_rows)
  with registered terminal_device_owned [OF registered(1)] show ?thesis by (simp add: terminal_activation_def)
qed simp

text \<open>
  C23. The public validation admits a key exactly when the license exists, is active and not revoked,
  and the MetaTrader account, when one is given, is already activated on it, or there is room for
  another account and no other unrevoked license has it.
\<close>

theorem validate_key_exact:
  assumes "distinct (map lc_key (licenses db))"
  shows "validateLicenseKey key mt db = KeyValid l p \<longleftrightarrow>
    l \<in> set (licenses db) \<and> lc_key l = Some key \<and> lc_revoked_at l = None \<and> lc_status l = L_ACTIVE \<and>
    p = plan_row_of db (lc_plan l) \<and>
    (\<forall>m. or_null mt = Some m \<longrightarrow> activated_on (lc_id l) m db \<or>
       (int (distinct_logins (lc_id l) db) < lc_max_mt l \<and> \<not> bound_elsewhere (lc_id l) m db))"
proof -
  have look: "first_row (\<lambda>l. lc_key l = Some key \<and> lc_revoked_at l = None) (licenses db) = Some l \<longleftrightarrow>
      l \<in> set (licenses db) \<and> lc_key l = Some key \<and> lc_revoked_at l = None"
  proof
    assume l: "l \<in> set (licenses db) \<and> lc_key l = Some key \<and> lc_revoked_at l = None"
    then obtain x where x: "first_row (\<lambda>l. lc_key l = Some key \<and> lc_revoked_at l = None) (licenses db) = Some x"
      using first_row_None [of "\<lambda>l. lc_key l = Some key \<and> lc_revoked_at l = None" "licenses db"] by fastforce
    with l first_row_Some [OF x] key_unique [OF assms, of x l]
    show "first_row (\<lambda>l. lc_key l = Some key \<and> lc_revoked_at l = None) (licenses db) = Some l" by simp
  qed (use first_row_Some in fastforce)
  have "validateLicenseKey key mt db = KeyValid l p \<longleftrightarrow>
      first_row (\<lambda>l. lc_key l = Some key \<and> lc_revoked_at l = None) (licenses db) = Some l \<and> lc_status l = L_ACTIVE \<and>
      p = plan_row_of db (lc_plan l) \<and>
      (\<forall>m. or_null mt = Some m \<longrightarrow> activated_on (lc_id l) m db \<or>
         (int (distinct_logins (lc_id l) db) < lc_max_mt l \<and> \<not> bound_elsewhere (lc_id l) m db))"
    by (auto simp: validateLicenseKey_def split: option.splits if_splits)
  then show ?thesis unfolding look by blast
qed

definition example_keys :: license_db where
  "example_keys = example_paid\<lparr>licenses := [issued_license 0 9 ''k'' 2
     \<lparr>lp_id = 3, lp_code = ''PRO'', lp_name = ''Pro'', lp_strategies = None, lp_max_devices = Some 2, lp_max_mt = Some 2\<rparr> 4]\<rparr>"

theorem validate_key_exact_witness:
  "\<exists>l p. validateLicenseKey ''PAT-k'' (Some ''77'') example_keys = KeyValid l p"
proof -
  have "distinct (map lc_key (licenses example_keys))" by (simp add: example_keys_def)
  from validate_key_exact [OF this, of "''PAT-k''" "Some ''77''" "hd (licenses example_keys)"
      "plan_row_of example_keys (lc_plan (hd (licenses example_keys)))"]
  show ?thesis
    by (auto simp: example_keys_def issued_license_def example_paid_def activated_on_def distinct_logins_def
        bound_elsewhere_def coalesce_text_def)
qed

end
