(* ===== verification/CommissionEngine.thy ===== *)
theory CommissionEngine
  imports Decimals
begin

text \<open>
  The commission engine of \<^verbatim>\<open>control/src/modules/commissions/commission-engine.ts\<close>: the per-plan
  base rates and the per-purchase-type rules it holds in three maps, the two setters, the
  classification of a payment number and the calculation of the commissions of one payment along the
  sponsor chain. The lemmas characterise exactly which levels of the chain are paid and how much,
  and bound the total; the properties at the end are the ones the settlement flow relies on.
\<close>

section \<open>Data\<close>

datatype purchase_type = FIRST_PURCHASE | SECOND_PURCHASE | RECURRING_PURCHASE

datatype commercial_event =
    FREE_REGISTRATION | NEW_SUBSCRIPTION | RENEWAL | UPGRADE | DOWNGRADE
  | CANCELLATION | REACTIVATION | ADD_ON | REFUND | PARTIAL_REFUND
  | CHARGEBACK_EVENT | PAYMENT_FAILED

record commission_rule_snapshot =
  rs_planId :: uuid
  rs_level :: nat
  rs_baseRate :: rat
  rs_ruleVersion :: int

record purchase_rule_snapshot =
  ps_purchaseType :: purchase_type
  ps_multiplier :: rat
  ps_maxReferralLevel :: int
  ps_ruleVersion :: int

record commission_entry =
  recipientUserId :: uuid
  sourceUserId :: uuid
  sourceSubscriptionId :: "uuid option"
  purchaseId :: uuid
  invoiceId :: "uuid option"
  planId :: uuid
  planVersion :: int
  purchaseNumber :: int
  purchaseType :: purchase_type
  level :: nat
  baseCommissionRate :: rat
  purchaseMultiplier :: rat
  effectiveCommissionRate :: rat
  commissionableAmount :: rat
  commissionAmount :: rat
  currency :: string
  ruleSnapshot :: commission_rule_snapshot
  purchaseRuleSnapshot :: purchase_rule_snapshot
  createdAt :: time

text \<open>
  The sponsor chain is a JavaScript array indexed by level that may have holes (a missing level is
  \<^verbatim>\<open>undefined\<close>); the empty string the code passes for an absent subscription or invoice is
  \<open>None\<close>.
\<close>

record commission_input =
  in_planId :: uuid
  in_commissionableAmount :: rat
  in_paymentNumber :: int
  in_sponsorChain :: "uuid option list"
  in_sourceUserId :: uuid
  in_sourceSubscriptionId :: "uuid option"
  in_purchaseId :: uuid
  in_invoiceId :: "uuid option"
  in_eventType :: "commercial_event option"
  in_eligibleAmount :: "rat option"

record commission_result =
  commissions :: "commission_entry list"
  res_purchaseType :: purchase_type

record purchase_rule =
  multiplier :: rat
  maxReferralLevel :: int
  ruleVersion :: int

record commission_engine =
  baseRates :: "uuid \<rightharpoonup> rat list"
  purchaseRules :: "purchase_type \<rightharpoonup> purchase_rule"
  ruleVersions :: "uuid \<rightharpoonup> int"

section \<open>Operations\<close>

definition new_engine :: commission_engine where
  "new_engine = \<lparr>baseRates = Map.empty, purchaseRules = Map.empty, ruleVersions = Map.empty\<rparr>"

definition setBaseRates :: "uuid \<Rightarrow> rat list \<Rightarrow> commission_engine \<Rightarrow> commission_engine" where
  "setBaseRates pid rates eng =
     eng\<lparr>baseRates := (baseRates eng)(pid \<mapsto> rates),
         ruleVersions := (ruleVersions eng)(pid \<mapsto> 1)\<rparr>"

definition setPurchaseRule :: "purchase_type \<Rightarrow> rat \<Rightarrow> int \<Rightarrow> commission_engine \<Rightarrow> commission_engine" where
  "setPurchaseRule pt mult maxLvl eng =
     eng\<lparr>purchaseRules := (purchaseRules eng)
           (pt \<mapsto> \<lparr>multiplier = mult, maxReferralLevel = maxLvl, ruleVersion = 1\<rparr>)\<rparr>"

definition classifyPurchaseType :: "int \<Rightarrow> purchase_type" where
  "classifyPurchaseType paymentNumber =
     (if paymentNumber = 1 then FIRST_PURCHASE
      else if paymentNumber = 2 then SECOND_PURCHASE
      else RECURRING_PURCHASE)"

definition non_commissionable :: "commercial_event option \<Rightarrow> bool" where
  "non_commissionable ev \<longleftrightarrow>
     ev \<in> {Some FREE_REGISTRATION, Some REFUND, Some PARTIAL_REFUND, Some CHARGEBACK_EVENT,
           Some PAYMENT_FAILED, Some DOWNGRADE, Some CANCELLATION}"

text \<open>Reading an array at an index that may be out of range gives \<^verbatim>\<open>undefined\<close>.\<close>

definition js_nth :: "'a list \<Rightarrow> nat \<Rightarrow> 'a option" where
  "js_nth xs i = (if i < length xs then Some (xs ! i) else None)"

text \<open>One iteration of the loop over the levels; \<open>None\<close> is \<^verbatim>\<open>continue\<close>.\<close>

definition level_commission ::
  "decimal_ops \<Rightarrow> time \<Rightarrow> commission_input \<Rightarrow> rat \<Rightarrow> purchase_type \<Rightarrow> purchase_rule \<Rightarrow> rat list \<Rightarrow> int
   \<Rightarrow> nat \<Rightarrow> commission_entry option" where
  "level_commission D now inp amt pt rule rates version lvl =
     (case js_nth (in_sponsorChain inp) (lvl - 1) of
        Some (Some recipient) \<Rightarrow>
          (case js_nth rates (lvl - 1) of
             None \<Rightarrow> None
           | Some baseRate \<Rightarrow>
               if baseRate = 0 then None
               else
                 let effectiveRate = d_mul D baseRate (multiplier rule);
                     amount = d_toDP D 2 (d_mul D amt effectiveRate)
                 in if amount \<le> 0 then None
                    else Some
                      \<lparr>recipientUserId = recipient,
                       sourceUserId = in_sourceUserId inp,
                       sourceSubscriptionId = in_sourceSubscriptionId inp,
                       purchaseId = in_purchaseId inp,
                       invoiceId = in_invoiceId inp,
                       planId = in_planId inp,
                       planVersion = version,
                       purchaseNumber = in_paymentNumber inp,
                       purchaseType = pt,
                       level = lvl,
                       baseCommissionRate = baseRate,
                       purchaseMultiplier = multiplier rule,
                       effectiveCommissionRate = effectiveRate,
                       commissionableAmount = amt,
                       commissionAmount = amount,
                       currency = ''USD'',
                       ruleSnapshot =
                         \<lparr>rs_planId = in_planId inp, rs_level = lvl, rs_baseRate = baseRate,
                          rs_ruleVersion = version\<rparr>,
                       purchaseRuleSnapshot =
                         \<lparr>ps_purchaseType = pt, ps_multiplier = multiplier rule,
                          ps_maxReferralLevel = maxReferralLevel rule,
                          ps_ruleVersion = ruleVersion rule\<rparr>,
                       createdAt = now\<rparr>)
      | _ \<Rightarrow> None)"

definition maxLevel :: "purchase_rule \<Rightarrow> commission_input \<Rightarrow> nat" where
  "maxLevel rule inp =
     nat (min (min (maxReferralLevel rule) (int (length (in_sponsorChain inp)))) 5)"

definition calculate :: "decimal_ops \<Rightarrow> time \<Rightarrow> commission_engine \<Rightarrow> commission_input \<Rightarrow> commission_result" where
  "calculate D now eng inp =
     (let pt = classifyPurchaseType (in_paymentNumber inp);
          none = \<lparr>commissions = [], res_purchaseType = pt\<rparr>
      in if non_commissionable (in_eventType inp) then none
         else
           let amt = (case in_eligibleAmount inp of
                        Some a \<Rightarrow> a | None \<Rightarrow> in_commissionableAmount inp)
           in if amt \<le> 0 then none
              else
                (case purchaseRules eng pt of
                   None \<Rightarrow> none
                 | Some rule \<Rightarrow>
                     (case baseRates eng (in_planId inp) of
                        None \<Rightarrow> none
                      | Some rates \<Rightarrow>
                          let version = (case ruleVersions eng (in_planId inp) of
                                           Some v \<Rightarrow> (if v = 0 then 1 else v) | None \<Rightarrow> 1)
                          in \<lparr>commissions =
                                List.map_filter
                                  (level_commission D now inp amt pt rule rates version)
                                  [1..<Suc (maxLevel rule inp)],
                              res_purchaseType = pt\<rparr>)))"

section \<open>What a calculated entry looks like\<close>

lemma level_commission_Some:
  assumes "level_commission D now inp amt pt rule rates version lvl = Some c"
  shows "level c = lvl"
    and "js_nth (in_sponsorChain inp) (lvl - 1) = Some (Some (recipientUserId c))"
    and "js_nth rates (lvl - 1) = Some (baseCommissionRate c)"
    and "effectiveCommissionRate c = d_mul D (baseCommissionRate c) (multiplier rule)"
    and "commissionAmount c = d_toDP D 2 (d_mul D amt (effectiveCommissionRate c))"
    and "0 < commissionAmount c"
    and "purchaseType c = pt"
    and "purchaseId c = in_purchaseId inp"
  using assms
  by (auto simp: level_commission_def Let_def split: option.splits if_splits)

lemma level_commission_exists:
  assumes "js_nth (in_sponsorChain inp) (l - 1) = Some (Some u)"
    and "js_nth rates (l - 1) = Some r" and "r \<noteq> 0"
    and "0 < d_toDP D 2 (d_mul D amt (d_mul D r (multiplier rule)))"
  shows "\<exists>c. level_commission D now inp amt pt rule rates version l = Some c \<and> level c = l \<and>
             recipientUserId c = u \<and>
             commissionAmount c = d_toDP D 2 (d_mul D amt (d_mul D r (multiplier rule)))"
  using assms by (simp add: level_commission_def Let_def)

lemma set_map_filter: "set (List.map_filter f xs) = {y. \<exists>x\<in>set xs. f x = Some y}"
  by (force simp: List.map_filter_def)

lemma map_filter_cong_sorted:
  assumes "\<And>x y. f x = Some y \<Longrightarrow> g y = x" and "sorted_wrt (<) (xs :: nat list)"
  shows "sorted_wrt (<) (map g (List.map_filter f xs))"
  using assms(2)
proof (induction xs)
  case (Cons x xs)
  have "g y \<in> set xs" if "y \<in> set (List.map_filter f xs)" for y
    using that assms(1) by (auto simp: set_map_filter)
  with Cons assms(1) show ?case
    by (auto simp: map_filter_simps split: option.splits)
qed (simp add: map_filter_simps)

text \<open>
  The calculation is empty, or it runs the loop with the engine's rule and rates for the payment.
\<close>

lemma calculate_cases:
  assumes "commissions (calculate D now eng inp) \<noteq> []"
  obtains amt rule rates version where
    "\<not> non_commissionable (in_eventType inp)" "0 < amt"
    "amt = (case in_eligibleAmount inp of Some a \<Rightarrow> a | None \<Rightarrow> in_commissionableAmount inp)"
    "purchaseRules eng (classifyPurchaseType (in_paymentNumber inp)) = Some rule"
    "baseRates eng (in_planId inp) = Some rates"
    "commissions (calculate D now eng inp) =
       List.map_filter (level_commission D now inp amt
         (classifyPurchaseType (in_paymentNumber inp)) rule rates version)
         [1..<Suc (maxLevel rule inp)]"
proof -
  let ?pt = "classifyPurchaseType (in_paymentNumber inp)"
  let ?amt = "case in_eligibleAmount inp of Some a \<Rightarrow> a | None \<Rightarrow> in_commissionableAmount inp"
  have nc: "\<not> non_commissionable (in_eventType inp)"
    using assms by (auto simp: calculate_def Let_def)
  have pos: "0 < ?amt"
    using assms nc by (auto simp: calculate_def Let_def split: if_splits)
  obtain rule where rule: "purchaseRules eng ?pt = Some rule"
    using assms nc pos by (cases "purchaseRules eng ?pt") (auto simp: calculate_def Let_def)
  obtain rates where rates: "baseRates eng (in_planId inp) = Some rates"
    using assms nc pos rule by (cases "baseRates eng (in_planId inp)") (auto simp: calculate_def Let_def)
  show ?thesis
    by (rule that [OF nc pos refl rule rates])
      (use nc pos rule rates in \<open>simp add: calculate_def Let_def not_le\<close>)
qed

lemma maxLevel_le: "maxLevel rule inp \<le> 5" "maxLevel rule inp \<le> length (in_sponsorChain inp)"
  "0 < maxLevel rule inp \<Longrightarrow> int (maxLevel rule inp) \<le> maxReferralLevel rule"
  by (auto simp: maxLevel_def)

lemma calculate_levels:
  "sorted_wrt (<) (map level (commissions (calculate D now eng inp)))"
proof (cases "commissions (calculate D now eng inp) = []")
  case False
  then show ?thesis
    by (elim calculate_cases) (auto intro!: map_filter_cong_sorted dest: level_commission_Some(1)
        simp del: upt_Suc)
qed simp

lemma calculate_entry:
  assumes "c \<in> set (commissions (calculate D now eng inp))"
    and "purchaseRules eng (classifyPurchaseType (in_paymentNumber inp)) = Some rule"
    and "baseRates eng (in_planId inp) = Some rates"
  shows "1 \<le> level c" and "level c \<le> 5" and "int (level c) \<le> maxReferralLevel rule"
    and "level c \<le> length (in_sponsorChain inp)"
    and "in_sponsorChain inp ! (level c - 1) = Some (recipientUserId c)"
    and "level c \<le> length rates" and "rates ! (level c - 1) = baseCommissionRate c"
    and "commissionAmount c = d_toDP D 2 (d_mul D
          (case in_eligibleAmount inp of Some a \<Rightarrow> a | None \<Rightarrow> in_commissionableAmount inp)
          (d_mul D (baseCommissionRate c) (multiplier rule)))"
    and "0 < commissionAmount c"
proof -
  from assms(1) have ne: "commissions (calculate D now eng inp) \<noteq> []" by auto
  then obtain amt version where
    amt: "amt = (case in_eligibleAmount inp of Some a \<Rightarrow> a | None \<Rightarrow> in_commissionableAmount inp)" and
    eq: "commissions (calculate D now eng inp) =
       List.map_filter (level_commission D now inp amt
         (classifyPurchaseType (in_paymentNumber inp)) rule rates version)
         [1..<Suc (maxLevel rule inp)]"
    using assms(2,3) by (elim calculate_cases) auto
  then obtain lvl where lvl: "lvl \<in> {1..<Suc (maxLevel rule inp)}" and
    lc: "level_commission D now inp amt (classifyPurchaseType (in_paymentNumber inp)) rule rates
           version lvl = Some c"
    using assms(1) by (auto simp: set_map_filter simp del: upt_Suc)
  note facts = level_commission_Some [OF lc]
  have "lvl \<le> 5" "lvl \<le> length (in_sponsorChain inp)" "int lvl \<le> maxReferralLevel rule" "1 \<le> lvl"
    using lvl maxLevel_le [of rule inp] by auto
  then show "1 \<le> level c" "level c \<le> 5" "int (level c) \<le> maxReferralLevel rule"
    "level c \<le> length (in_sponsorChain inp)" by (simp_all add: facts(1))
  show "in_sponsorChain inp ! (level c - 1) = Some (recipientUserId c)"
    using facts(1,2) by (auto simp: js_nth_def split: if_splits)
  show "level c \<le> length rates" "rates ! (level c - 1) = baseCommissionRate c"
    using facts(1,3) \<open>1 \<le> lvl\<close> by (auto simp: js_nth_def split: if_splits)
  show "commissionAmount c = d_toDP D 2 (d_mul D
          (case in_eligibleAmount inp of Some a \<Rightarrow> a | None \<Rightarrow> in_commissionableAmount inp)
          (d_mul D (baseCommissionRate c) (multiplier rule)))" "0 < commissionAmount c"
    using facts(4,5,6) amt by simp_all
qed

section \<open>The total paid for one payment\<close>

lemma sum_map_filter_le:
  fixes h :: "'b \<Rightarrow> rat"
  assumes "\<And>x y. x \<in> set xs \<Longrightarrow> f x = Some y \<Longrightarrow> h y \<le> g x" and "\<And>x. x \<in> set xs \<Longrightarrow> 0 \<le> g x"
  shows "sum_list (map h (List.map_filter f xs)) \<le> sum_list (map g xs)"
  using assms
proof (induction xs)
  case (Cons x xs)
  then have IH: "sum_list (map h (List.map_filter f xs)) \<le> sum_list (map g xs)" by simp
  show ?case
  proof (cases "f x")
    case None
    with IH Cons.prems(2) [of x] show ?thesis by (simp add: map_filter_simps)
  next
    case (Some y)
    with IH Cons.prems(1) [of x y] show ?thesis by (simp add: map_filter_simps add_mono)
  qed
qed (simp add: map_filter_simps)

lemma sum_levels_take:
  fixes g :: "rat \<Rightarrow> rat"
  shows "sum_list (map (\<lambda>l. case js_nth xs (l - 1) of None \<Rightarrow> 0 | Some r \<Rightarrow> g r) [1..<Suc m])
         = sum_list (map g (take m xs))"
proof (induction m)
  case (Suc m)
  then show ?case
    by (cases "m < length xs") (simp_all add: js_nth_def take_Suc_conv_app_nth)
qed simp

lemma sum_take_mono:
  fixes g :: "'a \<Rightarrow> rat"
  assumes "m \<le> n" and "\<And>x. x \<in> set xs \<Longrightarrow> 0 \<le> g x"
  shows "sum_list (map g (take m xs)) \<le> sum_list (map g (take n xs))"
proof -
  have "take n xs = take m xs @ take (n - m) (drop m xs)"
    using assms(1) by (metis le_add_diff_inverse take_add)
  moreover have "0 \<le> sum_list (map g (take (n - m) (drop m xs)))"
    using assms(2) by (intro sum_list_nonneg) (auto dest!: in_set_takeD in_set_dropD)
  ultimately show ?thesis by simp
qed

lemma sum_affine_le:
  fixes k :: rat
  assumes "0 \<le> d" and "length xs \<le> n"
  shows "sum_list (map (\<lambda>r. k * r + d) xs) \<le> k * sum_list xs + of_nat n * d"
proof -
  have "sum_list (map (\<lambda>r. k * r + d) xs) = k * sum_list xs + of_nat (length xs) * d"
    by (induction xs) (simp_all add: algebra_simps)
  moreover have "of_nat (length xs) * d \<le> of_nat n * d"
    using assms by (intro mult_right_mono) simp_all
  ultimately show ?thesis by simp
qed

context decimal_arith
begin

lemma level_commission_le:
  assumes "level_commission D now inp amt pt rule rates version lvl = Some c"
    and "0 \<le> amt" and "0 \<le> multiplier rule" and "\<And>r. r \<in> set rates \<Longrightarrow> 0 \<le> r"
  shows "\<exists>r. js_nth rates (lvl - 1) = Some r \<and>
             commissionAmount c \<le> amt * multiplier rule * (1 + mul_eps)\<^sup>2 * r + 1 / 200"
proof -
  let ?r = "baseCommissionRate c" and ?m = "multiplier rule"
  have r: "js_nth rates (lvl - 1) = Some ?r" by (rule level_commission_Some(3) [OF assms(1)])
  then have "?r \<in> set rates" by (auto simp: js_nth_def split: if_splits intro: nth_mem dest: sym)
  then have nn: "0 \<le> ?r" by (rule assms(4))
  have "d_mul D ?r ?m \<le> ?r * ?m * (1 + mul_eps)" using nn assms(3) by (rule mul_upper)
  moreover have "0 \<le> d_mul D ?r ?m" using nn assms(3) by (rule mul_nonneg)
  ultimately have "amt * d_mul D ?r ?m * (1 + mul_eps) \<le> amt * (?r * ?m * (1 + mul_eps)) * (1 + mul_eps)"
    using assms(2) mul_eps_bounds by (intro mult_right_mono mult_left_mono) simp_all
  moreover have "d_mul D amt (d_mul D ?r ?m) \<le> amt * d_mul D ?r ?m * (1 + mul_eps)"
    using assms(2) \<open>0 \<le> d_mul D ?r ?m\<close> by (rule mul_upper)
  moreover have "commissionAmount c \<le> d_mul D amt (d_mul D ?r ?m) + 1 / 200"
    using toDP_upper [of 2 "d_mul D amt (d_mul D ?r ?m)"] level_commission_Some(4,5) [OF assms(1)]
    by simp
  ultimately show ?thesis using r by (intro exI [of _ ?r]) (simp add: power2_eq_square algebra_simps)
qed

lemma calculate_total_le:
  assumes rule: "purchaseRules eng (classifyPurchaseType (in_paymentNumber inp)) = Some rule"
    and rates: "baseRates eng (in_planId inp) = Some rates"
    and amt: "amt = (case in_eligibleAmount inp of Some a \<Rightarrow> a | None \<Rightarrow> in_commissionableAmount inp)"
    and pos: "0 \<le> amt" "0 \<le> multiplier rule" "\<And>r. r \<in> set rates \<Longrightarrow> 0 \<le> r"
  shows "sum_list (map commissionAmount (commissions (calculate D now eng inp)))
         \<le> amt * multiplier rule * (1 + mul_eps)\<^sup>2 * sum_list (take 5 rates) + 5 / 200"
proof -
  let ?k = "amt * multiplier rule * (1 + mul_eps)\<^sup>2"
  let ?g = "\<lambda>r :: rat. ?k * r + 1 / 200"
  have k: "0 \<le> ?k" using pos by simp
  have gpos: "0 \<le> ?g r" if "r \<in> set rates" for r using k pos(3) [OF that] by simp
  have bound: "sum_list (map ?g (take m rates)) \<le> ?k * sum_list (take 5 rates) + 5 / 200" if "m \<le> 5" for m
    using sum_take_mono [OF that, of rates ?g] sum_affine_le [of "1/200" "take 5 rates" 5 ?k] gpos
    by simp
  show ?thesis
  proof (cases "commissions (calculate D now eng inp) = []")
    case True
    then show ?thesis using bound [of 0] by simp
  next
    case False
    then obtain version where eq: "commissions (calculate D now eng inp) =
       List.map_filter (level_commission D now inp amt
         (classifyPurchaseType (in_paymentNumber inp)) rule rates version)
         [1..<Suc (maxLevel rule inp)]"
      using rule rates amt by (elim calculate_cases) auto
    have "sum_list (map commissionAmount (commissions (calculate D now eng inp)))
          \<le> sum_list (map (\<lambda>l. case js_nth rates (l - 1) of None \<Rightarrow> 0 | Some r \<Rightarrow> ?g r)
               [1..<Suc (maxLevel rule inp)])"
      unfolding eq
    proof (rule sum_map_filter_le)
      fix l assume "l \<in> set [1..<Suc (maxLevel rule inp)]"
      show "0 \<le> (case js_nth rates (l - 1) of None \<Rightarrow> 0 | Some r \<Rightarrow> ?g r)"
        using gpos by (auto simp: js_nth_def)
    qed (use level_commission_le pos in fastforce)
    also have "\<dots> = sum_list (map ?g (take (maxLevel rule inp) rates))" by (rule sum_levels_take)
    also have "\<dots> \<le> ?k * sum_list (take 5 rates) + 5 / 200" by (rule bound) (rule maxLevel_le)
    finally show ?thesis .
  qed
qed

end

section \<open>Properties\<close>

text \<open>
  The seeded rules of the platform (\<^verbatim>\<open>database/migrations/004\<close>) as an engine, and a first payment
  by a user with three sponsors: the concrete input of the witnesses.
\<close>

definition seeded_engine :: commission_engine where
  "seeded_engine =
     setPurchaseRule RECURRING_PURCHASE (1 / 2) 5
       (setPurchaseRule SECOND_PURCHASE (3 / 4) 1
         (setPurchaseRule FIRST_PURCHASE 1 5
           (setBaseRates 7 [15 / 100, 5 / 100, 3 / 100, 2 / 100, 1 / 100] new_engine)))"

definition example_payment :: "int \<Rightarrow> commission_input" where
  "example_payment n =
     \<lparr>in_planId = 7, in_commissionableAmount = 9999 / 100, in_paymentNumber = n,
      in_sponsorChain = [Some 11, Some 12, Some 13], in_sourceUserId = 20,
      in_sourceSubscriptionId = None, in_purchaseId = 30, in_invoiceId = None,
      in_eventType = Some NEW_SUBSCRIPTION, in_eligibleAmount = None\<rparr>"

text \<open>
  C1. For a commissionable event with a positive amount, a level of the sponsor chain is paid
  exactly when it lies within the rule's depth, within five levels and within the chain, has a
  sponsor and a non-zero base rate, and its commission rounds to at least a cent; the entry pays
  that sponsor, and its amount is the amount times the base rate times the multiplier, rounded to
  cents. Levels are listed in strictly increasing order, so no level is paid twice.
\<close>

theorem calculate_pays_exactly:
  assumes "\<not> non_commissionable (in_eventType inp)"
    and "amt = (case in_eligibleAmount inp of Some a \<Rightarrow> a | None \<Rightarrow> in_commissionableAmount inp)"
    and "0 < amt"
    and "purchaseRules eng (classifyPurchaseType (in_paymentNumber inp)) = Some rule"
    and "baseRates eng (in_planId inp) = Some rates"
  shows "((\<exists>c\<in>set (commissions (calculate D now eng inp)).
             level c = l \<and> recipientUserId c = u \<and> commissionAmount c = a) \<longleftrightarrow>
         (1 \<le> l \<and> l \<le> 5 \<and> int l \<le> maxReferralLevel rule \<and> l \<le> length (in_sponsorChain inp) \<and>
          in_sponsorChain inp ! (l - 1) = Some u \<and>
          l \<le> length rates \<and> rates ! (l - 1) \<noteq> 0 \<and>
          a = d_toDP D 2 (d_mul D amt (d_mul D (rates ! (l - 1)) (multiplier rule))) \<and> 0 < a))
         \<and> sorted_wrt (<) (map level (commissions (calculate D now eng inp)))"
    (is "(?paid \<longleftrightarrow> ?spec) \<and> ?sorted")
proof -
  define version where
    "version = (case ruleVersions eng (in_planId inp) of Some v \<Rightarrow> (if v = 0 then 1 else v) | None \<Rightarrow> 1)"
  let ?pt = "classifyPurchaseType (in_paymentNumber inp)"
  have eq: "commissions (calculate D now eng inp) =
       List.map_filter (level_commission D now inp amt ?pt rule rates version)
         [1..<Suc (maxLevel rule inp)]"
    using assms by (simp add: calculate_def Let_def version_def)
  have "?paid \<longleftrightarrow> ?spec"
  proof
    assume ?paid
    then obtain c where c: "c \<in> set (commissions (calculate D now eng inp))"
      "level c = l" "recipientUserId c = u" "commissionAmount c = a" by auto
    then obtain l' where "level_commission D now inp amt ?pt rule rates version l' = Some c"
      by (auto simp: eq set_map_filter simp del: upt_Suc)
    then have "baseCommissionRate c \<noteq> 0"
      by (auto simp: level_commission_def Let_def split: option.splits if_splits)
    with calculate_entry [OF c(1) assms(4,5)] c(2,3,4) assms(2) show ?spec by simp
  next
    assume spec: ?spec
    then have "l \<in> set [1..<Suc (maxLevel rule inp)]" by (auto simp: maxLevel_def)
    moreover from spec have "\<exists>c. level_commission D now inp amt ?pt rule rates version l = Some c \<and>
        level c = l \<and> recipientUserId c = u \<and>
        commissionAmount c = d_toDP D 2 (d_mul D amt (d_mul D (rates ! (l - 1)) (multiplier rule)))"
      by (intro level_commission_exists) (auto simp: js_nth_def)
    ultimately show ?paid using spec unfolding eq set_map_filter by blast
  qed
  then show ?thesis using calculate_levels by blast
qed

theorem calculate_pays_exactly_witness:
  "(\<exists>c\<in>set (commissions (calculate dec20 0 seeded_engine (example_payment 1))).
      level c = 2 \<and> recipientUserId c = 12 \<and> commissionAmount c = 5)"
proof -
  have h: "\<not> non_commissionable (in_eventType (example_payment 1))"
    "(9999 / 100 :: rat) = (case in_eligibleAmount (example_payment 1) of Some a \<Rightarrow> a
        | None \<Rightarrow> in_commissionableAmount (example_payment 1))"
    "(0 :: rat) < 9999 / 100"
    "purchaseRules seeded_engine (classifyPurchaseType (in_paymentNumber (example_payment 1)))
       = Some \<lparr>multiplier = 1, maxReferralLevel = 5, ruleVersion = 1\<rparr>"
    "baseRates seeded_engine (in_planId (example_payment 1))
       = Some [15 / 100, 5 / 100, 3 / 100, 2 / 100, 1 / 100]"
    by code_simp+
  have "d_toDP dec20 2 (d_mul dec20 (9999 / 100) (d_mul dec20 (5 / 100) 1)) = 5" by code_simp
  then show ?thesis
    using calculate_pays_exactly [OF h, of dec20 0 2 12 5] by (simp add: example_payment_def)
qed

text \<open>
  The second payment of a subscriber pays the direct sponsor only: with the SECOND\_PURCHASE rule
  of depth one, the result has at most one entry, at level one, for the first user of the chain.
\<close>

theorem second_payment_L1_only:
  assumes "in_paymentNumber inp = 2"
    and "purchaseRules eng SECOND_PURCHASE = Some rule" and "maxReferralLevel rule = 1"
  shows "length (commissions (calculate D now eng inp)) \<le> 1 \<and>
         (\<forall>c\<in>set (commissions (calculate D now eng inp)).
            level c = 1 \<and> hd (in_sponsorChain inp) = Some (recipientUserId c))"
proof -
  let ?cs = "commissions (calculate D now eng inp)"
  have pt: "classifyPurchaseType (in_paymentNumber inp) = SECOND_PURCHASE"
    by (simp add: assms(1) classifyPurchaseType_def)
  have one: "level c = 1 \<and> hd (in_sponsorChain inp) = Some (recipientUserId c)" if "c \<in> set ?cs" for c
  proof -
    from that have "?cs \<noteq> []" by auto
    then obtain rates where rates: "baseRates eng (in_planId inp) = Some rates"
      by (elim calculate_cases) auto
    note entry = calculate_entry [OF that, unfolded pt, OF assms(2) rates]
    from entry(1,3) assms(3) have "level c = 1" by simp
    moreover from entry(4) this have "in_sponsorChain inp \<noteq> []" by auto
    ultimately show ?thesis using entry(5) by (simp add: hd_conv_nth)
  qed
  have "map level ?cs = replicate (length ?cs) 1"
    using one by (intro replicate_eqI) (auto)
  then have "sorted_wrt (<) (replicate (length ?cs) (1 :: nat))"
    using calculate_levels [of D now eng inp] by simp
  then have "distinct (replicate (length ?cs) (1 :: nat))" by (simp add: strict_sorted_iff)
  then have "card (set (replicate (length ?cs) (1 :: nat))) = length ?cs"
    using distinct_card by fastforce
  moreover have "card (set (replicate (length ?cs) (1 :: nat))) \<le> card {1 :: nat}"
    by (rule card_mono) auto
  ultimately have "length ?cs \<le> 1" by simp
  with one show ?thesis by blast
qed

theorem second_payment_L1_only_witness:
  "length (commissions (calculate dec20 0 seeded_engine (example_payment 2))) \<le> 1 \<and>
   commissionAmount (hd (commissions (calculate dec20 0 seeded_engine (example_payment 2)))) = 1125 / 100"
proof -
  have h: "in_paymentNumber (example_payment 2) = 2"
    "purchaseRules seeded_engine SECOND_PURCHASE
       = Some \<lparr>multiplier = 3 / 4, maxReferralLevel = 1, ruleVersion = 1\<rparr>"
    "maxReferralLevel \<lparr>multiplier = 3 / 4, maxReferralLevel = 1, ruleVersion = 1\<rparr> = 1"
    by code_simp+
  have "commissionAmount (hd (commissions (calculate dec20 0 seeded_engine (example_payment 2))))
        = 1125 / 100" by code_simp
  then show ?thesis using second_payment_L1_only [OF h, of dec20 0] by blast
qed

text \<open>
  The commissions of one payment never exceed the amount times the multiplier times the sum of the
  plan's five rates, up to the rounding of the five amounts to cents and the relative error of
  twenty-digit arithmetic, whatever the length of the chain.
\<close>

theorem calculate_total_bounded:
  assumes "decimal_arith D"
    and "purchaseRules eng (classifyPurchaseType (in_paymentNumber inp)) = Some rule"
    and "baseRates eng (in_planId inp) = Some rates"
    and "amt = (case in_eligibleAmount inp of Some a \<Rightarrow> a | None \<Rightarrow> in_commissionableAmount inp)"
    and "0 \<le> amt" and "0 \<le> multiplier rule" and "\<forall>r\<in>set rates. 0 \<le> r"
  shows "sum_list (map commissionAmount (commissions (calculate D now eng inp)))
         \<le> amt * multiplier rule * (1 + mul_eps)\<^sup>2 * sum_list (take 5 rates) + 5 / 200"
  by (rule decimal_arith.calculate_total_le [OF assms(1-6)]) (use assms(7) in blast)

theorem calculate_total_bounded_witness:
  "sum_list (map commissionAmount (commissions (calculate dec20 0 seeded_engine (example_payment 1))))
   \<le> 9999 / 100 * 1 * (1 + mul_eps)\<^sup>2 * (26 / 100) + 5 / 200"
proof -
  have h: "purchaseRules seeded_engine (classifyPurchaseType (in_paymentNumber (example_payment 1)))
       = Some \<lparr>multiplier = 1, maxReferralLevel = 5, ruleVersion = 1\<rparr>"
    "baseRates seeded_engine (in_planId (example_payment 1))
       = Some [15 / 100, 5 / 100, 3 / 100, 2 / 100, 1 / 100]"
    "(9999 / 100 :: rat) = (case in_eligibleAmount (example_payment 1) of Some a \<Rightarrow> a
        | None \<Rightarrow> in_commissionableAmount (example_payment 1))"
    by code_simp+
  show ?thesis
    using calculate_total_bounded [OF dec20.decimal_arith_axioms h, of 0] by simp
qed

end
