(* ===== verification/ReferralTables.thy ===== *)
theory ReferralTables
  imports CommissionEngine
begin

text \<open>
  The tables of the schemas \<^verbatim>\<open>referral\<close> and \<^verbatim>\<open>finance\<close> (with the columns of \<^verbatim>\<open>control.plans\<close> the
  referral services read) and the statements on them that the commission service
  (\<^verbatim>\<open>commissions.service.ts\<close>) and the payout service (\<^verbatim>\<open>payouts.service.ts\<close>) share: the wallet
  upsert, the movement of an amount between two wallet buckets, and the guarded insert into the
  commission ledger with its two unique indexes (\<^verbatim>\<open>idx_commission_v3_idempotency\<close> of migration 024
  and \<^verbatim>\<open>idx_commission_dedup\<close> of migration 004). The amounts of the DECIMAL columns are rationals and
  their arithmetic in SQL is exact. The locale \<open>wallet_store\<close> is what both services rely on.
\<close>

section \<open>Rows\<close>

datatype commission_status =
    PENDING | CLEARED | RESERVED | AVAILABLE | PAID | CANCELLED | REVERSED | CHARGEBACK | FRAUD_HOLD

datatype bucket =
    pending_balance | cleared_balance | available_balance | paid_balance | reversed_balance
  | on_hold_balance

datatype idem_key = LicenseKey uuid | RevenueKey uuid

record commission_row =
  cl_id :: uuid
  cl_recipient :: uuid
  cl_source :: uuid
  cl_source_subscription :: "uuid option"
  cl_purchase_id :: uuid
  cl_invoice_id :: "uuid option"
  cl_plan_id :: uuid
  cl_plan_version :: int
  cl_purchase_number :: int
  cl_purchase_type :: purchase_type
  cl_level :: nat
  cl_base_rate :: rat
  cl_multiplier :: rat
  cl_effective_rate :: rat
  cl_commissionable :: rat
  cl_amount :: rat
  cl_currency :: string
  cl_status :: commission_status
  cl_rule_id :: "uuid option"
  cl_purchase_rule_id :: uuid
  cl_idempotency_key :: "idem_key option"
  cl_cleared_at :: "time option"
  cl_available_at :: "time option"
  cl_paid_at :: "time option"
  cl_reversed_at :: "time option"
  cl_reversal_reason :: "string option"
  cl_reversed_by :: "uuid option"
  cl_created_at :: time
  cl_updated_at :: time

record wallet_row =
  w_user :: uuid
  w_currency :: string
  w_balance :: "bucket \<Rightarrow> rat"
  w_updated_at :: time

datatype adjustment_type = REVERSAL | PARTIAL_REVERSAL | MANUAL_ADJUSTMENT

record adjustment_row =
  adj_commission :: uuid
  adj_type :: adjustment_type
  adj_amount :: rat
  adj_currency :: string
  adj_reason :: "string option"
  adj_by :: uuid
  adj_created_at :: time

record relationship_row =
  rel_child :: uuid
  rel_parent :: uuid
  rel_level :: nat

record ref_plan_row =
  rp_id :: uuid
  rp_code :: string

record commission_rule_row =
  cr_id :: uuid
  cr_plan :: uuid
  cr_level :: nat
  cr_base_rate :: rat
  cr_active :: bool
  cr_effective_from :: time
  cr_effective_until :: "time option"

record purchase_rule_row =
  pr_id :: uuid
  pr_type :: purchase_type
  pr_multiplier :: rat
  pr_max_level :: int
  pr_active :: bool
  pr_effective_from :: time
  pr_effective_until :: "time option"

datatype referral_event_type = FREE_REFERRAL_NO_COMMISSION | PAID_CONVERSION

record referral_event_row =
  ev_type :: referral_event_type
  ev_referred :: uuid
  ev_referrer :: "uuid option"
  ev_payment :: uuid
  ev_created_at :: time

datatype payout_status =
    REQUESTED | UNDER_REVIEW | APPROVED | PROCESSING | PO_PAID | FAILED | PO_CANCELLED | REJECTED

record payout_row =
  po_id :: uuid
  po_user :: uuid
  po_requested :: rat
  po_approved :: rat
  po_currency :: string
  po_status :: payout_status
  po_method :: string
  po_destination :: string
  po_details :: "string \<rightharpoonup> string"
  po_idempotency_key :: "string option"
  po_reason :: "string option"
  po_provider_reference :: "string option"
  po_fee :: decimal
  po_net :: decimal
  po_approved_by :: "uuid option"
  po_reviewed_at :: "time option"
  po_approved_at :: "time option"
  po_processed_at :: "time option"
  po_paid_at :: "time option"
  po_cancelled_at :: "time option"
  po_created_at :: time

record payout_item_row =
  pi_payout :: uuid
  pi_commission :: uuid
  pi_amount :: rat

record finance_entry_row =
  fe_user :: uuid
  fe_amount :: decimal
  fe_currency :: string
  fe_payout :: uuid
  fe_provider_reference :: "string option"

record referral_db =
  relationships :: "relationship_row list"
  ref_plans :: "ref_plan_row list"
  commission_rules :: "commission_rule_row list"
  purchase_commission_rules :: "purchase_rule_row list"
  commission_ledger :: "commission_row list"
  affiliate_wallets :: "wallet_row list"
  commission_adjustments :: "adjustment_row list"
  referral_events :: "referral_event_row list"
  payouts :: "payout_row list"
  payout_items :: "payout_item_row list"
  finance_entries :: "finance_entry_row list"

section \<open>Wallet statements\<close>

text \<open>\<^verbatim>\<open>INSERT INTO affiliate_wallets (user_id, currency) ... ON CONFLICT DO NOTHING\<close>\<close>

definition ensure_wallet :: "time \<Rightarrow> uuid \<Rightarrow> string \<Rightarrow> wallet_row list \<Rightarrow> wallet_row list" where
  "ensure_wallet now u c ws =
     (if exists_row (\<lambda>w. w_user w = u \<and> w_currency w = c) ws then ws
      else ws @ [\<lparr>w_user = u, w_currency = c, w_balance = (\<lambda>_. 0), w_updated_at = now\<rparr>])"

text \<open>
  \<^verbatim>\<open>UPDATE affiliate_wallets SET src = src - $1 [, dst = dst + $1], updated_at = now()\<close>
  \<^verbatim>\<open>WHERE user_id = $2 AND currency = $3\<close>: the second assignment is only made for another bucket.
\<close>

definition move_amount ::
  "time \<Rightarrow> uuid \<Rightarrow> string \<Rightarrow> bucket \<Rightarrow> bucket \<Rightarrow> rat \<Rightarrow> wallet_row list \<Rightarrow> wallet_row list" where
  "move_amount now u c src dst amt =
     update_rows (\<lambda>w. w_user w = u \<and> w_currency w = c)
       (\<lambda>w. w\<lparr>w_balance :=
               (if dst = src then (w_balance w)(src := w_balance w src - amt)
                else (w_balance w)(src := w_balance w src - amt, dst := w_balance w dst + amt)),
             w_updated_at := now\<rparr>)"

definition add_amount ::
  "time \<Rightarrow> uuid \<Rightarrow> string \<Rightarrow> bucket \<Rightarrow> rat \<Rightarrow> wallet_row list \<Rightarrow> wallet_row list" where
  "add_amount now u c b amt =
     update_rows (\<lambda>w. w_user w = u \<and> w_currency w = c)
       (\<lambda>w. w\<lparr>w_balance := (w_balance w)(b := w_balance w b + amt), w_updated_at := now\<rparr>)"

text \<open>The balance of a bucket as the service reads it; no wallet counts as zero.\<close>

definition balance :: "wallet_row list \<Rightarrow> uuid \<Rightarrow> string \<Rightarrow> bucket \<Rightarrow> rat" where
  "balance ws u c b =
     (case first_row (\<lambda>w. w_user w = u \<and> w_currency w = c) ws of None \<Rightarrow> 0 | Some w \<Rightarrow> w_balance w b)"

definition wallet_total :: "wallet_row list \<Rightarrow> uuid \<Rightarrow> string \<Rightarrow> rat" where
  "wallet_total ws u c =
     balance ws u c pending_balance + balance ws u c cleared_balance + balance ws u c available_balance +
     balance ws u c paid_balance + balance ws u c reversed_balance + balance ws u c on_hold_balance"

definition has_wallet :: "wallet_row list \<Rightarrow> uuid \<Rightarrow> string \<Rightarrow> bool" where
  "has_wallet ws u c = exists_row (\<lambda>w. w_user w = u \<and> w_currency w = c) ws"

lemma balance_append_new:
  assumes "\<not> has_wallet ws (w_user w) (w_currency w)" and "w_balance w = (\<lambda>_. 0)"
  shows "balance (ws @ [w]) u c b = balance ws u c b"
  using assms by (cases "first_row (\<lambda>w. w_user w = u \<and> w_currency w = c) ws")
    (auto simp: balance_def first_row_append)

lemma balance_ensure_wallet [simp]: "balance (ensure_wallet now u c ws) u' c' b = balance ws u' c' b"
proof (cases "has_wallet ws u c")
  case True
  then show ?thesis by (simp add: ensure_wallet_def has_wallet_def)
next
  case False
  then show ?thesis by (simp add: ensure_wallet_def has_wallet_def balance_append_new)
qed

lemma has_wallet_ensure [simp]: "has_wallet (ensure_wallet now u c ws) u c"
  by (auto simp: has_wallet_def ensure_wallet_def)

lemma has_wallet_ensure_mono: "has_wallet ws u' c' \<Longrightarrow> has_wallet (ensure_wallet now u c ws) u' c'"
  by (auto simp: has_wallet_def ensure_wallet_def)

lemma first_row_update_same_key:
  assumes "\<And>r. p (f r) = p r"
  shows "first_row p (update_rows p f t) = map_option f (first_row p t)"
  using assms by (induction t) auto

lemma first_row_update_other_key:
  assumes "\<And>r. p r \<Longrightarrow> \<not> q r" and "\<And>r. p r \<Longrightarrow> \<not> q (f r)"
  shows "first_row q (update_rows p f t) = first_row q t"
  using assms by (induction t) auto

lemma first_row_wallet_iff:
  "first_row (\<lambda>w. w_user w = u \<and> w_currency w = c) ws \<noteq> None \<longleftrightarrow> has_wallet ws u c"
  by (auto simp: first_row_None has_wallet_def list_ex_iff)

lemma balance_update_wallet:
  assumes "\<And>w. w_user (f w) = w_user w" and "\<And>w. w_currency (f w) = w_currency w"
  shows "balance (update_rows (\<lambda>w. w_user w = u \<and> w_currency w = c) f ws) u' c' b =
         (if u' = u \<and> c' = c
          then case first_row (\<lambda>w. w_user w = u \<and> w_currency w = c) ws of
                 None \<Rightarrow> 0 | Some w \<Rightarrow> w_balance (f w) b
          else balance ws u' c' b)"
proof (cases "u' = u \<and> c' = c")
  case True
  have "first_row (\<lambda>w. w_user w = u \<and> w_currency w = c)
          (update_rows (\<lambda>w. w_user w = u \<and> w_currency w = c) f ws) =
        map_option f (first_row (\<lambda>w. w_user w = u \<and> w_currency w = c) ws)"
    by (rule first_row_update_same_key) (simp add: assms)
  with True show ?thesis by (simp add: balance_def split: option.split)
next
  case False
  then have "first_row (\<lambda>w. w_user w = u' \<and> w_currency w = c')
          (update_rows (\<lambda>w. w_user w = u \<and> w_currency w = c) f ws) =
        first_row (\<lambda>w. w_user w = u' \<and> w_currency w = c') ws"
    by (intro first_row_update_other_key) (auto simp: assms)
  with False show ?thesis by (auto simp: balance_def)
qed

lemma balance_move_amount:
  "balance (move_amount now u c src dst amt ws) u' c' b =
     balance ws u' c' b +
     (if u' = u \<and> c' = c \<and> has_wallet ws u c
      then (if b = src then - amt else if b = dst then amt else 0) else 0)"
proof (cases "first_row (\<lambda>w. w_user w = u \<and> w_currency w = c) ws")
  case None
  then have "\<not> has_wallet ws u c" by (simp flip: first_row_wallet_iff)
  with None show ?thesis by (auto simp: move_amount_def balance_update_wallet) (simp add: balance_def)
next
  case (Some w)
  then have "has_wallet ws u c" by (simp flip: first_row_wallet_iff)
  moreover have "balance ws u c b = w_balance w b" using Some by (simp add: balance_def)
  ultimately show ?thesis using Some by (auto simp: move_amount_def balance_update_wallet)
qed

lemma balance_add_amount:
  "balance (add_amount now u c bk amt ws) u' c' b =
     balance ws u' c' b + (if u' = u \<and> c' = c \<and> has_wallet ws u c \<and> b = bk then amt else 0)"
proof (cases "first_row (\<lambda>w. w_user w = u \<and> w_currency w = c) ws")
  case None
  then have "\<not> has_wallet ws u c" by (simp flip: first_row_wallet_iff)
  with None show ?thesis by (auto simp: add_amount_def balance_update_wallet) (simp add: balance_def)
next
  case (Some w)
  then have "has_wallet ws u c" by (simp flip: first_row_wallet_iff)
  moreover have "balance ws u c b = w_balance w b" using Some by (simp add: balance_def)
  ultimately show ?thesis using Some by (auto simp: add_amount_def balance_update_wallet)
qed

lemma has_wallet_move [simp]: "has_wallet (move_amount now u c src dst amt ws) u' c' = has_wallet ws u' c'"
  by (induction ws) (auto simp: has_wallet_def move_amount_def)

lemma has_wallet_add [simp]: "has_wallet (add_amount now u c b amt ws) u' c' = has_wallet ws u' c'"
  by (induction ws) (auto simp: has_wallet_def add_amount_def)

section \<open>The wallet interface\<close>

text \<open>
  What the services rely on: a wallet can be made to exist without changing any balance, and moving
  an amount between two different buckets of a wallet changes these two balances by that amount and
  nothing else. The total of a wallet's buckets is then constant, whatever is moved.
\<close>

locale wallet_store =
  fixes ensure :: "time \<Rightarrow> uuid \<Rightarrow> string \<Rightarrow> 'ws \<Rightarrow> 'ws"
    and move :: "time \<Rightarrow> uuid \<Rightarrow> string \<Rightarrow> bucket \<Rightarrow> bucket \<Rightarrow> rat \<Rightarrow> 'ws \<Rightarrow> 'ws"
    and bal :: "'ws \<Rightarrow> uuid \<Rightarrow> string \<Rightarrow> bucket \<Rightarrow> rat"
    and has :: "'ws \<Rightarrow> uuid \<Rightarrow> string \<Rightarrow> bool"
  assumes bal_ensure: "bal (ensure now u c ws) u' c' b = bal ws u' c' b"
    and has_ensure: "has (ensure now u c ws) u c"
    and bal_move: "src \<noteq> dst \<Longrightarrow> bal (move now u c src dst amt ws) u' c' b =
      bal ws u' c' b +
      (if u' = u \<and> c' = c \<and> has ws u c
       then (if b = src then - amt else if b = dst then amt else 0) else 0)"
begin

definition total :: "'ws \<Rightarrow> uuid \<Rightarrow> string \<Rightarrow> rat" where
  "total ws u c = bal ws u c pending_balance + bal ws u c cleared_balance + bal ws u c available_balance +
     bal ws u c paid_balance + bal ws u c reversed_balance + bal ws u c on_hold_balance"

lemma total_ensure: "total (ensure now u c ws) u' c' = total ws u' c'"
  by (simp add: total_def bal_ensure)

lemma total_move: "src \<noteq> dst \<Longrightarrow> total (move now u c src dst amt ws) u' c' = total ws u' c'"
  by (cases src; cases dst) (simp_all add: total_def bal_move)

lemma bal_ensure_move:
  "src \<noteq> dst \<Longrightarrow> bal (move now u c src dst amt (ensure now u c ws)) u' c' b =
     bal ws u' c' b +
     (if u' = u \<and> c' = c then (if b = src then - amt else if b = dst then amt else 0) else 0)"
  by (simp add: bal_move bal_ensure has_ensure)

end

interpretation wallets: wallet_store ensure_wallet move_amount balance has_wallet
  rewrites "wallet_store.total balance = wallet_total"
proof -
  show "wallet_store ensure_wallet move_amount balance has_wallet"
    by unfold_locales (auto simp: balance_move_amount)
  then show "wallet_store.total balance = wallet_total"
    by (simp add: wallet_store.total_def wallet_total_def fun_eq_iff)
qed

section \<open>Inserting into the ledger\<close>

text \<open>The primary key and the two unique indexes of the table; a violation is the SQL error 23505.\<close>

definition ledger_conflict :: "commission_row \<Rightarrow> commission_row \<Rightarrow> bool" where
  "ledger_conflict new old \<longleftrightarrow>
     cl_id new = cl_id old \<or>
     (cl_idempotency_key new \<noteq> None \<and> cl_idempotency_key new = cl_idempotency_key old) \<or>
     (cl_purchase_id new = cl_purchase_id old \<and> cl_recipient new = cl_recipient old \<and>
      cl_level new = cl_level old \<and>
      cl_status new \<notin> {REVERSED, CANCELLED} \<and> cl_status old \<notin> {REVERSED, CANCELLED})"

definition insert_ledger :: "commission_row \<Rightarrow> commission_row list \<Rightarrow> commission_row list option" where
  "insert_ledger row t = (if exists_row (ledger_conflict row) t then None else Some (t @ [row]))"

fun insert_ledger_all :: "commission_row list \<Rightarrow> commission_row list \<Rightarrow> commission_row list option" where
  "insert_ledger_all [] t = Some t"
| "insert_ledger_all (r # rs) t =
     (case insert_ledger r t of None \<Rightarrow> None | Some t' \<Rightarrow> insert_ledger_all rs t')"

lemma insert_ledger_all_same_key:
  assumes "cl_idempotency_key r = Some k" and "cl_idempotency_key r' = Some k"
  shows "insert_ledger_all (r # r' # rs) t = None"
  using assms by (auto simp: insert_ledger_def ledger_conflict_def)

lemma insert_ledger_all_Some: "insert_ledger_all rs t = Some t' \<Longrightarrow> t' = t @ rs"
proof (induction rs arbitrary: t)
  case (Cons r rs)
  then have "insert_ledger_all rs (t @ [r]) = Some t'"
    by (auto simp: insert_ledger_def split: option.splits if_splits)
  with Cons.IH show ?case by fastforce
qed simp

lemma insert_ledger_all_distinct:
  "insert_ledger_all rs t = Some t' \<Longrightarrow> distinct (map cl_id t) \<Longrightarrow> distinct (map cl_id t')"
proof (induction rs arbitrary: t)
  case (Cons r rs)
  then have ins: "insert_ledger_all rs (t @ [r]) = Some t'" and "\<not> exists_row (ledger_conflict r) t"
    by (auto simp: insert_ledger_def split: option.splits if_splits)
  then have "cl_id r \<notin> cl_id ` set t" by (auto simp: list_ex_iff ledger_conflict_def)
  with Cons.prems(2) have "distinct (map cl_id (t @ [r]))" by auto
  with ins show ?case by (rule Cons.IH)
qed simp

section \<open>Owners of commissions\<close>

text \<open>The recipient of a commission never changes, whatever happens to its status and amount.\<close>

definition owner_of :: "commission_row list \<Rightarrow> uuid \<Rightarrow> uuid option" where
  "owner_of led = map_of (map (\<lambda>r. (cl_id r, cl_recipient r)) led)"

lemma owner_of_update:
  assumes "\<And>r. cl_id (f r) = cl_id r" and "\<And>r. cl_recipient (f r) = cl_recipient r"
  shows "owner_of (update_rows p f led) = owner_of led"
proof -
  have "map (\<lambda>r. (cl_id r, cl_recipient r)) (update_rows p f led) = map (\<lambda>r. (cl_id r, cl_recipient r)) led"
    by (rule map_update_rows_frame) (simp add: assms)
  then show ?thesis by (simp only: owner_of_def)
qed

lemma owner_of_append: "owner_of led i \<noteq> None \<Longrightarrow> owner_of (led @ new) i = owner_of led i"
  by (auto simp: owner_of_def map_add_def)

lemma owner_of_first_row:
  "first_row (\<lambda>r. cl_id r = i) led = Some r \<Longrightarrow> owner_of led i = Some (cl_recipient r)"
  by (induction led) (auto simp: owner_of_def split: if_splits)

lemma map_cl_id_update:
  "(\<And>r. cl_id (f r) = cl_id r) \<Longrightarrow> map cl_id (update_rows p f led) = map cl_id led"
  by (rule map_update_rows_frame) simp

end
