(* ===== verification/Commissions.thy ===== *)
theory Commissions
  imports ReferralTables
begin

text \<open>
  The commission service, \<^verbatim>\<open>control/src/modules/commissions/commissions.service.ts\<close>: crediting the
  sponsors of a paying user from the engine's result, the guarded life cycle of a commission with the
  wallet bucket that mirrors each status, full and partial reversal, manual adjustment, the bulk
  clearing job, the rule administration and the summaries. Every operation takes the time \<open>now\<close> and
  the identifiers that \<^verbatim>\<open>gen_random_uuid()\<close> would draw, and returns the result and the database.
  The lemmas show the exact effect of each operation on ledger and wallets; the properties follow
  from them and from the interpretations of the service locales.
\<close>

section \<open>Status machine\<close>

fun TRANSITION_MATRIX :: "commission_status \<Rightarrow> commission_status list" where
  "TRANSITION_MATRIX PENDING = [CLEARED, FRAUD_HOLD, REVERSED, CANCELLED]"
| "TRANSITION_MATRIX CLEARED = [AVAILABLE, FRAUD_HOLD, REVERSED, CANCELLED]"
| "TRANSITION_MATRIX AVAILABLE = [PAID, FRAUD_HOLD, REVERSED, CANCELLED]"
| "TRANSITION_MATRIX FRAUD_HOLD = [AVAILABLE, REVERSED, CANCELLED]"
| "TRANSITION_MATRIX PAID = []"
| "TRANSITION_MATRIX REVERSED = []"
| "TRANSITION_MATRIX CANCELLED = []"
| "TRANSITION_MATRIX CHARGEBACK = []"
| "TRANSITION_MATRIX RESERVED = []"

fun bucketForStatus :: "commission_status \<Rightarrow> bucket" where
  "bucketForStatus PENDING = pending_balance"
| "bucketForStatus CLEARED = cleared_balance"
| "bucketForStatus AVAILABLE = available_balance"
| "bucketForStatus PAID = paid_balance"
| "bucketForStatus FRAUD_HOLD = on_hold_balance"
| "bucketForStatus REVERSED = reversed_balance"
| "bucketForStatus CANCELLED = reversed_balance"
| "bucketForStatus _ = pending_balance"

section \<open>Crediting referrals\<close>

datatype credit_skip = FreePlanExcluded | Duplicate

record credit_result =
  credited :: nat
  skipped :: "credit_skip option"

text \<open>\<^verbatim>\<open>arr[i] = v\<close> on a JavaScript array: writing past the end leaves holes.\<close>

definition js_set :: "'a option list \<Rightarrow> nat \<Rightarrow> 'a \<Rightarrow> 'a option list" where
  "js_set xs i v = (if i < length xs then xs[i := Some v]
                    else xs @ replicate (i - length xs) None @ [Some v])"

definition chain_rows :: "uuid \<Rightarrow> referral_db \<Rightarrow> relationship_row list" where
  "chain_rows src db =
     sort_key rel_level
       (filter (\<lambda>r. rel_child r = src \<and> 1 \<le> rel_level r \<and> rel_level r \<le> 5) (relationships db))"

definition sponsor_chain :: "relationship_row list \<Rightarrow> uuid option list" where
  "sponsor_chain rows = fold (\<lambda>r xs. js_set xs (rel_level r - 1) (rel_parent r)) rows []"

definition in_force :: "time \<Rightarrow> bool \<Rightarrow> time \<Rightarrow> time option \<Rightarrow> bool" where
  "in_force now active from until \<longleftrightarrow>
     active \<and> from \<le> now \<and> (case until of None \<Rightarrow> True | Some t \<Rightarrow> now \<le> t)"

text \<open>The first rule of each level in the order \<^verbatim>\<open>ORDER BY level, effective_from DESC\<close>.\<close>

definition rule_for_level :: "time \<Rightarrow> uuid \<Rightarrow> nat \<Rightarrow> referral_db \<Rightarrow> commission_rule_row option" where
  "rule_for_level now plan lvl db =
     latest cr_effective_from
       (\<lambda>r. cr_plan r = plan \<and> cr_level r = lvl \<and>
            in_force now (cr_active r) (cr_effective_from r) (cr_effective_until r))
       (commission_rules db)"

definition base_rates :: "time \<Rightarrow> uuid \<Rightarrow> referral_db \<Rightarrow> rat list" where
  "base_rates now plan db =
     map (\<lambda>l. case rule_for_level now plan l db of Some r \<Rightarrow> cr_base_rate r | None \<Rightarrow> 0) [1, 2, 3, 4, 5]"

definition first_purchase_rule :: "time \<Rightarrow> referral_db \<Rightarrow> purchase_rule_row option" where
  "first_purchase_rule now db =
     latest pr_effective_from
       (\<lambda>r. pr_type r = FIRST_PURCHASE \<and>
            in_force now (pr_active r) (pr_effective_from r) (pr_effective_until r))
       (purchase_commission_rules db)"

text \<open>The row that the ledger INSERT writes for one calculated commission.\<close>

definition ledger_row ::
  "time \<Rightarrow> uuid \<Rightarrow> idem_key \<Rightarrow> uuid \<Rightarrow> referral_db \<Rightarrow> purchase_rule_row \<Rightarrow> commission_entry \<Rightarrow> commission_row"
where
  "ledger_row now rid key plan db prule c =
     \<lparr>cl_id = rid, cl_recipient = recipientUserId c, cl_source = sourceUserId c,
      cl_source_subscription = sourceSubscriptionId c, cl_purchase_id = purchaseId c,
      cl_invoice_id = invoiceId c, cl_plan_id = planId c, cl_plan_version = 1,
      cl_purchase_number = purchaseNumber c, cl_purchase_type = purchaseType c,
      cl_level = level c, cl_base_rate = baseCommissionRate c,
      cl_multiplier = purchaseMultiplier c, cl_effective_rate = effectiveCommissionRate c,
      cl_commissionable = commissionableAmount c, cl_amount = commissionAmount c,
      cl_currency = currency c, cl_status = PENDING,
      cl_rule_id = map_option cr_id (rule_for_level now plan (level c) db),
      cl_purchase_rule_id = pr_id prule, cl_idempotency_key = Some key,
      cl_cleared_at = None, cl_available_at = None, cl_paid_at = None, cl_reversed_at = None,
      cl_reversal_reason = None, cl_reversed_by = None, cl_created_at = now, cl_updated_at = now\<rparr>"

text \<open>The engine run of \<^verbatim>\<open>creditReferral\<close>: a first payment under the plan's rules in force.\<close>

definition credit_calculation ::
  "decimal_ops \<Rightarrow> time \<Rightarrow> uuid \<Rightarrow> uuid \<Rightarrow> uuid \<Rightarrow> rat \<Rightarrow> purchase_rule_row \<Rightarrow> referral_db \<Rightarrow> commission_entry list"
where
  "credit_calculation D now src plan purchase amount prule db =
     commissions (calculate D now
       (setPurchaseRule FIRST_PURCHASE (pr_multiplier prule) (pr_max_level prule)
         (setBaseRates plan (base_rates now plan db) new_engine))
       \<lparr>in_planId = plan, in_commissionableAmount = amount, in_paymentNumber = 1,
        in_sponsorChain = sponsor_chain (chain_rows src db), in_sourceUserId = src,
        in_sourceSubscriptionId = None, in_purchaseId = purchase, in_invoiceId = None,
        in_eventType = Some NEW_SUBSCRIPTION, in_eligibleAmount = None\<rparr>)"

text \<open>
  The transaction of \<^verbatim>\<open>creditReferral\<close>: the duplicate check, one INSERT per commission, the
  conversion event. A unique violation (23505) rolls back and is reported as a duplicate.
\<close>

definition credit_transaction ::
  "time \<Rightarrow> (nat \<Rightarrow> uuid) \<Rightarrow> idem_key \<Rightarrow> uuid \<Rightarrow> uuid \<Rightarrow> uuid \<Rightarrow> purchase_rule_row \<Rightarrow> commission_entry list
   \<Rightarrow> (referral_db, credit_result) handler" where
  "credit_transaction now ids key src plan purchase prule cs db =
     (if exists_row (\<lambda>r. cl_idempotency_key r = Some key) (commission_ledger db)
      then (Inr \<lparr>credited = 0, skipped = Some Duplicate\<rparr>, db)
      else
        (case insert_ledger_all
                (map (\<lambda>(i, c). ledger_row now (ids i) key plan db prule c) (enumerate 0 cs))
                (commission_ledger db) of
           None \<Rightarrow> (Inr \<lparr>credited = 0, skipped = Some Duplicate\<rparr>, db)
         | Some led \<Rightarrow>
             (Inr \<lparr>credited = length cs, skipped = None\<rparr>,
              db\<lparr>commission_ledger := led,
                 referral_events := referral_events db @
                   [\<lparr>ev_type = PAID_CONVERSION, ev_referred = src,
                     ev_referrer = (case sponsor_chain (chain_rows src db) of [] \<Rightarrow> None | x # _ \<Rightarrow> x),
                     ev_payment = purchase, ev_created_at = now\<rparr>]\<rparr>)))"

definition creditReferral ::
  "decimal_ops \<Rightarrow> time \<Rightarrow> (nat \<Rightarrow> uuid) \<Rightarrow> uuid \<Rightarrow> uuid \<Rightarrow> idem_key \<Rightarrow> uuid \<Rightarrow> rat \<Rightarrow> string
   \<Rightarrow> (referral_db, credit_result) handler" where
  "creditReferral D now ids src plan key purchase amount ccy db =
     (let chain = chain_rows src db;
          planCode = map_option rp_code (first_row (\<lambda>p. rp_id p = plan) (ref_plans db));
          none = \<lparr>credited = 0, skipped = None\<rparr>
      in if chain = [] then (Inr none, db)
         else if planCode \<in> {None, Some [], Some ''FREE''} then
           (Inr \<lparr>credited = 0, skipped = Some FreePlanExcluded\<rparr>,
            db\<lparr>referral_events := referral_events db @
                 [\<lparr>ev_type = FREE_REFERRAL_NO_COMMISSION, ev_referred = src,
                   ev_referrer = Some (rel_parent (hd chain)), ev_payment = purchase,
                   ev_created_at = now\<rparr>]\<rparr>)
         else
           (case first_purchase_rule now db of
              None \<Rightarrow> (Inr none, db)
            | Some prule \<Rightarrow>
                let cs = credit_calculation D now src plan purchase amount prule db
                in if cs = [] then (Inr none, db)
                   else credit_transaction now ids key src plan purchase prule cs db))"

definition creditReferralForLicense ::
  "decimal_ops \<Rightarrow> time \<Rightarrow> (nat \<Rightarrow> uuid) \<Rightarrow> uuid \<Rightarrow> uuid \<Rightarrow> uuid \<Rightarrow> rat \<Rightarrow> string
   \<Rightarrow> (referral_db, credit_result) handler" where
  "creditReferralForLicense D now ids src plan lic amount ccy =
     creditReferral D now ids src plan (LicenseKey lic) lic amount ccy"

definition creditReferralForSettledRevenue ::
  "decimal_ops \<Rightarrow> time \<Rightarrow> (nat \<Rightarrow> uuid) \<Rightarrow> uuid \<Rightarrow> uuid \<Rightarrow> uuid \<Rightarrow> rat \<Rightarrow> string
   \<Rightarrow> (referral_db, credit_result) handler" where
  "creditReferralForSettledRevenue D now ids src plan ref amount ccy =
     creditReferral D now ids src plan (RevenueKey ref) ref amount ccy"

section \<open>Life cycle\<close>

text \<open>The UPDATE of a ledger row that a transition makes, with its CASE expressions.\<close>

definition stamp :: "time \<Rightarrow> commission_status \<Rightarrow> string option \<Rightarrow> uuid option \<Rightarrow> commission_row \<Rightarrow> commission_row" where
  "stamp now target reason actor r =
     r\<lparr>cl_status := target,
       cl_cleared_at := (if target = CLEARED then Some now else cl_cleared_at r),
       cl_available_at := (if target = AVAILABLE then Some now else cl_available_at r),
       cl_paid_at := (if target = PAID then Some now else cl_paid_at r),
       cl_reversed_at := (if target = REVERSED then Some now else cl_reversed_at r),
       cl_reversal_reason := (if target = REVERSED then reason else cl_reversal_reason r),
       cl_reversed_by := (if target = REVERSED then actor else cl_reversed_by r),
       cl_updated_at := now\<rparr>"

definition dest_bucket :: "commission_status \<Rightarrow> bucket" where
  "dest_bucket target =
     (if target = FRAUD_HOLD then on_hold_balance
      else if target = REVERSED \<or> target = CANCELLED then reversed_balance
      else bucketForStatus target)"

definition transitionLedgerAndWallet ::
  "time \<Rightarrow> uuid \<Rightarrow> commission_status \<Rightarrow> uuid option \<Rightarrow> string option \<Rightarrow> rat option
   \<Rightarrow> (referral_db, commission_row) handler" where
  "transitionLedgerAndWallet now cid target actor reason amountOverride db =
     (case first_row (\<lambda>r. cl_id r = cid) (commission_ledger db) of
        None \<Rightarrow> (Inl (NotFound ''Commission not found''), db)
      | Some row \<Rightarrow>
          if target \<notin> set (TRANSITION_MATRIX (cl_status row))
          then (Inl (BadRequest ''Illegal transition''), db)
          else
            let amt = (case amountOverride of Some a \<Rightarrow> a | None \<Rightarrow> cl_amount row);
                src = bucketForStatus (cl_status row);
                dst = dest_bucket target;
                ws = move_amount now (cl_recipient row) (cl_currency row) src dst amt
                       (ensure_wallet now (cl_recipient row) (cl_currency row) (affiliate_wallets db))
            in (Inr (stamp now target reason actor row),
                db\<lparr>affiliate_wallets := ws,
                   commission_ledger :=
                     update_rows (\<lambda>r. cl_id r = cid) (stamp now target reason actor)
                       (commission_ledger db)\<rparr>))"

definition transitionCommission ::
  "time \<Rightarrow> uuid \<Rightarrow> commission_status \<Rightarrow> uuid option \<Rightarrow> string option \<Rightarrow> (referral_db, commission_row) handler" where
  "transitionCommission now cid target actor reason =
     transaction (transitionLedgerAndWallet now cid target actor reason None)"

definition holdCommission :: "time \<Rightarrow> uuid \<Rightarrow> string \<Rightarrow> uuid \<Rightarrow> (referral_db, commission_row) handler" where
  "holdCommission now cid reason actor = transitionCommission now cid FRAUD_HOLD (Some actor) (Some reason)"

definition releaseCommission :: "time \<Rightarrow> uuid \<Rightarrow> uuid \<Rightarrow> (referral_db, commission_row) handler" where
  "releaseCommission now cid actor = transitionCommission now cid AVAILABLE (Some actor) None"

text \<open>
  A reversal of the whole amount is a transition to REVERSED; a smaller one only moves the amount to
  the reversed bucket. Both append to the adjustments. For a commission whose amount already is in the
  reversed bucket the UPDATE would assign \<^verbatim>\<open>reversed_balance\<close> twice, which PostgreSQL refuses
  (42601, multiple assignments to the same column).
\<close>

definition reverse_body ::
  "time \<Rightarrow> uuid \<Rightarrow> string \<Rightarrow> uuid \<Rightarrow> decimal option \<Rightarrow> (referral_db, commission_row option) handler" where
  "reverse_body now cid reason actor amount db =
     (case first_row (\<lambda>r. cl_id r = cid) (commission_ledger db) of
        None \<Rightarrow> (Inl (NotFound ''Commission not found''), db)
      | Some row \<Rightarrow>
          (case (case amount of None \<Rightarrow> Finite (cl_amount row) | Some a \<Rightarrow> a) of
             Finite amt \<Rightarrow>
               if amt \<le> 0 \<or> cl_amount row < amt
               then (Inl (BadRequest ''Reversal amount must be > 0 and <= commission amount''), db)
               else
                 let log = (\<lambda>t. [\<lparr>adj_commission = cid, adj_type = t, adj_amount = - amt,
                                  adj_currency = cl_currency row, adj_reason = Some reason,
                                  adj_by = actor, adj_created_at = now\<rparr>])
                 in if amt < cl_amount row then
                      if bucketForStatus (cl_status row) = reversed_balance
                      then (Inl (SqlError ''42601''), db)
                      else
                      (Inr None,
                       db\<lparr>affiliate_wallets :=
                            move_amount now (cl_recipient row) (cl_currency row)
                              (bucketForStatus (cl_status row)) reversed_balance amt
                              (affiliate_wallets db),
                          commission_adjustments := commission_adjustments db @ log PARTIAL_REVERSAL\<rparr>)
                    else
                      (case transitionLedgerAndWallet now cid REVERSED (Some actor) (Some reason)
                              (Some amt) db of
                         (Inl e, db') \<Rightarrow> (Inl e, db')
                       | (Inr r, db') \<Rightarrow>
                           (Inr (Some r),
                            db'\<lparr>commission_adjustments :=
                                  commission_adjustments db' @ log REVERSAL\<rparr>))
           | _ \<Rightarrow> (Inl (BadRequest ''Reversal amount must be > 0 and <= commission amount''), db)))"

definition reverseCommission ::
  "time \<Rightarrow> uuid \<Rightarrow> string \<Rightarrow> uuid \<Rightarrow> decimal option \<Rightarrow> (referral_db, commission_row option) handler" where
  "reverseCommission now cid reason actor amount = transaction (reverse_body now cid reason actor amount)"

definition adjust_body ::
  "decimal_ops \<Rightarrow> time \<Rightarrow> uuid \<Rightarrow> rat \<Rightarrow> string \<Rightarrow> uuid \<Rightarrow> (referral_db, uuid \<times> rat) handler" where
  "adjust_body D now cid delta reason actor db =
     (case first_row (\<lambda>r. cl_id r = cid) (commission_ledger db) of
        None \<Rightarrow> (Inl (NotFound ''Commission not found''), db)
      | Some row \<Rightarrow>
          let newAmt = d_plus D (cl_amount row) delta
          in if newAmt < 0 then (Inl (BadRequest ''Adjustment would make commission negative''), db)
             else
               (Inr (cid, newAmt),
                db\<lparr>commission_adjustments := commission_adjustments db @
                     [\<lparr>adj_commission = cid, adj_type = MANUAL_ADJUSTMENT, adj_amount = delta,
                       adj_currency = cl_currency row, adj_reason = Some reason, adj_by = actor,
                       adj_created_at = now\<rparr>],
                   commission_ledger :=
                     update_rows (\<lambda>r. cl_id r = cid)
                       (\<lambda>r. r\<lparr>cl_amount := newAmt, cl_updated_at := now\<rparr>) (commission_ledger db),
                   affiliate_wallets :=
                     add_amount now (cl_recipient row) (cl_currency row)
                       (bucketForStatus (cl_status row)) delta
                       (ensure_wallet now (cl_recipient row) (cl_currency row)
                          (affiliate_wallets db))\<rparr>))"

definition adjustCommission ::
  "decimal_ops \<Rightarrow> time \<Rightarrow> uuid \<Rightarrow> decimal \<Rightarrow> string \<Rightarrow> uuid \<Rightarrow> (referral_db, uuid \<times> rat) handler" where
  "adjustCommission D now cid amount reason actor db =
     (case amount of
        Finite delta \<Rightarrow> transaction (adjust_body D now cid delta reason actor) db
      | _ \<Rightarrow> (Inl (BadRequest ''Invalid adjustment amount''), db))"

section \<open>Bulk clearing\<close>

text \<open>The aggregation per wallet: a JavaScript \<^verbatim>\<open>Map\<close> keeps its keys in insertion order.\<close>

fun agg_add :: "decimal_ops \<Rightarrow> uuid \<times> string \<Rightarrow> rat \<Rightarrow> ((uuid \<times> string) \<times> rat) list
  \<Rightarrow> ((uuid \<times> string) \<times> rat) list" where
  "agg_add D k x [] = [(k, d_plus D 0 x)]"
| "agg_add D k x ((k', y) # rest) =
     (if k' = k then (k', d_plus D y x) # rest else (k', y) # agg_add D k x rest)"

definition aggregate :: "decimal_ops \<Rightarrow> commission_row list \<Rightarrow> ((uuid \<times> string) \<times> rat) list" where
  "aggregate D rows = fold (\<lambda>r. agg_add D (cl_recipient r, cl_currency r) (cl_amount r)) rows []"

definition move_all ::
  "time \<Rightarrow> bucket \<Rightarrow> bucket \<Rightarrow> ((uuid \<times> string) \<times> rat) list \<Rightarrow> wallet_row list \<Rightarrow> wallet_row list" where
  "move_all now src dst agg ws =
     fold (\<lambda>((u, c), amt) w. move_amount now u c src dst amt (ensure_wallet now u c w)) agg ws"

text \<open>
  One half of \<^verbatim>\<open>clearEligible\<close>: the rows selected by \<open>p\<close> take status \<open>target\<close>, and the aggregated
  amounts move between the two buckets.
\<close>

definition clear_step ::
  "decimal_ops \<Rightarrow> time \<Rightarrow> (commission_row \<Rightarrow> bool) \<Rightarrow> commission_status \<Rightarrow> bucket \<Rightarrow> bucket
   \<Rightarrow> referral_db \<Rightarrow> nat \<times> referral_db" where
  "clear_step D now p target src dst db =
     (let rows = filter p (commission_ledger db); rids = map cl_id rows
      in if rids = [] then (0, db)
         else
           (length rids,
            db\<lparr>commission_ledger :=
                 update_rows (\<lambda>r. cl_id r \<in> set rids) (stamp now target None None)
                   (commission_ledger db),
               affiliate_wallets := move_all now src dst (aggregate D rows) (affiliate_wallets db)\<rparr>))"

definition pending_due :: "time \<Rightarrow> commission_row \<Rightarrow> bool" where
  "pending_due now r \<longleftrightarrow> cl_status r = PENDING \<and> cl_created_at r < now - days 14"

definition cleared_due :: "time \<Rightarrow> commission_row \<Rightarrow> bool" where
  "cleared_due now r \<longleftrightarrow>
     cl_status r = CLEARED \<and> (case cl_cleared_at r of None \<Rightarrow> False | Some t \<Rightarrow> t < now - days 30)"

definition clearEligible :: "decimal_ops \<Rightarrow> time \<Rightarrow> (referral_db, nat \<times> nat) handler" where
  "clearEligible D now db =
     (let (n, db1) = clear_step D now (pending_due now) CLEARED pending_balance cleared_balance db;
          (m, db2) = clear_step D now (cleared_due now) AVAILABLE cleared_balance available_balance db1
      in (Inr (n, m), db2))"

section \<open>Rules and summaries\<close>

definition updateRule ::
  "uuid \<Rightarrow> rat option \<Rightarrow> bool option \<Rightarrow> time option \<Rightarrow> (referral_db, commission_rule_row) handler" where
  "updateRule rid rate active until db =
     (if rate = None \<and> active = None \<and> until = None
      then (Inl (BadRequest ''No rule fields to update''), db)
      else
        let f = (\<lambda>r. r\<lparr>cr_base_rate := (case rate of None \<Rightarrow> cr_base_rate r | Some x \<Rightarrow> x),
                       cr_active := (case active of None \<Rightarrow> cr_active r | Some x \<Rightarrow> x),
                       cr_effective_until := (case until of None \<Rightarrow> cr_effective_until r | Some x \<Rightarrow> Some x)\<rparr>)
        in (case first_row (\<lambda>r. cr_id r = rid) (commission_rules db) of
              None \<Rightarrow> (Inl (NotFound ''Commission rule not found''), db)
            | Some r \<Rightarrow>
                (Inr (f r),
                 db\<lparr>commission_rules := update_rows (\<lambda>r. cr_id r = rid) f (commission_rules db)\<rparr>)))"

definition listRules :: "referral_db \<Rightarrow> commission_rule_row list" where
  "listRules db = sort_key cr_plan (sort_key cr_level (commission_rules db))"

definition findByRecipient :: "uuid \<Rightarrow> referral_db \<Rightarrow> commission_row list" where
  "findByRecipient u db =
     take 50 (sort_key (\<lambda>r. - cl_created_at r) (filter (\<lambda>r. cl_recipient r = u) (commission_ledger db)))"

record commission_summary =
  total_entries :: nat
  total_amount :: rat
  by_status :: "commission_status \<Rightarrow> nat \<times> rat"

definition summarise :: "commission_row list \<Rightarrow> commission_summary" where
  "summarise rows =
     \<lparr>total_entries = length rows, total_amount = sum_list (map cl_amount rows),
      by_status = (\<lambda>s. (count_rows (\<lambda>r. cl_status r = s) rows,
                        sum_list (map (\<lambda>r. if cl_status r = s then cl_amount r else 0) rows)))\<rparr>"

definition getSummary :: "uuid \<Rightarrow> referral_db \<Rightarrow> commission_summary" where
  "getSummary u db = summarise (filter (\<lambda>r. cl_recipient r = u) (commission_ledger db))"

definition getGlobalSummary :: "referral_db \<Rightarrow> commission_summary" where
  "getGlobalSummary db = summarise (commission_ledger db)"

section \<open>The service as a sequence of requests\<close>

datatype commission_request =
    CreditLicense uuid uuid uuid rat string
  | CreditRevenue uuid uuid uuid rat string
  | Transition uuid commission_status uuid "string option"
  | Hold uuid string uuid
  | Release uuid uuid
  | Reverse uuid string uuid "decimal option"
  | Adjust uuid decimal string uuid
  | Clear
  | UpdateRule uuid "rat option" "bool option" "time option"

text \<open>A request arrives at a time and with the identifiers drawn for it.\<close>

type_synonym timed_commission_request = "time \<times> (nat \<Rightarrow> uuid) \<times> commission_request"

fun exec_commission :: "decimal_ops \<Rightarrow> timed_commission_request \<Rightarrow> referral_db \<Rightarrow> referral_db" where
  "exec_commission D (now, ids, CreditLicense src plan lic amt cur) db =
     snd (creditReferralForLicense D now ids src plan lic amt cur db)"
| "exec_commission D (now, ids, CreditRevenue src plan ref amt cur) db =
     snd (creditReferralForSettledRevenue D now ids src plan ref amt cur db)"
| "exec_commission D (now, ids, Transition cid t actor reason) db =
     snd (transitionCommission now cid t (Some actor) reason db)"
| "exec_commission D (now, ids, Hold cid reason actor) db = snd (holdCommission now cid reason actor db)"
| "exec_commission D (now, ids, Release cid actor) db = snd (releaseCommission now cid actor db)"
| "exec_commission D (now, ids, Reverse cid reason actor amt) db =
     snd (reverseCommission now cid reason actor amt db)"
| "exec_commission D (now, ids, Adjust cid amt reason actor) db =
     snd (adjustCommission D now cid amt reason actor db)"
| "exec_commission D (now, ids, Clear) db = snd (clearEligible D now db)"
| "exec_commission D (now, ids, UpdateRule rid rate act til) db = snd (updateRule rid rate act til db)"

section \<open>Effect of a transition\<close>

lemma stamp_frame [simp]:
  "cl_id (stamp now t reason actor r) = cl_id r"
  "cl_recipient (stamp now t reason actor r) = cl_recipient r"
  "cl_currency (stamp now t reason actor r) = cl_currency r"
  "cl_amount (stamp now t reason actor r) = cl_amount r"
  "cl_status (stamp now t reason actor r) = t"
  by (simp_all add: stamp_def)

lemma dest_bucket_eq: "dest_bucket t = bucketForStatus t"
  by (cases t) (simp_all add: dest_bucket_def)

lemma allowed_buckets_differ:
  "t \<in> set (TRANSITION_MATRIX s) \<Longrightarrow> bucketForStatus s \<noteq> bucketForStatus t"
  by (cases s) auto

lemma transition_ok:
  assumes "transitionLedgerAndWallet now cid target actor reason ov db = (Inr r, db')"
  obtains row where
    "first_row (\<lambda>r. cl_id r = cid) (commission_ledger db) = Some row"
    "target \<in> set (TRANSITION_MATRIX (cl_status row))"
    "r = stamp now target reason actor row"
    "db' = db\<lparr>affiliate_wallets :=
        move_amount now (cl_recipient row) (cl_currency row) (bucketForStatus (cl_status row))
          (bucketForStatus target) (case ov of Some a \<Rightarrow> a | None \<Rightarrow> cl_amount row)
          (ensure_wallet now (cl_recipient row) (cl_currency row) (affiliate_wallets db)),
        commission_ledger :=
          update_rows (\<lambda>r. cl_id r = cid) (stamp now target reason actor) (commission_ledger db)\<rparr>"
  using assms
  by (auto simp: transitionLedgerAndWallet_def Let_def dest_bucket_eq split: option.splits if_splits)

lemma transition_error: "transitionLedgerAndWallet now cid t actor reason ov db = (Inl e, db') \<Longrightarrow> db' = db"
  by (auto simp: transitionLedgerAndWallet_def Let_def split: option.splits if_splits)

section \<open>Paths along the transition matrix\<close>

definition status_edge :: "commission_status \<Rightarrow> commission_status \<Rightarrow> bool" where
  "status_edge s t \<longleftrightarrow> t \<in> set (TRANSITION_MATRIX s)"

text \<open>
  \<open>status_path\<close> relates two states of the database when every commission is still there and its
  status has followed edges of the matrix.
\<close>

definition ledger_path :: "commission_row list \<Rightarrow> commission_row list \<Rightarrow> bool" where
  "ledger_path led led' \<longleftrightarrow>
     (distinct (map cl_id led) \<longrightarrow>
        distinct (map cl_id led') \<and>
        (\<forall>r\<in>set led. \<exists>r'\<in>set led'. cl_id r' = cl_id r \<and> status_edge\<^sup>*\<^sup>* (cl_status r) (cl_status r')))"

lemma ledger_path_refl [simp]: "ledger_path led led"
  by (auto simp: ledger_path_def)

lemma ledger_path_trans:
  assumes "ledger_path a b" and "ledger_path b c"
  shows "ledger_path a c"
  unfolding ledger_path_def
proof (intro impI conjI ballI)
  assume "distinct (map cl_id a)"
  with assms(1) have db: "distinct (map cl_id b)" and
    ab: "\<forall>r\<in>set a. \<exists>r'\<in>set b. cl_id r' = cl_id r \<and> status_edge\<^sup>*\<^sup>* (cl_status r) (cl_status r')"
    by (auto simp: ledger_path_def)
  with assms(2) show "distinct (map cl_id c)" by (simp add: ledger_path_def)
  fix r assume "r \<in> set a"
  with ab obtain r' where r': "r' \<in> set b" "cl_id r' = cl_id r" "status_edge\<^sup>*\<^sup>* (cl_status r) (cl_status r')"
    by blast
  from assms(2) db r'(1) obtain r'' where "r'' \<in> set c" "cl_id r'' = cl_id r'"
    "status_edge\<^sup>*\<^sup>* (cl_status r') (cl_status r'')"
    unfolding ledger_path_def by blast
  with r' show "\<exists>r'\<in>set c. cl_id r' = cl_id r \<and> status_edge\<^sup>*\<^sup>* (cl_status r) (cl_status r')"
    by (metis rtranclp_trans)
qed

lemma ledger_path_update:
  assumes "\<And>r. cl_id (f r) = cl_id r"
    and "\<And>r. distinct (map cl_id led) \<Longrightarrow> r \<in> set led \<Longrightarrow> p r \<Longrightarrow>
           status_edge\<^sup>*\<^sup>* (cl_status r) (cl_status (f r))"
  shows "ledger_path led (update_rows p f led)"
  unfolding ledger_path_def
proof (intro impI conjI ballI)
  assume d: "distinct (map cl_id led)"
  then show "distinct (map cl_id (update_rows p f led))" by (simp add: map_cl_id_update assms(1))
  fix r assume r: "r \<in> set led"
  show "\<exists>r'\<in>set (update_rows p f led).
          cl_id r' = cl_id r \<and> status_edge\<^sup>*\<^sup>* (cl_status r) (cl_status r')"
    using r assms(2) [OF d r]
    by (intro bexI [of _ "if p r then f r else r"]) (auto simp: set_update_rows assms(1))
qed

lemma ledger_path_append:
  "(distinct (map cl_id led) \<Longrightarrow> distinct (map cl_id (led @ new))) \<Longrightarrow> ledger_path led (led @ new)"
  unfolding ledger_path_def by auto

lemma first_row_distinct:
  assumes "first_row (\<lambda>r. cl_id r = i) led = Some row" and "distinct (map cl_id led)"
    and "r \<in> set led" and "cl_id r = i"
  shows "r = row"
proof -
  have "inj_on cl_id (set led)" using assms(2) by (simp add: distinct_map)
  moreover have "row \<in> set led" "cl_id row = i" using first_row_Some [OF assms(1)] by simp_all
  ultimately show ?thesis using assms(3,4) by (simp add: inj_onD)
qed

lemma transition_ledger_path:
  assumes "transitionLedgerAndWallet now cid target actor reason ov db = (Inr r, db')"
  shows "ledger_path (commission_ledger db) (commission_ledger db')"
  using assms
proof (rule transition_ok)
  fix row assume row: "first_row (\<lambda>r. cl_id r = cid) (commission_ledger db) = Some row"
    and edge: "target \<in> set (TRANSITION_MATRIX (cl_status row))"
    and db': "db' = db\<lparr>affiliate_wallets :=
        move_amount now (cl_recipient row) (cl_currency row) (bucketForStatus (cl_status row))
          (bucketForStatus target) (case ov of Some a \<Rightarrow> a | None \<Rightarrow> cl_amount row)
          (ensure_wallet now (cl_recipient row) (cl_currency row) (affiliate_wallets db)),
        commission_ledger :=
          update_rows (\<lambda>r. cl_id r = cid) (stamp now target reason actor) (commission_ledger db)\<rparr>"
  have "status_edge\<^sup>*\<^sup>* (cl_status r) target"
    if "distinct (map cl_id (commission_ledger db))" "r \<in> set (commission_ledger db)" "cl_id r = cid" for r
  proof -
    from row that have "r = row" by (rule first_row_distinct)
    then show ?thesis using edge by (auto simp: status_edge_def)
  qed
  then show ?thesis by (simp add: db' ledger_path_update)
qed

lemma transitionCommission_path:
  "ledger_path (commission_ledger db) (commission_ledger (snd (transitionCommission now cid t actor reason db)))"
  unfolding transitionCommission_def
  by (rule transaction_preserves) (auto intro: transition_ledger_path)

lemma reverse_path:
  "ledger_path (commission_ledger db) (commission_ledger (snd (reverseCommission now cid reason actor amt db)))"
  unfolding reverseCommission_def
proof (rule transaction_preserves)
  fix x db' assume "reverse_body now cid reason actor amt db = (Inr x, db')"
  then show "ledger_path (commission_ledger db) (commission_ledger db')"
    by (auto simp: reverse_body_def Let_def split: option.splits decimal.splits if_splits prod.splits sum.splits
        dest!: transition_ledger_path)
qed simp

lemma adjust_path:
  "ledger_path (commission_ledger db) (commission_ledger (snd (adjustCommission D now cid amt reason actor db)))"
proof (cases amt)
  case (Finite delta)
  have "ledger_path (commission_ledger db)
          (commission_ledger (snd (transaction (adjust_body D now cid delta reason actor) db)))"
    by (rule transaction_preserves)
      (auto simp: adjust_body_def Let_def split: option.splits if_splits intro!: ledger_path_update)
  with Finite show ?thesis by (simp add: adjustCommission_def)
qed (simp_all add: adjustCommission_def)

lemma clear_step_path:
  assumes "\<And>r. p r \<Longrightarrow> status_edge (cl_status r) t"
  shows "ledger_path (commission_ledger db) (commission_ledger (snd (clear_step D now p t src dst db)))"
proof -
  let ?rids = "map cl_id (filter p (commission_ledger db))"
  have "p r" if "distinct (map cl_id (commission_ledger db))" "r \<in> set (commission_ledger db)"
    "cl_id r \<in> set ?rids" for r
    using that by (auto simp: distinct_map inj_on_def)
  then have "ledger_path (commission_ledger db)
       (update_rows (\<lambda>r. cl_id r \<in> set ?rids) (stamp now t None None) (commission_ledger db))"
    by (intro ledger_path_update) (auto intro: assms)
  then show ?thesis by (simp add: clear_step_def Let_def)
qed

lemma clear_path: "ledger_path (commission_ledger db) (commission_ledger (snd (clearEligible D now db)))"
proof -
  have "status_edge (cl_status r) CLEARED" if "pending_due now r" for r
    using that by (simp add: pending_due_def status_edge_def)
  moreover have "status_edge (cl_status r) AVAILABLE" if "cleared_due now r" for r
    using that by (simp add: cleared_due_def status_edge_def)
  moreover obtain n db1 where one:
    "clear_step D now (pending_due now) CLEARED pending_balance cleared_balance db = (n, db1)" by fastforce
  moreover obtain m db2 where two:
    "clear_step D now (cleared_due now) AVAILABLE cleared_balance available_balance db1 = (m, db2)" by fastforce
  ultimately have "ledger_path (commission_ledger db) (commission_ledger db1)"
    "ledger_path (commission_ledger db1) (commission_ledger db2)"
    using clear_step_path [of "pending_due now" CLEARED db D now pending_balance cleared_balance]
      clear_step_path [of "cleared_due now" AVAILABLE db1 D now cleared_balance available_balance]
    by simp_all
  with one two show ?thesis by (simp add: clearEligible_def ledger_path_trans)
qed

lemma credit_path:
  "ledger_path (commission_ledger db)
     (commission_ledger (snd (creditReferral D now ids src plan key purchase amount ccy db)))"
proof -
  have "ledger_path (commission_ledger db)
     (commission_ledger (snd (credit_transaction now ids key src plan purchase prule cs db)))" for prule cs
    by (auto simp: credit_transaction_def split: option.splits intro!: ledger_path_append
        dest: insert_ledger_all_Some insert_ledger_all_distinct)
  then show ?thesis by (auto simp: creditReferral_def Let_def split: option.splits)
qed

lemma updateRule_ledger [simp]:
  "commission_ledger (snd (updateRule rid rate act til db)) = commission_ledger db"
  "affiliate_wallets (snd (updateRule rid rate act til db)) = affiliate_wallets db"
  "commission_adjustments (snd (updateRule rid rate act til db)) = commission_adjustments db"
  by (auto simp: updateRule_def Let_def split: option.splits)

lemma exec_path: "ledger_path (commission_ledger db) (commission_ledger (exec_commission D req db))"
proof (cases "(D, req, db)" rule: exec_commission.cases)
qed (auto simp: transitionCommission_path reverse_path adjust_path clear_path credit_path
      holdCommission_def releaseCommission_def creditReferralForLicense_def
      creditReferralForSettledRevenue_def)

interpretation commission_lifecycle:
  monotone_service "exec_commission D" "\<lambda>db db'. ledger_path (commission_ledger db) (commission_ledger db')" for D
  by unfold_locales (auto intro: ledger_path_trans exec_path)

section \<open>Conservation of wallet totals\<close>

definition ledger_wf :: "referral_db \<Rightarrow> bool" where
  "ledger_wf db \<longleftrightarrow>
     distinct (map cl_id (commission_ledger db)) \<and>
     (\<forall>a\<in>set (commission_adjustments db). owner_of (commission_ledger db) (adj_commission a) \<noteq> None)"

definition manual_of :: "commission_row list \<Rightarrow> uuid \<Rightarrow> string \<Rightarrow> adjustment_row list \<Rightarrow> rat" where
  "manual_of led u c adjs =
     sum_list (map adj_amount (filter (\<lambda>a. adj_type a = MANUAL_ADJUSTMENT \<and> adj_currency a = c \<and>
       owner_of led (adj_commission a) = Some u) adjs))"

text \<open>The sum of the manual adjustments recorded for the commissions of a user in a currency.\<close>

definition manual_sum :: "referral_db \<Rightarrow> uuid \<Rightarrow> string \<Rightarrow> rat" where
  "manual_sum db u c = manual_of (commission_ledger db) u c (commission_adjustments db)"

lemma manual_of_append [simp]:
  "manual_of led u c (xs @ ys) = manual_of led u c xs + manual_of led u c ys"
  by (simp add: manual_of_def)

lemma manual_of_cong:
  "(\<And>a. a \<in> set adjs \<Longrightarrow> owner_of led' (adj_commission a) = owner_of led (adj_commission a)) \<Longrightarrow>
   manual_of led' u c adjs = manual_of led u c adjs"
  by (simp add: manual_of_def cong: filter_cong)

text \<open>
  A step conserves when it keeps the tables well-formed and every wallet's total grows by exactly
  the manual adjustments it records.
\<close>

definition conserves :: "referral_db \<Rightarrow> referral_db \<Rightarrow> bool" where
  "conserves db db' \<longleftrightarrow>
     (ledger_wf db \<longrightarrow> ledger_wf db' \<and>
        (\<forall>u c. wallet_total (affiliate_wallets db') u c - manual_sum db' u c =
               wallet_total (affiliate_wallets db) u c - manual_sum db u c))"

lemma conserves_refl [simp]: "conserves db db"
  by (simp add: conserves_def)

lemma conserves_trans: "conserves a b \<Longrightarrow> conserves b c \<Longrightarrow> conserves a c"
  by (simp add: conserves_def)

lemma conserves_step:
  assumes ids: "distinct (map cl_id (commission_ledger db)) \<Longrightarrow> distinct (map cl_id (commission_ledger db'))"
    and own: "\<And>i. owner_of (commission_ledger db) i \<noteq> None \<Longrightarrow>
                owner_of (commission_ledger db') i = owner_of (commission_ledger db) i"
    and adj: "commission_adjustments db' = commission_adjustments db @ new"
    and new: "\<And>a. a \<in> set new \<Longrightarrow> owner_of (commission_ledger db') (adj_commission a) \<noteq> None"
    and total: "\<And>u c. wallet_total (affiliate_wallets db') u c =
                  wallet_total (affiliate_wallets db) u c + manual_of (commission_ledger db') u c new"
  shows "conserves db db'"
  unfolding conserves_def
proof (intro impI conjI allI)
  assume wf: "ledger_wf db"
  then have old: "owner_of (commission_ledger db') (adj_commission a) = owner_of (commission_ledger db) (adj_commission a)"
    if "a \<in> set (commission_adjustments db)" for a
    using that own by (auto simp: ledger_wf_def)
  show "ledger_wf db'"
    using wf ids old new by (auto simp: ledger_wf_def adj)
  fix u c
  have "manual_sum db' u c = manual_sum db u c + manual_of (commission_ledger db') u c new"
    unfolding manual_sum_def adj manual_of_append by (simp only: manual_of_cong [OF old])
  with total show "wallet_total (affiliate_wallets db') u c - manual_sum db' u c =
      wallet_total (affiliate_wallets db) u c - manual_sum db u c" by simp
qed

lemma wallet_total_move:
  "src \<noteq> dst \<Longrightarrow> wallet_total (move_amount now u c src dst amt ws) u' c' = wallet_total ws u' c'"
  by (rule wallets.total_move)

lemma wallet_total_add:
  "wallet_total (add_amount now u c b amt (ensure_wallet now u c ws)) u' c' =
     wallet_total ws u' c' + (if u' = u \<and> c' = c then amt else 0)"
  by (cases b) (simp_all add: wallet_total_def balance_add_amount)

lemma wallet_total_move_all:
  "src \<noteq> dst \<Longrightarrow> wallet_total (move_all now src dst agg ws) u c = wallet_total ws u c"
  by (induction agg arbitrary: ws)
    (auto simp: move_all_def wallet_total_move wallets.total_ensure)

lemma transition_conserves:
  assumes "transitionLedgerAndWallet now cid target actor reason ov db = (Inr r, db')"
  shows "conserves db db'"
    and "commission_adjustments db' = commission_adjustments db"
    and "owner_of (commission_ledger db') = owner_of (commission_ledger db)"
    and "owner_of (commission_ledger db) cid \<noteq> None"
proof -
  obtain row where
    row: "first_row (\<lambda>r. cl_id r = cid) (commission_ledger db) = Some row" and
    edge: "target \<in> set (TRANSITION_MATRIX (cl_status row))" and
    db': "db' = db\<lparr>affiliate_wallets :=
        move_amount now (cl_recipient row) (cl_currency row) (bucketForStatus (cl_status row))
          (bucketForStatus target) (case ov of Some a \<Rightarrow> a | None \<Rightarrow> cl_amount row)
          (ensure_wallet now (cl_recipient row) (cl_currency row) (affiliate_wallets db)),
        commission_ledger :=
          update_rows (\<lambda>r. cl_id r = cid) (stamp now target reason actor) (commission_ledger db)\<rparr>"
    using assms by (rule transition_ok)
  show own: "owner_of (commission_ledger db') = owner_of (commission_ledger db)"
    by (simp add: db' owner_of_update)
  show "commission_adjustments db' = commission_adjustments db" by (simp add: db')
  show "owner_of (commission_ledger db) cid \<noteq> None" using owner_of_first_row [OF row] by simp
  show "conserves db db'"
    by (rule conserves_step [where new = "[]"])
      (simp_all add: own, simp_all add: db' map_cl_id_update allowed_buckets_differ [OF edge]
        wallet_total_move wallets.total_ensure manual_of_def)
qed

lemma transitionCommission_conserves: "conserves db (snd (transitionCommission now cid t actor reason db))"
  unfolding transitionCommission_def
  by (rule transaction_preserves) (auto dest: transition_conserves(1))

lemma conserves_log_reversal:
  assumes "conserves db db'" and "owner_of (commission_ledger db') (adj_commission a) \<noteq> None"
    and "adj_type a \<noteq> MANUAL_ADJUSTMENT"
  shows "conserves db (db'\<lparr>commission_adjustments := commission_adjustments db' @ [a]\<rparr>)"
proof -
  have "conserves db' (db'\<lparr>commission_adjustments := commission_adjustments db' @ [a]\<rparr>)"
    by (rule conserves_step [where new = "[a]"]) (use assms(2,3) in \<open>auto simp: manual_of_def\<close>)
  with assms(1) show ?thesis by (rule conserves_trans)
qed

lemma reverse_body_ok:
  assumes "reverse_body now cid reason actor amount db = (Inr x, db')"
  obtains (partial) row amt where
    "first_row (\<lambda>r. cl_id r = cid) (commission_ledger db) = Some row"
    "0 < amt" "amt < cl_amount row" "bucketForStatus (cl_status row) \<noteq> reversed_balance"
    "db' = db\<lparr>affiliate_wallets :=
        move_amount now (cl_recipient row) (cl_currency row) (bucketForStatus (cl_status row))
          reversed_balance amt (affiliate_wallets db),
        commission_adjustments := commission_adjustments db @
          [\<lparr>adj_commission = cid, adj_type = PARTIAL_REVERSAL, adj_amount = - amt,
            adj_currency = cl_currency row, adj_reason = Some reason, adj_by = actor,
            adj_created_at = now\<rparr>]\<rparr>"
  | (whole) row r db1 where
    "first_row (\<lambda>r. cl_id r = cid) (commission_ledger db) = Some row" "0 < cl_amount row"
    "transitionLedgerAndWallet now cid REVERSED (Some actor) (Some reason) (Some (cl_amount row)) db
       = (Inr r, db1)"
    "db' = db1\<lparr>commission_adjustments := commission_adjustments db1 @
          [\<lparr>adj_commission = cid, adj_type = REVERSAL, adj_amount = - cl_amount row,
            adj_currency = cl_currency row, adj_reason = Some reason, adj_by = actor,
            adj_created_at = now\<rparr>]\<rparr>"
proof -
  from assms obtain row where row: "first_row (\<lambda>r. cl_id r = cid) (commission_ledger db) = Some row"
    by (cases "first_row (\<lambda>r. cl_id r = cid) (commission_ledger db)") (auto simp: reverse_body_def)
  from assms row obtain amt where
    amt: "(case amount of None \<Rightarrow> Finite (cl_amount row) | Some a \<Rightarrow> a) = Finite amt"
    by (cases "case amount of None \<Rightarrow> Finite (cl_amount row) | Some a \<Rightarrow> a") (simp_all add: reverse_body_def)
  with assms row have bounds: "0 < amt" "amt \<le> cl_amount row"
    by (simp_all add: reverse_body_def split: if_splits)
  show thesis
  proof (cases "amt < cl_amount row")
    case True
    with assms row amt bounds show thesis
      by (intro partial [OF row bounds(1) True]) (simp_all add: reverse_body_def Let_def split: if_splits)
  next
    case False
    with bounds have eq: "amt = cl_amount row" by simp
    obtain res db1 where tr: "transitionLedgerAndWallet now cid REVERSED (Some actor) (Some reason)
        (Some (cl_amount row)) db = (res, db1)" by fastforce
    with assms row amt bounds eq show thesis
      by (cases res) (auto simp: reverse_body_def Let_def intro!: whole [OF row])
  qed
qed

lemma reverse_conserves: "conserves db (snd (reverseCommission now cid reason actor amt db))"
  unfolding reverseCommission_def
proof (rule transaction_preserves)
  fix x db' assume "reverse_body now cid reason actor amt db = (Inr x, db')"
  then show "conserves db db'"
  proof (cases rule: reverse_body_ok)
    case (partial row amt)
    let ?db = "db\<lparr>affiliate_wallets := affiliate_wallets db'\<rparr>"
    have "conserves db ?db"
      by (rule conserves_step [where new = "[]"])
        (use partial in \<open>simp_all add: manual_of_def wallet_total_move\<close>)
    then have "conserves db (?db\<lparr>commission_adjustments := commission_adjustments ?db @
          [\<lparr>adj_commission = cid, adj_type = PARTIAL_REVERSAL, adj_amount = - amt,
            adj_currency = cl_currency row, adj_reason = Some reason, adj_by = actor,
            adj_created_at = now\<rparr>]\<rparr>)"
      by (rule conserves_log_reversal) (use owner_of_first_row [OF partial(1)] in simp_all)
    then show ?thesis by (simp add: partial(5))
  next
    case (whole row r db1)
    note tr = transition_conserves [OF whole(3)]
    from tr(1) show ?thesis
      unfolding whole(4) by (rule conserves_log_reversal) (use tr in simp_all)
  qed
qed simp

lemma adjust_conserves: "conserves db (snd (adjustCommission D now cid amt reason actor db))"
proof (cases amt)
  case (Finite delta)
  have "conserves db (snd (transaction (adjust_body D now cid delta reason actor) db))"
  proof (rule transaction_preserves)
    fix x db' assume body: "adjust_body D now cid delta reason actor db = (Inr x, db')"
    then obtain row where row: "first_row (\<lambda>r. cl_id r = cid) (commission_ledger db) = Some row"
      by (cases "first_row (\<lambda>r. cl_id r = cid) (commission_ledger db)") (auto simp: adjust_body_def)
    let ?a = "\<lparr>adj_commission = cid, adj_type = MANUAL_ADJUSTMENT, adj_amount = delta,
                adj_currency = cl_currency row, adj_reason = Some reason, adj_by = actor,
                adj_created_at = now\<rparr>"
    have led: "commission_ledger db' = update_rows (\<lambda>r. cl_id r = cid)
        (\<lambda>r. r\<lparr>cl_amount := d_plus D (cl_amount row) delta, cl_updated_at := now\<rparr>) (commission_ledger db)"
      and adj: "commission_adjustments db' = commission_adjustments db @ [?a]"
      and ws: "affiliate_wallets db' = add_amount now (cl_recipient row) (cl_currency row)
        (bucketForStatus (cl_status row)) delta
        (ensure_wallet now (cl_recipient row) (cl_currency row) (affiliate_wallets db))"
      using body row by (auto simp: adjust_body_def Let_def split: if_splits)
    have own: "owner_of (commission_ledger db') = owner_of (commission_ledger db)"
      by (simp add: led owner_of_update)
    show "conserves db db'"
    proof (rule conserves_step [OF _ _ adj])
      show "distinct (map cl_id (commission_ledger db))
            \<Longrightarrow> distinct (map cl_id (commission_ledger db'))"
        by (simp add: led map_cl_id_update)
    qed (use owner_of_first_row [OF row] own in \<open>auto simp: ws wallet_total_add manual_of_def\<close>)
  qed simp
  with Finite show ?thesis by (simp add: adjustCommission_def)
qed (simp_all add: adjustCommission_def)

lemma clear_step_conserves:
  "src \<noteq> dst \<Longrightarrow> conserves db (snd (clear_step D now p t src dst db))"
  by (rule conserves_step [where new = "[]"])
    (simp_all add: clear_step_def Let_def owner_of_update map_cl_id_update wallet_total_move_all manual_of_def)

lemma clear_conserves: "conserves db (snd (clearEligible D now db))"
proof -
  obtain n db1 m db2 where
    one: "clear_step D now (pending_due now) CLEARED pending_balance cleared_balance db = (n, db1)" and
    two: "clear_step D now (cleared_due now) AVAILABLE cleared_balance available_balance db1 = (m, db2)"
    by (metis surj_pair)
  have "conserves db db1" "conserves db1 db2"
    using clear_step_conserves [of pending_balance cleared_balance db D now "pending_due now" CLEARED]
      clear_step_conserves [of cleared_balance available_balance db1 D now "cleared_due now" AVAILABLE]
      one two by simp_all
  then have "conserves db db2" by (rule conserves_trans)
  with one two show ?thesis by (simp add: clearEligible_def)
qed

lemma credit_conserves:
  "conserves db (snd (creditReferral D now ids src plan key purchase amount ccy db))"
proof -
  have ev: "conserves db (db\<lparr>referral_events := es\<rparr>)" for es
    by (rule conserves_step [where new = "[]"]) (simp_all add: manual_of_def)
  have "conserves db (snd (credit_transaction now ids key src plan purchase prule cs db))" for prule cs
  proof (cases "insert_ledger_all (map (\<lambda>(i, c). ledger_row now (ids i) key plan db prule c)
                  (enumerate 0 cs)) (commission_ledger db)")
    case None
    then show ?thesis by (simp add: credit_transaction_def)
  next
    case (Some led)
    then have "conserves db (db\<lparr>commission_ledger := led, referral_events := es\<rparr>)" for es
      by (intro conserves_step [where new = "[]"])
        (auto simp: manual_of_def owner_of_append dest: insert_ledger_all_Some insert_ledger_all_distinct)
    with Some show ?thesis by (simp add: credit_transaction_def)
  qed
  with ev show ?thesis by (auto simp: creditReferral_def Let_def split: option.splits)
qed

lemma updateRule_conserves: "conserves db (snd (updateRule rid rate act til db))"
  by (rule conserves_step [where new = "[]"]) (simp_all add: manual_of_def)

lemma exec_conserves: "conserves db (exec_commission D req db)"
proof (cases "(D, req, db)" rule: exec_commission.cases)
qed (auto simp: transitionCommission_conserves reverse_conserves adjust_conserves clear_conserves
      credit_conserves updateRule_conserves holdCommission_def releaseCommission_def
      creditReferralForLicense_def creditReferralForSettledRevenue_def)

interpretation commission_conservation: monotone_service "exec_commission D" conserves for D
  by unfold_locales (auto intro: conserves_trans exec_conserves)

section \<open>Idempotency keys\<close>

definition ledger_keys :: "referral_db \<Rightarrow> idem_key set" where
  "ledger_keys db = {k. Some k \<in> set (map cl_idempotency_key (commission_ledger db))}"

lemma in_ledger_keys:
  "k \<in> ledger_keys db \<longleftrightarrow> exists_row (\<lambda>r. cl_idempotency_key r = Some k) (commission_ledger db)"
  by (force simp: ledger_keys_def list_ex_iff)

lemma ledger_keys_update:
  assumes "commission_ledger db' = update_rows p f (commission_ledger db)"
    and "\<And>r. cl_idempotency_key (f r) = cl_idempotency_key r"
  shows "ledger_keys db' = ledger_keys db"
  unfolding ledger_keys_def assms(1) by (simp only: map_update_rows_frame [of p cl_idempotency_key f, OF assms(2)])

lemma ledger_keys_frame: "commission_ledger db' = commission_ledger db \<Longrightarrow> ledger_keys db' = ledger_keys db"
  by (simp add: ledger_keys_def)

lemma stamp_key [simp]: "cl_idempotency_key (stamp now t reason actor r) = cl_idempotency_key r"
  by (simp add: stamp_def)

lemma transition_keys:
  "transitionLedgerAndWallet now cid t actor reason ov db = (Inr r, db') \<Longrightarrow> ledger_keys db' = ledger_keys db"
  by (erule transition_ok)
    (rule ledger_keys_update [where p = "\<lambda>r. cl_id r = cid" and f = "stamp now t reason actor"], simp_all)

lemma reverse_keys:
  assumes "reverse_body now cid reason actor amount db = (Inr x, db')"
  shows "ledger_keys db' = ledger_keys db"
  using assms
proof (cases rule: reverse_body_ok)
  case (partial row amt)
  show ?thesis by (rule ledger_keys_frame) (simp add: partial(5))
next
  case (whole row r db1)
  have "ledger_keys db' = ledger_keys db1" by (rule ledger_keys_frame) (simp add: whole(4))
  with transition_keys [OF whole(3)] show ?thesis by simp
qed

lemma adjust_keys: "ledger_keys (snd (adjustCommission D now cid amt reason actor db)) = ledger_keys db"
proof (cases amt)
  case (Finite delta)
  have "ledger_keys (snd (transaction (adjust_body D now cid delta reason actor) db)) = ledger_keys db"
    by (rule transaction_preserves)
      (auto simp: adjust_body_def Let_def split: option.splits if_splits
        intro!: ledger_keys_update [where p = "\<lambda>r. cl_id r = cid"])
  with Finite show ?thesis by (simp add: adjustCommission_def)
qed (simp_all add: adjustCommission_def)

lemma clear_step_keys: "ledger_keys (snd (clear_step D now p t src dst db)) = ledger_keys db"
  by (auto simp: clear_step_def Let_def intro!: ledger_keys_update [where f = "stamp now t None None"])

lemma clear_keys: "ledger_keys (snd (clearEligible D now db)) = ledger_keys db"
  unfolding clearEligible_def Let_def by (simp add: case_prod_unfold clear_step_keys)

lemma credit_keys:
  "ledger_keys db \<subseteq> ledger_keys (snd (creditReferral D now ids src plan key purchase amount ccy db))"
proof -
  have "ledger_keys db \<subseteq> ledger_keys (snd (credit_transaction now ids key src plan purchase prule cs db))"
    for prule cs
    by (auto simp: credit_transaction_def ledger_keys_def split: option.splits
        dest!: insert_ledger_all_Some)
  moreover have "ledger_keys (db\<lparr>referral_events := es\<rparr>) = ledger_keys db" for es
    by (rule ledger_keys_frame) simp
  ultimately show ?thesis by (auto simp: creditReferral_def Let_def split: option.splits)
qed

lemma exec_keys: "ledger_keys db \<subseteq> ledger_keys (exec_commission D req db)"
proof -
  have "ledger_keys (snd (transitionCommission now cid t actor reason db)) = ledger_keys db" for now cid t actor reason
    unfolding transitionCommission_def by (rule transaction_preserves) (simp_all add: transition_keys)
  moreover have "ledger_keys (snd (reverseCommission now cid reason actor amt db)) = ledger_keys db"
    for now cid reason actor amt
    unfolding reverseCommission_def by (rule transaction_preserves) (simp_all add: reverse_keys)
  moreover have "ledger_keys (snd (updateRule rid rate act til db)) = ledger_keys db" for rid rate act til
    by (rule ledger_keys_frame) simp
  ultimately show ?thesis
    using credit_keys by (cases "(D, req, db)" rule: exec_commission.cases)
      (simp_all add: adjust_keys clear_keys holdCommission_def releaseCommission_def
        creditReferralForLicense_def creditReferralForSettledRevenue_def)
qed

interpretation commission_keys:
  monotone_service "exec_commission D" "\<lambda>db db'. ledger_keys db \<subseteq> ledger_keys db'" for D
  by unfold_locales (auto dest: subsetD [OF exec_keys])

section \<open>What a credit does\<close>

lemma credit_known_key:
  assumes "key \<in> ledger_keys db"
  shows "\<exists>res. fst (creditReferral D now ids src plan key purchase amount ccy db) = Inr res \<and> credited res = 0"
    and "commission_ledger (snd (creditReferral D now ids src plan key purchase amount ccy db)) = commission_ledger db"
proof -
  have "credit_transaction now ids key src plan purchase prule cs db =
      (Inr \<lparr>credited = 0, skipped = Some Duplicate\<rparr>, db)" for prule cs
    using assms by (simp add: credit_transaction_def in_ledger_keys)
  then show "\<exists>res. fst (creditReferral D now ids src plan key purchase amount ccy db) = Inr res \<and> credited res = 0"
    "commission_ledger (snd (creditReferral D now ids src plan key purchase amount ccy db)) = commission_ledger db"
    by (auto simp: creditReferral_def Let_def split: option.splits)
qed

lemma credit_transaction_cases:
  assumes "cs \<noteq> []"
  shows "credit_transaction now ids key src plan purchase prule cs db =
           (Inr \<lparr>credited = 0, skipped = Some Duplicate\<rparr>, db) \<or>
         (\<exists>c ev. cs = [c] \<and>
           credit_transaction now ids key src plan purchase prule cs db =
             (Inr \<lparr>credited = 1, skipped = None\<rparr>,
              db\<lparr>commission_ledger := commission_ledger db @ [ledger_row now (ids 0) key plan db prule c],
                 referral_events := referral_events db @ [ev]\<rparr>))"
proof (cases cs)
  case (Cons c rest)
  let ?rows = "map (\<lambda>(i, c). ledger_row now (ids i) key plan db prule c) (enumerate 0 cs)"
  show ?thesis
  proof (cases rest)
    case Nil
    with Cons show ?thesis
      by (cases "insert_ledger_all ?rows (commission_ledger db)")
        (auto simp: credit_transaction_def insert_ledger_def split: option.splits if_splits)
  next
    case (Cons c' rest')
    have "insert_ledger_all ?rows (commission_ledger db) = None"
      unfolding \<open>cs = c # rest\<close> Cons
      by (simp del: insert_ledger_all.simps add: insert_ledger_all_same_key [where k = key] ledger_row_def)
    then show ?thesis by (simp add: credit_transaction_def)
  qed
qed (use assms in simp)

section \<open>Exact aggregation\<close>

text \<open>
  The ledger column is \<^verbatim>\<open>DECIMAL(18,8)\<close>: amounts are multiples of one hundred-millionth below
  \<open>10\<^sup>10\<close>. While their sum stays below \<open>10\<^sup>12\<close>, twenty digits are enough and the aggregation of
  the clearing job is exact.
\<close>

definition exact_rows :: "commission_row list \<Rightarrow> bool" where
  "exact_rows rows \<longleftrightarrow>
     (\<forall>r\<in>set rows. grid8 (cl_amount r)) \<and>
     sum_list (map (\<lambda>r. \<bar>cl_amount r\<bar>) rows) < 10 ^ 12"

definition sum_for :: "uuid \<Rightarrow> string \<Rightarrow> commission_row list \<Rightarrow> rat" where
  "sum_for u c rows = sum_list (map cl_amount (filter (\<lambda>r. cl_recipient r = u \<and> cl_currency r = c) rows))"

lemma grid8_sum: "(\<forall>r\<in>set rows. grid8 (f r)) \<Longrightarrow> grid8 (sum_list (map f rows))"
proof (induction rows)
  case Nil
  show ?case unfolding grid8_def by (rule exI [of _ 0]) simp
next
  case (Cons r rows)
  then show ?case by (simp add: grid8_add)
qed

lemma abs_sum_for_le: "\<bar>sum_for u c rows\<bar> \<le> sum_list (map (\<lambda>r. \<bar>cl_amount r\<bar>) rows)"
proof (induction rows)
  case (Cons r rows)
  have "\<bar>cl_amount r + sum_for u c rows\<bar> \<le> \<bar>cl_amount r\<bar> + \<bar>sum_for u c rows\<bar>" by (rule abs_triangle_ineq)
  with Cons show ?case unfolding sum_for_def by (simp split: if_split) linarith
qed (simp add: sum_for_def)

lemma exact_rows_append: "exact_rows (xs @ ys) \<Longrightarrow> exact_rows xs"
proof -
  have "0 \<le> sum_list (map (\<lambda>r. \<bar>cl_amount r\<bar>) ys)" by (rule sum_list_nonneg) auto
  then show "exact_rows (xs @ ys) \<Longrightarrow> exact_rows xs" by (simp add: exact_rows_def)
qed

lemma exact_rows_filter: "exact_rows rows \<Longrightarrow> exact_rows (filter p rows)"
proof -
  have "sum_list (map (\<lambda>r. \<bar>cl_amount r\<bar>) (filter p rows)) \<le> sum_list (map (\<lambda>r. \<bar>cl_amount r\<bar>) rows)"
    by (induction rows) auto
  then show "exact_rows rows \<Longrightarrow> exact_rows (filter p rows)" by (auto simp: exact_rows_def)
qed

lemma sum_for_fits: "exact_rows rows \<Longrightarrow> fits20 (sum_for u c rows)"
proof -
  assume ex: "exact_rows rows"
  then have "grid8 (sum_for u c rows)"
    unfolding sum_for_def by (intro grid8_sum) (simp add: exact_rows_def)
  moreover have "\<bar>sum_for u c rows\<bar> < 10 ^ 12"
    using abs_sum_for_le [of u c rows] ex by (simp add: exact_rows_def)
  ultimately show ?thesis by (rule grid8_fits20)
qed

definition agg_val :: "((uuid \<times> string) \<times> rat) list \<Rightarrow> uuid \<times> string \<Rightarrow> rat" where
  "agg_val agg k = (case map_of agg k of None \<Rightarrow> 0 | Some x \<Rightarrow> x)"

lemma agg_add_val:
  "agg_val (agg_add D k x agg) k' = (if k' = k then d_plus D (agg_val agg k) x else agg_val agg k')"
  by (induction agg) (auto simp: agg_val_def)

lemma agg_add_keys:
  "map fst (agg_add D k x agg) = (if k \<in> set (map fst agg) then map fst agg else map fst agg @ [k])"
  by (induction agg) (auto split: if_splits)

lemma agg_add_distinct: "distinct (map fst agg) \<Longrightarrow> distinct (map fst (agg_add D k x agg))"
  unfolding agg_add_keys by simp

lemma aggregate_snoc:
  "aggregate D (rows @ [r]) = agg_add D (cl_recipient r, cl_currency r) (cl_amount r) (aggregate D rows)"
  by (simp add: aggregate_def)

lemma aggregate_distinct: "distinct (map fst (aggregate D rows))"
  by (induction rows rule: rev_induct) (simp_all add: aggregate_snoc agg_add_distinct, simp add: aggregate_def)

lemma aggregate_exact:
  assumes "decimal_arith D" and "exact_rows rows"
  shows "agg_val (aggregate D rows) (u, c) = sum_for u c rows"
  using assms(2)
proof (induction rows rule: rev_induct)
  case Nil
  show ?case by (simp add: aggregate_def agg_val_def sum_for_def)
next
  case (snoc r rows)
  then have IH: "agg_val (aggregate D rows) (u, c) = sum_for u c rows"
    by (blast dest: exact_rows_append)
  have sum: "sum_for u c (rows @ [r]) =
      sum_for u c rows + (if cl_recipient r = u \<and> cl_currency r = c then cl_amount r else 0)"
    by (simp add: sum_for_def)
  show ?case
    using sum_for_fits [OF snoc.prems, of u c] IH
    by (auto simp: aggregate_snoc agg_add_val sum decimal_arith.plus_exact [OF assms(1)])
qed

lemma balance_move_all:
  assumes "src \<noteq> dst"
  shows "distinct (map fst agg) \<Longrightarrow>
    balance (move_all now src dst agg ws) u c b =
      balance ws u c b +
      (if b = src then - agg_val agg (u, c) else if b = dst then agg_val agg (u, c) else 0)"
proof (induction agg arbitrary: ws)
  case Nil
  show ?case by (simp add: move_all_def agg_val_def)
next
  case (Cons p agg)
  obtain u' c' x where p: "p = ((u', c'), x)" by (metis surj_pair)
  let ?ws = "move_amount now u' c' src dst x (ensure_wallet now u' c' ws)"
  have "move_all now src dst (p # agg) ws = move_all now src dst agg ?ws"
    by (simp add: p move_all_def)
  moreover have "agg_val agg (u', c') = 0"
  proof -
    have "map_of agg (u', c') = None" using Cons.prems by (simp add: p map_of_eq_None_iff)
    then show ?thesis by (simp add: agg_val_def)
  qed
  ultimately show ?case
    using Cons.IH [of ?ws] Cons.prems wallets.bal_ensure_move [OF assms, of now u' c' x ws u c b] assms
    by (auto simp: p agg_val_def)
qed

lemma clear_step_effect:
  assumes "decimal_arith D" and "exact_rows (commission_ledger db)" and "src \<noteq> dst"
    and "distinct (map cl_id (commission_ledger db))"
  shows "commission_ledger (snd (clear_step D now p t src dst db)) =
           update_rows p (stamp now t None None) (commission_ledger db)"
    and "balance (affiliate_wallets (snd (clear_step D now p t src dst db))) u c b =
           balance (affiliate_wallets db) u c b +
           (let x = sum_for u c (filter p (commission_ledger db))
            in if b = src then - x else if b = dst then x else 0)"
    and "fst (clear_step D now p t src dst db) = count_rows p (commission_ledger db)"
proof -
  let ?led = "commission_ledger db"
  have "update_rows (\<lambda>r. cl_id r \<in> set (map cl_id (filter p ?led))) f ?led = update_rows p f ?led" for f
    unfolding update_rows_def
  proof (rule map_cong [OF refl])
    fix r assume r: "r \<in> set ?led"
    have "cl_id r \<in> set (map cl_id (filter p ?led)) \<longleftrightarrow> p r"
      using assms(4) r by (auto simp: distinct_map inj_on_def)
    then show "(if cl_id r \<in> set (map cl_id (filter p ?led)) then f r else r) = (if p r then f r else r)"
      by simp
  qed
  then show "commission_ledger (snd (clear_step D now p t src dst db)) =
           update_rows p (stamp now t None None) ?led"
    by (auto simp: clear_step_def Let_def filter_empty_conv update_rows_none)
  have "balance (move_all now src dst (aggregate D (filter p ?led)) ws) u c b =
      balance ws u c b + (let x = sum_for u c (filter p ?led)
            in if b = src then - x else if b = dst then x else 0)" for ws
    using balance_move_all [OF assms(3) aggregate_distinct, of now D "filter p ?led" ws u c b]
    by (simp add: aggregate_exact [OF assms(1) exact_rows_filter [OF assms(2)]] Let_def)
  moreover have "sum_for u c (filter p ?led) = 0" if "filter p ?led = []"
    unfolding that by (simp add: sum_for_def)
  ultimately show "balance (affiliate_wallets (snd (clear_step D now p t src dst db))) u c b =
           balance (affiliate_wallets db) u c b +
           (let x = sum_for u c (filter p (commission_ledger db))
            in if b = src then - x else if b = dst then x else 0)"
    by (cases "filter p ?led = []") (simp_all add: clear_step_def Let_def)
  show "fst (clear_step D now p t src dst db) = count_rows p ?led"
    by (simp add: clear_step_def Let_def count_rows_def)
qed

text \<open>The first half of the job stamps rows that the second half then leaves alone.\<close>

lemma cleared_due_after_clear:
  "filter (cleared_due now) (update_rows (pending_due now) (stamp now CLEARED None None) led) =
     filter (cleared_due now) led"
  by (induction led) (auto simp: cleared_due_def pending_due_def stamp_def)

lemma two_promotions:
  "update_rows (cleared_due now) (stamp now AVAILABLE None None)
     (update_rows (pending_due now) (stamp now CLEARED None None) led) =
   map (\<lambda>r. if pending_due now r then stamp now CLEARED None None r
            else if cleared_due now r then stamp now AVAILABLE None None r else r) led"
  by (induction led) (auto simp: cleared_due_def stamp_def)

lemma exact_rows_cong: "map cl_amount rows = map cl_amount rows' \<Longrightarrow> exact_rows rows = exact_rows rows'"
proof -
  have "exact_rows rs \<longleftrightarrow> (\<forall>x\<in>set (map cl_amount rs). grid8 x) \<and>
      sum_list (map abs (map cl_amount rs)) < 10 ^ 12" for rs
    by (simp add: exact_rows_def comp_def)
  then show "map cl_amount rows = map cl_amount rows' \<Longrightarrow> exact_rows rows = exact_rows rows'"
    by (simp only:)
qed

section \<open>Properties\<close>

text \<open>A ledger with one commission of user 11 in each of three states, and the seeded plan.\<close>

definition example_commission :: "uuid \<Rightarrow> commission_status \<Rightarrow> rat \<Rightarrow> time \<Rightarrow> commission_row" where
  "example_commission i st amt t =
     \<lparr>cl_id = i, cl_recipient = 11, cl_source = 20, cl_source_subscription = None,
      cl_purchase_id = 30 + i, cl_invoice_id = None, cl_plan_id = 7, cl_plan_version = 1,
      cl_purchase_number = 1, cl_purchase_type = FIRST_PURCHASE, cl_level = 1, cl_base_rate = 15 / 100,
      cl_multiplier = 1, cl_effective_rate = 15 / 100, cl_commissionable = 100, cl_amount = amt,
      cl_currency = ''USD'', cl_status = st, cl_rule_id = None, cl_purchase_rule_id = 1,
      cl_idempotency_key = Some (RevenueKey (30 + i)), cl_cleared_at = Some t, cl_available_at = None,
      cl_paid_at = None, cl_reversed_at = None, cl_reversal_reason = None, cl_reversed_by = None,
      cl_created_at = t, cl_updated_at = t\<rparr>"

definition example_db :: referral_db where
  "example_db =
     \<lparr>relationships = [\<lparr>rel_child = 20, rel_parent = 11, rel_level = 1\<rparr>],
      ref_plans = [\<lparr>rp_id = 7, rp_code = ''PRO''\<rparr>],
      commission_rules =
        [\<lparr>cr_id = 1, cr_plan = 7, cr_level = 1, cr_base_rate = 15 / 100, cr_active = True,
          cr_effective_from = 0, cr_effective_until = None\<rparr>],
      purchase_commission_rules =
        [\<lparr>pr_id = 1, pr_type = FIRST_PURCHASE, pr_multiplier = 1, pr_max_level = 5, pr_active = True,
          pr_effective_from = 0, pr_effective_until = None\<rparr>],
      commission_ledger =
        [example_commission 1 PENDING 15 0, example_commission 2 CLEARED 20 0,
         example_commission 3 REVERSED 5 0],
      affiliate_wallets =
        [\<lparr>w_user = 11, w_currency = ''USD'',
          w_balance = (\<lambda>_. 0)(pending_balance := 15, cleared_balance := 20, reversed_balance := 5),
          w_updated_at = 0\<rparr>],
      commission_adjustments = [], referral_events = [], payouts = [], payout_items = [],
      finance_entries = []\<rparr>"



text \<open>
  Whatever sequence of requests the service handles, no commission is lost and its status only
  follows edges of the transition matrix; a commission in a terminal status keeps it for ever.
\<close>

theorem commission_lifecycle_paths:
  assumes "distinct (map cl_id (commission_ledger db))" and "r \<in> set (commission_ledger db)"
  shows "\<exists>r'\<in>set (commission_ledger (run_requests (exec_commission D) reqs db)).
    cl_id r' = cl_id r \<and>
    (\<lambda>s t. t \<in> set (TRANSITION_MATRIX s))\<^sup>*\<^sup>* (cl_status r) (cl_status r') \<and>
    (TRANSITION_MATRIX (cl_status r) = [] \<longrightarrow> cl_status r' = cl_status r)"
proof -
  have "status_edge = (\<lambda>s t. t \<in> set (TRANSITION_MATRIX s))" by (auto simp: fun_eq_iff status_edge_def)
  with commission_lifecycle.run_leq [of db D reqs] assms obtain r' where
    r': "r' \<in> set (commission_ledger (run_requests (exec_commission D) reqs db))" "cl_id r' = cl_id r"
    "(\<lambda>s t. t \<in> set (TRANSITION_MATRIX s))\<^sup>*\<^sup>* (cl_status r) (cl_status r')"
    by (auto simp: ledger_path_def)
  moreover have "cl_status r' = cl_status r" if "TRANSITION_MATRIX (cl_status r) = []"
    using r'(3) that by (cases rule: converse_rtranclpE) auto
  ultimately show ?thesis by blast
qed

theorem commission_lifecycle_paths_witness:
  "\<exists>r'\<in>set (commission_ledger (run_requests (exec_commission dec20)
       [(1, (\<lambda>i. i), Release 3 99), (2, (\<lambda>i. i), Reverse 3 ''x'' 99 None), (days 60, (\<lambda>i. i), Clear)] example_db)).
     cl_id r' = 3 \<and> cl_status r' = REVERSED"
proof -
  have h: "distinct (map cl_id (commission_ledger example_db))"
    "example_commission 3 REVERSED 5 0 \<in> set (commission_ledger example_db)"
    by (simp_all add: example_db_def example_commission_def)
  show ?thesis
    using commission_lifecycle_paths [OF h, of dec20
      "[(1, (\<lambda>i. i), Release 3 99), (2, (\<lambda>i. i), Reverse 3 ''x'' 99 None), (days 60, (\<lambda>i. i), Clear)]"]
    by (auto simp: example_commission_def)
qed

text \<open>
  No sequence of requests creates or destroys money: the sum of a wallet's six buckets changes
  exactly by the manual adjustments recorded for the owner's commissions. Crediting, clearing,
  holding, releasing and both kinds of reversal only move amounts between buckets.
\<close>

theorem wallet_totals_conserved:
  assumes "ledger_wf db"
  shows "wallet_total (affiliate_wallets (run_requests (exec_commission D) reqs db)) u c -
           manual_sum (run_requests (exec_commission D) reqs db) u c =
         wallet_total (affiliate_wallets db) u c - manual_sum db u c"
  using commission_conservation.run_leq [of db D reqs] assms by (simp add: conserves_def)

theorem wallet_totals_conserved_witness:
  "wallet_total (affiliate_wallets (run_requests (exec_commission dec20)
       [(1, (\<lambda>i. i), Hold 2 ''x'' 99), (days 60, (\<lambda>i. i), Clear), (days 61, (\<lambda>i. i), Adjust 1 (Finite 7) ''y'' 99)]
       example_db)) 11 ''USD'' -
     manual_sum (run_requests (exec_commission dec20)
       [(1, (\<lambda>i. i), Hold 2 ''x'' 99), (days 60, (\<lambda>i. i), Clear), (days 61, (\<lambda>i. i), Adjust 1 (Finite 7) ''y'' 99)]
       example_db) 11 ''USD'' = 40"
proof -
  have "ledger_wf example_db" by (simp add: ledger_wf_def example_db_def example_commission_def)
  moreover have "wallet_total (affiliate_wallets example_db) 11 ''USD'' - manual_sum example_db 11 ''USD'' = 40"
    by (simp add: wallet_total_def balance_def manual_sum_def manual_of_def example_db_def)
  ultimately show ?thesis by (simp only: wallet_totals_conserved)
qed

text \<open>
  C3. A settled payment is credited at most once: after a credit that wrote to the ledger, and any
  further requests, a second credit with the same idempotency key reports zero credited entries and
  leaves the ledger unchanged, whatever its other arguments.
\<close>

theorem credit_once_per_key:
  assumes "creditReferral D now ids src plan key purchase amount ccy db = (Inr res, db1)"
    and "0 < credited res" and "db2 = run_requests (exec_commission D) reqs db1"
  shows "\<exists>res'. fst (creditReferral D now' ids' src' plan' key purchase' amount' ccy' db2) = Inr res' \<and>
    credited res' = 0 \<and>
    commission_ledger (snd (creditReferral D now' ids' src' plan' key purchase' amount' ccy' db2)) =
      commission_ledger db2"
proof -
  obtain prule cs where "cs \<noteq> []"
    and "credit_transaction now ids key src plan purchase prule cs db = (Inr res, db1)"
    using assms by (auto simp: creditReferral_def Let_def split: option.splits if_splits)
  then have "key \<in> ledger_keys db1"
    using assms(2) credit_transaction_cases [of cs now ids key src plan purchase prule db]
    by (auto simp: ledger_keys_def ledger_row_def)
  then have "key \<in> ledger_keys db2"
    unfolding assms(3) using commission_keys.run_leq by blast
  from credit_known_key [OF this, of D now' ids' src' plan' purchase' amount' ccy'] show ?thesis
    by blast
qed

theorem credit_once_per_key_witness:
  "\<exists>res'. fst (creditReferral dec20 5 (\<lambda>i. 50 + i) 20 7 (RevenueKey 77) 77 100 ''USD''
      (run_requests (exec_commission dec20) [(days 15, (\<lambda>i. i), Clear)]
        (snd (creditReferral dec20 4 (\<lambda>i. 40 + i) 20 7 (RevenueKey 77) 77 100 ''USD'' example_db)))) = Inr res' \<and>
    credited res' = 0"
proof -
  obtain res db1 where
    c: "creditReferral dec20 4 (\<lambda>i. 40 + i) 20 7 (RevenueKey 77) 77 100 ''USD'' example_db = (Inr res, db1)"
    and pos: "0 < credited res"
  proof
    show "creditReferral dec20 4 (\<lambda>i. 40 + i) 20 7 (RevenueKey 77) 77 100 ''USD'' example_db =
      (Inr \<lparr>credited = 1, skipped = None\<rparr>,
       snd (creditReferral dec20 4 (\<lambda>i. 40 + i) 20 7 (RevenueKey 77) 77 100 ''USD'' example_db))"
      by (rule prod_eqI, code_simp, simp)
  qed simp
  show ?thesis
    unfolding c snd_conv
    using credit_once_per_key [OF c pos refl, of 5 "\<lambda>i. 50 + i" 20 7 77 100 "''USD''" "[(days 15, (\<lambda>i. i), Clear)]"]
    by blast
qed

text \<open>
  C4. A credit pays at most one sponsor and never a wallet: either it credits nothing and leaves the
  ledger as it was, or the engine calculated exactly one commission, which is appended as PENDING
  under the key. A payment for which the engine calculates two or more levels is always rolled back,
  because every level is inserted under the same key and the key is unique. The wallets, the pending
  balance included, are untouched in every case.
\<close>

theorem credit_at_most_one_level:
  assumes "creditReferral D now ids src plan key purchase amount ccy db = (Inr res, db')"
  shows "affiliate_wallets db' = affiliate_wallets db \<and>
    (credited res = 0 \<and> commission_ledger db' = commission_ledger db \<or>
     credited res = 1 \<and>
     (\<exists>prule c. first_purchase_rule now db = Some prule \<and>
        credit_calculation D now src plan purchase amount prule db = [c] \<and>
        cl_status (ledger_row now (ids 0) key plan db prule c) = PENDING \<and>
        cl_idempotency_key (ledger_row now (ids 0) key plan db prule c) = Some key \<and>
        commission_ledger db' = commission_ledger db @ [ledger_row now (ids 0) key plan db prule c]))"
proof -
  have tr: "affiliate_wallets db' = affiliate_wallets db \<and>
      (credited res = 0 \<and> commission_ledger db' = commission_ledger db \<or>
       credited res = 1 \<and> (\<exists>c. cs = [c] \<and>
         commission_ledger db' = commission_ledger db @ [ledger_row now (ids 0) key plan db prule c]))"
    if "cs \<noteq> []" "credit_transaction now ids key src plan purchase prule cs db = (Inr res, db')" for cs prule
    using that credit_transaction_cases [of cs now ids key src plan purchase prule db] by auto
  show ?thesis
  proof (cases "first_purchase_rule now db")
    case None
    with assms show ?thesis by (auto simp: creditReferral_def Let_def split: if_splits)
  next
    case (Some prule)
    with assms tr [of "credit_calculation D now src plan purchase amount prule db" prule] show ?thesis
      by (auto simp: creditReferral_def Let_def ledger_row_def split: if_splits)
  qed
qed

definition two_level_db :: referral_db where
  "two_level_db = example_db
     \<lparr>relationships := [\<lparr>rel_child = 20, rel_parent = 11, rel_level = 1\<rparr>,
                        \<lparr>rel_child = 20, rel_parent = 12, rel_level = 2\<rparr>],
      commission_rules := commission_rules example_db @
        [\<lparr>cr_id = 2, cr_plan = 7, cr_level = 2, cr_base_rate = 5 / 100, cr_active = True,
          cr_effective_from = 0, cr_effective_until = None\<rparr>]\<rparr>"

theorem credit_at_most_one_level_witness:
  "fst (creditReferral dec20 4 (\<lambda>i. 40 + i) 20 7 (RevenueKey 77) 77 100 ''USD'' two_level_db) =
     Inr \<lparr>credited = 0, skipped = Some Duplicate\<rparr> \<and>
   commission_ledger (snd (creditReferral dec20 4 (\<lambda>i. 40 + i) 20 7 (RevenueKey 77) 77 100 ''USD'' two_level_db)) =
     commission_ledger two_level_db"
proof -
  have r: "fst (creditReferral dec20 4 (\<lambda>i. 40 + i) 20 7 (RevenueKey 77) 77 100 ''USD'' two_level_db) =
     Inr \<lparr>credited = 0, skipped = Some Duplicate\<rparr>" by code_simp
  then obtain db' where c: "creditReferral dec20 4 (\<lambda>i. 40 + i) 20 7 (RevenueKey 77) 77 100 ''USD'' two_level_db =
     (Inr \<lparr>credited = 0, skipped = Some Duplicate\<rparr>, db')" by (metis prod.collapse)
  from credit_at_most_one_level [OF c] r c show ?thesis by auto
qed



end
