(* ===== verification/Payouts.thy ===== *)
theory Payouts
  imports Commissions
begin

text \<open>
  The payout service, \<^verbatim>\<open>control/src/modules/payouts/payouts.service.ts\<close>: the validation of a
  request, the first-in-first-out reservation of CLEARED commissions, and the administrative life
  cycle (approve, reject, process, reconcile, retry, cancel). The service shares ledger and wallets
  with the commission service. The identifier of a new payout and the time are arguments; the text of
  \<^verbatim>\<open>new Decimal(dto.amount)\<close> is the decimal it denotes.
\<close>

section \<open>Validation of a request\<close>

definition char_between :: "char \<Rightarrow> char \<Rightarrow> char \<Rightarrow> bool" where
  "char_between a b c \<longleftrightarrow> (of_char a :: nat) \<le> of_char c \<and> (of_char c :: nat) \<le> of_char b"

definition hex_char :: "char \<Rightarrow> bool" where
  "hex_char c \<longleftrightarrow>
     char_between (CHR ''a'') (CHR ''f'') c \<or> char_between (CHR ''A'') (CHR ''F'') c \<or>
     char_between (CHR ''0'') (CHR ''9'') c"

definition base58_char :: "char \<Rightarrow> bool" where
  "base58_char c \<longleftrightarrow>
     char_between (CHR ''1'') (CHR ''9'') c \<or> char_between (CHR ''A'') (CHR ''H'') c \<or>
     char_between (CHR ''J'') (CHR ''N'') c \<or> char_between (CHR ''P'') (CHR ''Z'') c \<or>
     char_between (CHR ''a'') (CHR ''k'') c \<or> char_between (CHR ''m'') (CHR ''z'') c"

text \<open>\<^verbatim>\<open>/^0x[a-fA-F0-9]{40}$/\<close> and \<^verbatim>\<open>/^T[1-9A-HJ-NP-Za-km-z]{33}$/\<close>\<close>

definition evm_address :: "string \<Rightarrow> bool" where
  "evm_address s \<longleftrightarrow> take 2 s = ''0x'' \<and> length s = 42 \<and> list_all hex_char (drop 2 s)"

definition tron_address :: "string \<Rightarrow> bool" where
  "tron_address s \<longleftrightarrow> take 1 s = ''T'' \<and> length s = 34 \<and> list_all base58_char (drop 1 s)"

record payout_dto =
  dto_amount :: decimal
  dto_method :: string
  dto_destination :: string
  dto_idempotency_key :: "string option"
  dto_currency :: "string option"
  dto_details :: "(string \<rightharpoonup> string) option"

definition detail :: "payout_dto \<Rightarrow> string \<Rightarrow> string option" where
  "detail dto k = (case dto_details dto of None \<Rightarrow> None | Some m \<Rightarrow> m k)"

definition bank_fields :: "string list" where
  "bank_fields = [''bank_name'', ''account_holder'', ''account_number'', ''swift_bic'', ''country'']"

definition missing_field :: "payout_dto \<Rightarrow> string \<Rightarrow> bool" where
  "missing_field dto f = (case detail dto f of None \<Rightarrow> True | Some v \<Rightarrow> js_trim v = [])"

definition validate_payout :: "payout_dto \<Rightarrow> rat result" where
  "validate_payout dto =
     (case dto_amount dto of
        Finite amount \<Rightarrow>
          if amount \<le> 0 then Inl (BadRequest ''amount must be positive'')
          else if dto_method dto \<notin> {''BANK_TRANSFER'', ''USDT''}
          then Inl (BadRequest ''method must be BANK_TRANSFER or USDT'')
          else if dto_method dto = ''BANK_TRANSFER'' \<and> list_ex (missing_field dto) bank_fields
          then Inl (BadRequest ''bank payout requires details'')
          else if dto_method dto = ''USDT'' \<and>
            detail dto ''network'' \<notin> {Some ''TRC20'', Some ''ERC20'', Some ''BEP20''}
          then Inl (BadRequest ''USDT payout requires details.network'')
          else if dto_method dto = ''USDT'' \<and> \<not> evm_address (js_trim (dto_destination dto)) \<and>
            \<not> tron_address (js_trim (dto_destination dto))
          then Inl (BadRequest ''USDT payout requires a valid wallet address in destination'')
          else if amount < 50 then Inl (BadRequest ''minimum payout is 50'')
          else Inr amount
      | _ \<Rightarrow> Inl (BadRequest ''amount must be positive''))"

section \<open>Requesting a payout\<close>

text \<open>
  The CLEARED commissions of a user in the order \<^verbatim>\<open>ORDER BY cleared_at ASC, created_at ASC\<close>, with
  NULL last: stable sorts by the keys in reverse order of importance.
\<close>

definition eligible_rows :: "uuid \<Rightarrow> string \<Rightarrow> commission_row list \<Rightarrow> commission_row list" where
  "eligible_rows u c led =
     sort_key (\<lambda>r. cl_cleared_at r = None)
       (sort_key (\<lambda>r. case cl_cleared_at r of None \<Rightarrow> 0 | Some t \<Rightarrow> t)
         (sort_key cl_created_at
           (filter (\<lambda>r. cl_recipient r = u \<and> cl_currency r = c \<and> cl_status r = CLEARED) led)))"

text \<open>The reservation loop: the items with their amounts and what remains uncovered.\<close>

fun reserve :: "decimal_ops \<Rightarrow> rat \<Rightarrow> commission_row list \<Rightarrow> (uuid \<times> rat) list \<times> rat" where
  "reserve D remaining [] = ([], remaining)"
| "reserve D remaining (row # rows) =
     (if remaining \<le> 0 then ([], remaining)
      else
        let amt = min (cl_amount row) remaining;
            (items, rest) = reserve D (d_minus D remaining amt) rows
        in ((cl_id row, amt) # items, rest))"

definition new_payout :: "time \<Rightarrow> uuid \<Rightarrow> uuid \<Rightarrow> rat \<Rightarrow> string \<Rightarrow> payout_dto \<Rightarrow> payout_row" where
  "new_payout now pid u amount ccy dto =
     \<lparr>po_id = pid, po_user = u, po_requested = amount, po_approved = 0, po_currency = ccy,
      po_status = REQUESTED, po_method = dto_method dto, po_destination = dto_destination dto,
      po_details = (case dto_details dto of None \<Rightarrow> Map.empty | Some m \<Rightarrow> m),
      po_idempotency_key = dto_idempotency_key dto, po_reason = None, po_provider_reference = None,
      po_fee = Finite 0, po_net = Finite 0, po_approved_by = None, po_reviewed_at = None,
      po_approved_at = None, po_processed_at = None, po_paid_at = None, po_cancelled_at = None,
      po_created_at = now\<rparr>"

text \<open>The primary key and the unique index of migration 079 on the payouts.\<close>

definition payout_conflict :: "payout_row \<Rightarrow> payout_row \<Rightarrow> bool" where
  "payout_conflict new old \<longleftrightarrow>
     po_id new = po_id old \<or>
     (po_user new = po_user old \<and> po_idempotency_key new \<noteq> None \<and>
      po_idempotency_key new = po_idempotency_key old)"

definition set_commission_status :: "time \<Rightarrow> commission_status \<Rightarrow> commission_row \<Rightarrow> commission_row" where
  "set_commission_status now st r = r\<lparr>cl_status := st, cl_updated_at := now\<rparr>"

definition reserve_body ::
  "decimal_ops \<Rightarrow> time \<Rightarrow> uuid \<Rightarrow> uuid \<Rightarrow> rat \<Rightarrow> string \<Rightarrow> payout_dto \<Rightarrow> (referral_db, payout_row \<times> bool) handler" where
  "reserve_body D now pid u amount ccy dto db =
     (case first_row (\<lambda>w. w_user w = u \<and> w_currency w = ccy) (affiliate_wallets db) of
        None \<Rightarrow> (Inl (BadRequest ''no wallet for user''), db)
      | Some w \<Rightarrow>
          if w_balance w available_balance < amount
          then (Inl (BadRequest ''requested exceeds available balance''), db)
          else
            let (items, remaining) = reserve D amount (eligible_rows u ccy (commission_ledger db));
                p = new_payout now pid u amount ccy dto
            in if 1 / 10 ^ 8 < remaining
               then (Inl (BadRequest ''insufficient CLEARED commissions to cover payout''), db)
               else if exists_row (payout_conflict p) (payouts db)
               then (Inl (SqlError ''23505''), db)
               else
                 (Inr (p, False),
                  db\<lparr>payouts := payouts db @ [p],
                     payout_items := payout_items db @
                       map (\<lambda>(cid, amt). \<lparr>pi_payout = pid, pi_commission = cid, pi_amount = amt\<rparr>) items,
                     commission_ledger :=
                       update_rows (\<lambda>r. cl_id r \<in> set (map fst items))
                         (set_commission_status now RESERVED) (commission_ledger db)\<rparr>))"

text \<open>The flag of the result is \<^verbatim>\<open>duplicate: true\<close> of a repeated idempotency key.\<close>

definition requestPayout ::
  "decimal_ops \<Rightarrow> time \<Rightarrow> uuid \<Rightarrow> uuid \<Rightarrow> payout_dto \<Rightarrow> (referral_db, payout_row \<times> bool) handler" where
  "requestPayout D now pid u dto db =
     (case validate_payout dto of
        Inl e \<Rightarrow> (Inl e, db)
      | Inr amount \<Rightarrow>
          let ccy = (case dto_currency dto of None \<Rightarrow> ''USD'' | Some c \<Rightarrow> if c = [] then ''USD'' else c);
              dup = (case dto_idempotency_key dto of
                       None \<Rightarrow> None
                     | Some k \<Rightarrow>
                         if k = [] then None
                         else first_row (\<lambda>p. po_user p = u \<and> po_idempotency_key p = Some k) (payouts db))
          in (case dup of
                Some p \<Rightarrow> (Inr (p, True), db)
              | None \<Rightarrow> transaction (reserve_body D now pid u amount ccy dto) db))"

section \<open>Administration\<close>

text \<open>\<^verbatim>\<open>UPDATE ... WHERE id = $1 AND status IN (...) RETURNING *\<close>, failing when no row matches.\<close>

definition update_payout ::
  "uuid \<Rightarrow> (payout_status \<Rightarrow> bool) \<Rightarrow> (payout_row \<Rightarrow> payout_row) \<Rightarrow> string \<Rightarrow> (referral_db, payout_row) handler" where
  "update_payout pid allowed f msg db =
     (case first_row (\<lambda>p. po_id p = pid \<and> allowed (po_status p)) (payouts db) of
        None \<Rightarrow> (Inl (BadRequest msg), db)
      | Some p \<Rightarrow>
          (Inr (f p),
           db\<lparr>payouts := update_rows (\<lambda>p. po_id p = pid \<and> allowed (po_status p)) f (payouts db)\<rparr>))"

definition items_of :: "uuid \<Rightarrow> referral_db \<Rightarrow> payout_item_row list" where
  "items_of pid db = filter (\<lambda>i. pi_payout i = pid) (payout_items db)"

definition approvePayout :: "time \<Rightarrow> uuid \<Rightarrow> uuid option \<Rightarrow> (referral_db, payout_row) handler" where
  "approvePayout now pid approver db =
     update_payout pid (\<lambda>s. s = REQUESTED)
       (\<lambda>p. p\<lparr>po_status := APPROVED, po_approved_at := Some now, po_approved_by := approver,
             po_approved := (case items_of pid db of
                               [] \<Rightarrow> po_requested p
                             | is \<Rightarrow> sum_list (map pi_amount is))\<rparr>)
       ''Payout not found or not pending'' db"

text \<open>The first statement of reject and cancel: the reserved commissions of the payout are CLEARED again.\<close>

definition release_items :: "time \<Rightarrow> uuid \<Rightarrow> referral_db \<Rightarrow> referral_db" where
  "release_items now pid db =
     db\<lparr>commission_ledger :=
          update_rows (\<lambda>r. cl_status r = RESERVED \<and> cl_id r \<in> set (map pi_commission (items_of pid db)))
            (set_commission_status now CLEARED) (commission_ledger db)\<rparr>"

definition open_status :: "payout_status \<Rightarrow> bool" where
  "open_status s \<longleftrightarrow> s \<notin> {PO_PAID, PO_CANCELLED, REJECTED}"

definition rejectPayout :: "time \<Rightarrow> uuid \<Rightarrow> string \<Rightarrow> (referral_db, payout_row) handler" where
  "rejectPayout now pid reason db =
     update_payout pid open_status
       (\<lambda>p. p\<lparr>po_status := REJECTED, po_reviewed_at := Some now, po_reason := Some reason\<rparr>)
       ''Payout not found or not in a rejectable state'' (release_items now pid db)"

definition processPayout :: "time \<Rightarrow> uuid \<Rightarrow> (referral_db, payout_row) handler" where
  "processPayout now pid =
     update_payout pid (\<lambda>s. s \<in> {APPROVED, FAILED, UNDER_REVIEW})
       (\<lambda>p. p\<lparr>po_status := PROCESSING, po_processed_at := Some now\<rparr>)
       ''Payout not found or not in a processable state''"

definition retryPayout :: "uuid \<Rightarrow> (referral_db, payout_row) handler" where
  "retryPayout pid =
     update_payout pid (\<lambda>s. s = FAILED) (\<lambda>p. p\<lparr>po_status := UNDER_REVIEW\<rparr>)
       ''Payout not found or not in FAILED state''"

definition cancelPayout :: "time \<Rightarrow> uuid \<Rightarrow> string \<Rightarrow> (referral_db, payout_row) handler" where
  "cancelPayout now pid reason db =
     update_payout pid open_status
       (\<lambda>p. p\<lparr>po_status := PO_CANCELLED, po_cancelled_at := Some now, po_reason := Some reason\<rparr>)
       ''Payout not found or not in a cancellable state'' (release_items now pid db)"

section \<open>Reconciliation\<close>

text \<open>\<^verbatim>\<open>requested.minus(fee)\<close> for the fees that passed the guards.\<close>

fun net_of_fee :: "decimal_ops \<Rightarrow> rat \<Rightarrow> decimal \<Rightarrow> decimal" where
  "net_of_fee D requested (Finite fee) = Finite (d_minus D requested fee)"
| "net_of_fee D requested (Infinite s) = Infinite (\<not> s)"
| "net_of_fee D requested NaN = NaN"

text \<open>
  The sum of a payout's items per recipient of their commissions, and the guarded debit of the wallets
  of those recipients.
\<close>

definition items_for :: "uuid \<Rightarrow> uuid \<Rightarrow> referral_db \<Rightarrow> payout_item_row list" where
  "items_for pid u db = filter (\<lambda>i. owner_of (commission_ledger db) (pi_commission i) = Some u) (items_of pid db)"

definition debit_wallets :: "time \<Rightarrow> uuid \<Rightarrow> string \<Rightarrow> referral_db \<Rightarrow> wallet_row list" where
  "debit_wallets now pid ccy db =
     update_rows
       (\<lambda>w. w_currency w = ccy \<and> items_for pid (w_user w) db \<noteq> [] \<and>
            sum_list (map pi_amount (items_for pid (w_user w) db)) \<le> w_balance w available_balance)
       (\<lambda>w. let amt = sum_list (map pi_amount (items_for pid (w_user w) db))
            in w\<lparr>w_balance := (w_balance w)(available_balance := w_balance w available_balance - amt,
                                             paid_balance := w_balance w paid_balance + amt),
                 w_updated_at := now\<rparr>)
       (affiliate_wallets db)"

definition finance_entry :: "payout_row \<Rightarrow> finance_entry_row" where
  "finance_entry p = \<lparr>fe_user = po_user p, fe_amount = po_net p, fe_currency = po_currency p,
                      fe_payout = po_id p, fe_provider_reference = po_provider_reference p\<rparr>"

definition settle_payout :: "time \<Rightarrow> payout_row \<Rightarrow> referral_db \<Rightarrow> referral_db" where
  "settle_payout now p db =
     (let db1 = db\<lparr>commission_ledger :=
                    update_rows (\<lambda>r. cl_id r \<in> set (map pi_commission (items_of (po_id p) db)))
                      (\<lambda>r. r\<lparr>cl_status := PAID, cl_paid_at := Some now, cl_updated_at := now\<rparr>)
                      (commission_ledger db)\<rparr>;
          ccy = (if po_currency p = [] then ''USD'' else po_currency p);
          db2 = db1\<lparr>affiliate_wallets := debit_wallets now (po_id p) ccy db1\<rparr>
      in if exists_row (\<lambda>e. fe_payout e = po_id p) (finance_entries db2) then db2
         else db2\<lparr>finance_entries := finance_entries db2 @ [finance_entry p]\<rparr>)"

definition mark_paid ::
  "time \<Rightarrow> uuid \<Rightarrow> string option \<Rightarrow> decimal \<Rightarrow> decimal \<Rightarrow> (referral_db, payout_row) handler" where
  "mark_paid now pid ref fee net =
     update_payout pid (\<lambda>s. s \<in> {PROCESSING, APPROVED, UNDER_REVIEW, FAILED})
       (\<lambda>p. p\<lparr>po_status := PO_PAID, po_paid_at := Some now, po_provider_reference := ref,
             po_fee := fee, po_net := net\<rparr>)
       ''Payout not found or not in a reconcilable state''"

definition reconcile_body ::
  "decimal_ops \<Rightarrow> time \<Rightarrow> uuid \<Rightarrow> string option \<Rightarrow> decimal option \<Rightarrow> decimal option
   \<Rightarrow> (referral_db, payout_row) handler" where
  "reconcile_body D now pid ref netOpt feeOpt db =
     (case first_row (\<lambda>p. po_id p = pid) (payouts db) of
        None \<Rightarrow> (Inl (BadRequest ''Payout not found''), db)
      | Some p0 \<Rightarrow>
          let requested = po_requested p0;
              fee = (case feeOpt of None \<Rightarrow> Finite 0 | Some f \<Rightarrow> f);
              net = (case netOpt of None \<Rightarrow> net_of_fee D requested fee | Some n \<Rightarrow> n)
          in if requested \<le> 0 then (Inl (BadRequest ''payout has invalid requested_amount''), db)
             else if dec_lt fee (Finite 0) \<or> dec_lt (Finite requested) fee
             then (Inl (BadRequest ''invalid fee_amount''), db)
             else if dec_lte net (Finite 0) \<or> dec_lt (Finite requested) net
             then (Inl (BadRequest ''invalid net_amount''), db)
             else
               (case mark_paid now pid ref fee net db of
                  (Inl e, db') \<Rightarrow> (Inl e, db')
                | (Inr p, db') \<Rightarrow> (Inr p, settle_payout now p db')))"

definition reconcilePayout ::
  "decimal_ops \<Rightarrow> time \<Rightarrow> uuid \<Rightarrow> string option \<Rightarrow> decimal option \<Rightarrow> decimal option
   \<Rightarrow> (referral_db, payout_row) handler" where
  "reconcilePayout D now pid ref netOpt feeOpt = transaction (reconcile_body D now pid ref netOpt feeOpt)"

section \<open>Queries\<close>

definition findPayoutsByUser :: "uuid \<Rightarrow> referral_db \<Rightarrow> payout_row list" where
  "findPayoutsByUser u db = take 20 (sort_key (\<lambda>p. - po_created_at p) (filter (\<lambda>p. po_user p = u) (payouts db)))"

record payout_stats =
  st_total :: nat
  st_pending :: nat
  st_approved :: nat
  st_rejected :: nat
  st_pending_amount :: rat
  st_approved_amount :: rat

definition getStats :: "referral_db \<Rightarrow> payout_stats" where
  "getStats db =
     (let amount = (\<lambda>s v. sum_list (map (\<lambda>p. if po_status p = s then v p else 0) (payouts db)));
          n = (\<lambda>s. count_rows (\<lambda>p. po_status p = s) (payouts db))
      in \<lparr>st_total = length (payouts db), st_pending = n REQUESTED, st_approved = n APPROVED,
          st_rejected = n REJECTED, st_pending_amount = amount REQUESTED po_requested,
          st_approved_amount = amount APPROVED po_approved\<rparr>)"

section \<open>The service as a sequence of requests\<close>

datatype payout_request =
    RequestPayout uuid uuid payout_dto
  | ApprovePayout uuid "uuid option"
  | RejectPayout uuid string
  | ProcessPayout uuid
  | ReconcilePayout uuid "string option" "decimal option" "decimal option"
  | RetryPayout uuid
  | CancelPayout uuid string

fun exec_payout :: "decimal_ops \<Rightarrow> time \<times> payout_request \<Rightarrow> referral_db \<Rightarrow> referral_db" where
  "exec_payout D (now, RequestPayout pid u dto) db = snd (requestPayout D now pid u dto db)"
| "exec_payout D (now, ApprovePayout pid a) db = snd (approvePayout now pid a db)"
| "exec_payout D (now, RejectPayout pid reason) db = snd (rejectPayout now pid reason db)"
| "exec_payout D (now, ProcessPayout pid) db = snd (processPayout now pid db)"
| "exec_payout D (now, ReconcilePayout pid ref net fee) db = snd (reconcilePayout D now pid ref net fee db)"
| "exec_payout D (now, RetryPayout pid) db = snd (retryPayout pid db)"
| "exec_payout D (now, CancelPayout pid reason) db = snd (cancelPayout now pid reason db)"

lemma set_commission_status_frame [simp]:
  "cl_status (set_commission_status now st r) = st"
  "cl_id (set_commission_status now st r) = cl_id r"
  "cl_recipient (set_commission_status now st r) = cl_recipient r"
  "cl_amount (set_commission_status now st r) = cl_amount r"
  by (simp_all add: set_commission_status_def)

section \<open>The reservation loop\<close>

text \<open>
  With non-negative amounts on the grid of the column, the loop is exact: items and remainder add up
  to the request, the items are a prefix of the eligible rows, and only the last one may be taken in
  part.
\<close>

lemma reserve_exact:
  assumes "decimal_arith D" and "reserve D remaining rows = (items, rest)"
    and "\<forall>r\<in>set rows. grid8 (cl_amount r) \<and> 0 \<le> cl_amount r"
    and "grid8 remaining" and "0 \<le> remaining" and "remaining < 10 ^ 12"
  shows "sum_list (map snd items) + rest = remaining \<and> 0 \<le> rest \<and> grid8 rest \<and>
    length items \<le> length rows \<and> map fst items = map cl_id (take (length items) rows) \<and>
    (\<forall>k<length items. 0 \<le> snd (items ! k) \<and> snd (items ! k) \<le> cl_amount (rows ! k)) \<and>
    (\<forall>k. Suc k < length items \<longrightarrow> snd (items ! k) = cl_amount (rows ! k)) \<and>
    (0 < rest \<longrightarrow> length items = length rows \<and> map snd items = map cl_amount rows)"
  using assms
proof (induction D remaining rows arbitrary: items rest rule: reserve.induct)
  case (1 D remaining)
  then show ?case by simp
next
  case (2 D remaining row rows)
  show ?case
  proof (cases "remaining \<le> 0")
    case True
    with 2 show ?thesis by auto
  next
    case False
    define amt where "amt = min (cl_amount row) remaining"
    have amt: "0 \<le> amt" "amt \<le> remaining" "amt \<le> cl_amount row" "grid8 amt"
      using 2 False by (auto simp: amt_def intro: grid8_min)
    have exact: "d_minus D remaining amt = remaining - amt"
    proof (rule decimal_arith.minus_exact [OF "2.prems"(1)])
      show "fits20 (remaining - amt)"
        using grid8_diff [OF "2.prems"(4) amt(4)] amt "2.prems"(6)
        by (auto intro: grid8_fits20)
    qed
    obtain items' where rec: "reserve D (remaining - amt) rows = (items', rest)" and
      items: "items = (cl_id row, amt) # items'"
      using "2.prems"(2) False exact
      by (cases "reserve D (remaining - amt) rows") (auto simp: Let_def amt_def)
    have IH: "sum_list (map snd items') + rest = remaining - amt \<and> 0 \<le> rest \<and> grid8 rest \<and>
      length items' \<le> length rows \<and> map fst items' = map cl_id (take (length items') rows) \<and>
      (\<forall>k<length items'. 0 \<le> snd (items' ! k) \<and> snd (items' ! k) \<le> cl_amount (rows ! k)) \<and>
      (\<forall>k. Suc k < length items' \<longrightarrow> snd (items' ! k) = cl_amount (rows ! k)) \<and>
      (0 < rest \<longrightarrow> length items' = length rows \<and> map snd items' = map cl_amount rows)"
      using "2.IH" [OF False amt_def, of items' rest] rec amt "2.prems" grid8_diff [OF "2.prems"(4) amt(4)]
      unfolding exact by simp
    have full: "amt = cl_amount row" if "items' \<noteq> [] \<or> 0 < rest"
    proof (rule ccontr)
      assume "amt \<noteq> cl_amount row"
      then have z: "remaining - amt = 0" by (auto simp: amt_def min_def split: if_splits)
      with rec have "items' = [] \<and> rest = 0" by (cases rows) auto
      with that show False by simp
    qed
    have "snd (items ! k) = cl_amount ((row # rows) ! k)" if "Suc k < length items" for k
      using that IH full by (cases k) (auto simp: items)
    moreover have "0 \<le> snd (items ! k) \<and> snd (items ! k) \<le> cl_amount ((row # rows) ! k)" if "k < length items" for k
      using that IH amt by (cases k) (auto simp: items)
    ultimately show ?thesis using IH full by (auto simp: items)
  qed
qed

section \<open>Life cycle of a payout\<close>

fun payout_edge :: "payout_status \<Rightarrow> payout_status \<Rightarrow> bool" where
  "payout_edge REQUESTED t = (t \<in> {APPROVED, REJECTED, PO_CANCELLED})"
| "payout_edge APPROVED t = (t \<in> {PROCESSING, PO_PAID, REJECTED, PO_CANCELLED})"
| "payout_edge UNDER_REVIEW t = (t \<in> {PROCESSING, PO_PAID, REJECTED, PO_CANCELLED})"
| "payout_edge PROCESSING t = (t \<in> {PO_PAID, REJECTED, PO_CANCELLED})"
| "payout_edge FAILED t = (t \<in> {PROCESSING, UNDER_REVIEW, PO_PAID, REJECTED, PO_CANCELLED})"
| "payout_edge _ t = False"

definition payout_path :: "payout_row list \<Rightarrow> payout_row list \<Rightarrow> bool" where
  "payout_path ps ps' \<longleftrightarrow>
     (\<forall>p\<in>set ps. \<exists>p'\<in>set ps'. po_id p' = po_id p \<and> po_user p' = po_user p \<and>
        po_requested p' = po_requested p \<and> po_currency p' = po_currency p \<and>
        payout_edge\<^sup>*\<^sup>* (po_status p) (po_status p'))"

lemma payout_path_refl [simp]: "payout_path ps ps"
  by (auto simp: payout_path_def)

lemma payout_path_trans:
  assumes "payout_path a b" and "payout_path b c"
  shows "payout_path a c"
  unfolding payout_path_def
proof
  fix p assume "p \<in> set a"
  with assms(1) obtain q where q: "q \<in> set b" "po_id q = po_id p" "po_user q = po_user p"
    "po_requested q = po_requested p" "po_currency q = po_currency p"
    "payout_edge\<^sup>*\<^sup>* (po_status p) (po_status q)" by (auto simp: payout_path_def)
  with assms(2) obtain r where "r \<in> set c" "po_id r = po_id q" "po_user r = po_user q"
    "po_requested r = po_requested q" "po_currency r = po_currency q"
    "payout_edge\<^sup>*\<^sup>* (po_status q) (po_status r)" by (auto simp: payout_path_def)
  with q show "\<exists>p'\<in>set c. po_id p' = po_id p \<and> po_user p' = po_user p \<and>
        po_requested p' = po_requested p \<and> po_currency p' = po_currency p \<and>
        payout_edge\<^sup>*\<^sup>* (po_status p) (po_status p')"
    by (intro bexI [of _ r]) (auto intro: rtranclp_trans)
qed

lemma payout_path_append: "payout_path ps (ps @ new)"
  by (auto simp: payout_path_def)

lemma update_payout_snd:
  "snd (update_payout pid allowed f msg db) =
     db\<lparr>payouts := update_rows (\<lambda>p. po_id p = pid \<and> allowed (po_status p)) f (payouts db)\<rparr>"
proof (cases "first_row (\<lambda>p. po_id p = pid \<and> allowed (po_status p)) (payouts db)")
  case None
  then have "update_rows (\<lambda>p. po_id p = pid \<and> allowed (po_status p)) f (payouts db) = payouts db"
    by (intro update_rows_none) (simp add: first_row_None)
  with None show ?thesis by (simp add: update_payout_def)
qed (simp add: update_payout_def)

lemma payout_path_update:
  assumes "\<And>p. po_id (f p) = po_id p" "\<And>p. po_user (f p) = po_user p"
    "\<And>p. po_requested (f p) = po_requested p" "\<And>p. po_currency (f p) = po_currency p"
    and "\<And>p. allowed (po_status p) \<Longrightarrow> payout_edge (po_status p) (po_status (f p))"
  shows "payout_path ps (update_rows (\<lambda>p. po_id p = pid \<and> allowed (po_status p)) f ps)"
  unfolding payout_path_def
proof
  fix p assume p: "p \<in> set ps"
  let ?q = "if po_id p = pid \<and> allowed (po_status p) then f p else p"
  have "?q \<in> set (update_rows (\<lambda>p. po_id p = pid \<and> allowed (po_status p)) f ps)"
    using p by (auto simp: in_update_rows)
  then show "\<exists>p'\<in>set (update_rows (\<lambda>p. po_id p = pid \<and> allowed (po_status p)) f ps).
      po_id p' = po_id p \<and> po_user p' = po_user p \<and> po_requested p' = po_requested p \<and>
      po_currency p' = po_currency p \<and> payout_edge\<^sup>*\<^sup>* (po_status p) (po_status p')"
    by (rule bexI [rotated]) (use assms in auto)
qed

lemma open_status_edges:
  "open_status s \<Longrightarrow> payout_edge s REJECTED" "open_status s \<Longrightarrow> payout_edge s PO_CANCELLED"
  by (cases s; simp add: open_status_def)+

lemma settle_payouts [simp]: "payouts (settle_payout now p db) = payouts db"
  by (simp add: settle_payout_def Let_def)

text \<open>A successful reconciliation: the guards it passed and the state it leaves.\<close>

lemma reconcile_body_ok:
  assumes "reconcile_body D now pid ref netOpt feeOpt db = (Inr p, db')"
  obtains p0 fee net where
    "first_row (\<lambda>p. po_id p = pid) (payouts db) = Some p0"
    "fee = (case feeOpt of None \<Rightarrow> Finite 0 | Some f \<Rightarrow> f)"
    "net = (case netOpt of None \<Rightarrow> net_of_fee D (po_requested p0) fee | Some n \<Rightarrow> n)"
    "0 < po_requested p0"
    "\<not> dec_lt fee (Finite 0)" "\<not> dec_lt (Finite (po_requested p0)) fee"
    "\<not> dec_lte net (Finite 0)" "\<not> dec_lt (Finite (po_requested p0)) net"
    "mark_paid now pid ref fee net db = (Inr p, snd (mark_paid now pid ref fee net db))"
    "db' = settle_payout now p (snd (mark_paid now pid ref fee net db))"
proof -
  from assms obtain p0 where p0: "first_row (\<lambda>p. po_id p = pid) (payouts db) = Some p0"
    by (cases "first_row (\<lambda>p. po_id p = pid) (payouts db)") (auto simp: reconcile_body_def)
  show thesis
    by (rule that [OF p0 refl refl])
      (use assms p0 in \<open>auto simp: reconcile_body_def Let_def not_le split: if_splits prod.splits sum.splits\<close>)
qed

lemma reserve_body_ok:
  assumes "reserve_body D now pid u amount ccy dto db = (Inr x, db')"
  obtains w items remaining where
    "first_row (\<lambda>w. w_user w = u \<and> w_currency w = ccy) (affiliate_wallets db) = Some w"
    "amount \<le> w_balance w available_balance"
    "reserve D amount (eligible_rows u ccy (commission_ledger db)) = (items, remaining)"
    "remaining \<le> 1 / 10 ^ 8"
    "\<not> exists_row (payout_conflict (new_payout now pid u amount ccy dto)) (payouts db)"
    "x = (new_payout now pid u amount ccy dto, False)"
    "db' = db\<lparr>payouts := payouts db @ [new_payout now pid u amount ccy dto],
       payout_items := payout_items db @
         map (\<lambda>(cid, amt). \<lparr>pi_payout = pid, pi_commission = cid, pi_amount = amt\<rparr>) items,
       commission_ledger := update_rows (\<lambda>r. cl_id r \<in> set (map fst items))
         (set_commission_status now RESERVED) (commission_ledger db)\<rparr>"
proof -
  from assms obtain w where w: "first_row (\<lambda>w. w_user w = u \<and> w_currency w = ccy) (affiliate_wallets db) = Some w"
    by (cases "first_row (\<lambda>w. w_user w = u \<and> w_currency w = ccy) (affiliate_wallets db)")
      (simp_all add: reserve_body_def)
  obtain items remaining where r: "reserve D amount (eligible_rows u ccy (commission_ledger db)) = (items, remaining)"
    by fastforce
  show thesis
    by (rule that [OF w _ r]; use assms w r in \<open>simp add: reserve_body_def Let_def split: if_splits\<close>)
qed

lemma request_ok:
  assumes "requestPayout D now pid u dto db = (Inr x, db')"
  obtains (duplicate) "snd x" "db' = db"
  | (reserved) amount ccy where "validate_payout dto = Inr amount"
    "ccy = (case dto_currency dto of None \<Rightarrow> ''USD'' | Some c \<Rightarrow> if c = [] then ''USD'' else c)"
    "reserve_body D now pid u amount ccy dto db = (Inr x, db')"
  using assms
  by (auto simp: requestPayout_def Let_def split: sum.splits option.splits dest!: transaction_success)

lemma request_error: "requestPayout D now pid u dto db = (Inl e, db') \<Longrightarrow> db' = db"
  by (auto simp: requestPayout_def Let_def split: sum.splits option.splits dest!: transaction_error_unchanged)

text \<open>Every request leaves the database as it was or adds a payout with its reserved items.\<close>

lemma request_snd_cases:
  obtains (same) "snd (requestPayout D now pid u dto db) = db"
  | (new) amount ccy items where
    "\<not> exists_row (payout_conflict (new_payout now pid u amount ccy dto)) (payouts db)"
    "snd (requestPayout D now pid u dto db) = db\<lparr>payouts := payouts db @ [new_payout now pid u amount ccy dto],
       payout_items := payout_items db @
         map (\<lambda>(cid, amt). \<lparr>pi_payout = pid, pi_commission = cid, pi_amount = amt\<rparr>) items,
       commission_ledger := update_rows (\<lambda>r. cl_id r \<in> set (map fst items))
         (set_commission_status now RESERVED) (commission_ledger db)\<rparr>"
proof (cases "requestPayout D now pid u dto db")
  case (Pair res db')
  show thesis
  proof (cases res)
    case (Inl e)
    with Pair same request_error show thesis by force
  next
    case (Inr x)
    with Pair have "requestPayout D now pid u dto db = (Inr x, db')" by simp
    then show thesis
    proof (cases rule: request_ok)
      case duplicate
      with Pair same show thesis by simp
    next
      case (reserved amount ccy)
      from reserved(3) show thesis
        by (rule reserve_body_ok) (rule new, simp_all add: Pair)
    qed
  qed
qed

lemma mark_paid_ok:
  assumes "mark_paid now pid ref fee net db = (Inr p, db')"
  obtains p1 where "p1 \<in> set (payouts db)" "po_id p1 = pid"
    "p = p1\<lparr>po_status := PO_PAID, po_paid_at := Some now, po_provider_reference := ref,
            po_fee := fee, po_net := net\<rparr>"
    "p \<in> set (payouts db')"
proof -
  let ?q = "\<lambda>p. po_id p = pid \<and> po_status p \<in> {PROCESSING, APPROVED, UNDER_REVIEW, FAILED}"
  from assms obtain p1 where p1: "first_row ?q (payouts db) = Some p1" and
    p: "p = p1\<lparr>po_status := PO_PAID, po_paid_at := Some now, po_provider_reference := ref,
            po_fee := fee, po_net := net\<rparr>"
    by (cases "first_row ?q (payouts db)") (auto simp: mark_paid_def update_payout_def)
  have "p1 \<in> set (payouts db)" "?q p1" using first_row_Some [OF p1] by simp_all
  moreover from this have "p \<in> set (payouts (snd (mark_paid now pid ref fee net db)))"
    unfolding mark_paid_def update_payout_snd by (auto simp: in_update_rows p intro!: bexI [of _ p1])
  ultimately show thesis using p assms by (intro that) simp_all
qed

lemma mark_paid_frame [simp]:
  "commission_ledger (snd (mark_paid now pid ref fee net db)) = commission_ledger db"
  "affiliate_wallets (snd (mark_paid now pid ref fee net db)) = affiliate_wallets db"
  "payout_items (snd (mark_paid now pid ref fee net db)) = payout_items db"
  "finance_entries (snd (mark_paid now pid ref fee net db)) = finance_entries db"
  by (simp_all add: mark_paid_def update_payout_snd)

lemma request_payouts:
  "payouts (snd (requestPayout D now pid u dto db)) = payouts db \<or>
   (\<exists>p. payouts (snd (requestPayout D now pid u dto db)) = payouts db @ [p] \<and>
        po_status p = REQUESTED \<and> \<not> exists_row (payout_conflict p) (payouts db))"
  by (rule request_snd_cases [of D now pid u dto db]) (auto simp: new_payout_def)

lemma release_payouts [simp]: "payouts (release_items now pid db) = payouts db"
  by (simp add: release_items_def)

lemma mark_paid_path: "payout_path (payouts db) (payouts (snd (mark_paid now pid ref fee net db)))"
  unfolding mark_paid_def update_payout_snd
  by (simp, rule payout_path_update) auto

lemma exec_payout_path: "payout_path (payouts db) (payouts (exec_payout D req db))"
proof (cases "(D, req, db)" rule: exec_payout.cases)
  case (1 D now pid u dto db)
  then show ?thesis using request_payouts [of D now pid u dto db] by (auto simp: payout_path_append)
next
  case (5 D now pid ref net fee db)
  have "payout_path (payouts db) (payouts (snd (transaction (reconcile_body D now pid ref net fee) db)))"
    by (rule transaction_preserves) (auto elim!: reconcile_body_ok simp: mark_paid_path)
  with 5 show ?thesis by (simp add: reconcilePayout_def)
qed (auto simp: approvePayout_def rejectPayout_def processPayout_def retryPayout_def cancelPayout_def
      update_payout_snd open_status_edges intro!: payout_path_update)

interpretation payout_lifecycle:
  monotone_service "exec_payout D" "\<lambda>db db'. payout_path (payouts db) (payouts db')" for D
  by unfold_locales (auto intro: payout_path_trans exec_payout_path)

section \<open>Conservation\<close>

lemma balance_update_rows:
  assumes "\<And>w. w_user (f w) = w_user w" and "\<And>w. w_currency (f w) = w_currency w"
  shows "balance (update_rows p f ws) u c b =
    (case first_row (\<lambda>w. w_user w = u \<and> w_currency w = c) ws of
       None \<Rightarrow> 0 | Some w \<Rightarrow> w_balance (if p w then f w else w) b)"
  unfolding balance_def using assms by (induction ws) auto

lemma debit_balance:
  "balance (debit_wallets now pid ccy db) u c b = balance (affiliate_wallets db) u c b +
     (let amt = sum_list (map pi_amount (items_for pid u db))
      in if c = ccy \<and> has_wallet (affiliate_wallets db) u c \<and> items_for pid u db \<noteq> [] \<and>
            amt \<le> balance (affiliate_wallets db) u c available_balance
         then if b = available_balance then - amt else if b = paid_balance then amt else 0
         else 0)"
proof (cases "first_row (\<lambda>w. w_user w = u \<and> w_currency w = c) (affiliate_wallets db)")
  case None
  then have "\<not> has_wallet (affiliate_wallets db) u c" by (simp flip: first_row_wallet_iff)
  with None show ?thesis
    by (simp add: debit_wallets_def balance_update_rows Let_def) (simp add: balance_def)
next
  case (Some w)
  then have "has_wallet (affiliate_wallets db) u c" by (simp flip: first_row_wallet_iff)
  moreover have "w_user w = u" "w_currency w = c" using first_row_Some [OF Some] by simp_all
  moreover have "balance (affiliate_wallets db) u c b = w_balance w b" for b using Some by (simp add: balance_def)
  ultimately show ?thesis using Some
    by (simp add: debit_wallets_def balance_update_rows Let_def)
qed

lemma debit_total: "wallet_total (debit_wallets now pid ccy db) u c = wallet_total (affiliate_wallets db) u c"
proof -
  let ?amt = "sum_list (map pi_amount (items_for pid u db))"
  define x where "x = (if c = ccy \<and> has_wallet (affiliate_wallets db) u c \<and> items_for pid u db \<noteq> [] \<and>
      ?amt \<le> balance (affiliate_wallets db) u c available_balance then ?amt else 0)"
  have "balance (debit_wallets now pid ccy db) u c b = balance (affiliate_wallets db) u c b +
      (if b = available_balance then - x else if b = paid_balance then x else 0)" for b
    unfolding debit_balance Let_def x_def by auto
  then show ?thesis by (simp add: wallet_total_def)
qed

lemma conserves_frame:
  assumes "commission_adjustments db' = commission_adjustments db"
    and "map cl_id (commission_ledger db') = map cl_id (commission_ledger db)"
    and "owner_of (commission_ledger db') = owner_of (commission_ledger db)"
    and "\<And>u c. wallet_total (affiliate_wallets db') u c = wallet_total (affiliate_wallets db) u c"
  shows "conserves db db'"
  by (rule conserves_step [where new = "[]"]) (simp_all add: assms manual_of_def flip: set_map)

lemma release_conserves: "conserves db (release_items now pid db)"
  by (rule conserves_frame)
    (simp_all add: release_items_def set_commission_status_def map_cl_id_update owner_of_update)

lemma update_payout_conserves: "conserves db (snd (update_payout pid allowed f msg db))"
  by (rule conserves_frame) (simp_all add: update_payout_snd)

lemma settle_conserves: "conserves db (settle_payout now p db)"
  by (rule conserves_frame)
    (simp_all add: settle_payout_def Let_def map_cl_id_update owner_of_update debit_total)

lemma request_conserves: "conserves db (snd (requestPayout D now pid u dto db))"
proof (rule request_snd_cases [of D now pid u dto db])
  fix amount ccy items
  assume "snd (requestPayout D now pid u dto db) = db\<lparr>payouts := payouts db @ [new_payout now pid u amount ccy dto],
       payout_items := payout_items db @
         map (\<lambda>(cid, amt). \<lparr>pi_payout = pid, pi_commission = cid, pi_amount = amt\<rparr>) items,
       commission_ledger := update_rows (\<lambda>r. cl_id r \<in> set (map fst items))
         (set_commission_status now RESERVED) (commission_ledger db)\<rparr>"
  then show ?thesis
    by (intro conserves_frame) (simp_all add: set_commission_status_def map_cl_id_update owner_of_update)
qed simp

lemma exec_payout_conserves: "conserves db (exec_payout D req db)"
proof (cases "(D, req, db)" rule: exec_payout.cases)
  case (5 D now pid ref net fee db)
  have "conserves db (snd (transaction (reconcile_body D now pid ref net fee) db))"
  proof (rule transaction_preserves)
    fix p db' assume "reconcile_body D now pid ref net fee db = (Inr p, db')"
    then show "conserves db db'"
      by (elim reconcile_body_ok)
        (auto simp: mark_paid_def intro: conserves_trans update_payout_conserves settle_conserves)
  qed simp
  with 5 show ?thesis by (simp add: reconcilePayout_def)
qed (auto simp: request_conserves approvePayout_def rejectPayout_def processPayout_def retryPayout_def
      cancelPayout_def update_payout_conserves conserves_trans [OF release_conserves update_payout_conserves])

interpretation payout_conservation: monotone_service "exec_payout D" conserves for D
  by unfold_locales (auto intro: conserves_trans exec_payout_conserves)

section \<open>Books\<close>

definition is_paid :: "payout_row \<Rightarrow> bool" where
  "is_paid p \<longleftrightarrow> po_status p = PO_PAID"

text \<open>The financial journal has exactly one debit entry for each paid payout and no other entry.\<close>

definition books :: "referral_db \<Rightarrow> bool" where
  "books db \<longleftrightarrow>
     distinct (map po_id (payouts db)) \<and> distinct (map fe_payout (finance_entries db)) \<and>
     set (finance_entries db) = finance_entry ` set (filter is_paid (payouts db))"

lemma books_frame:
  "books db \<Longrightarrow> map po_id (payouts db') = map po_id (payouts db) \<Longrightarrow>
   filter is_paid (payouts db') = filter is_paid (payouts db) \<Longrightarrow>
   finance_entries db' = finance_entries db \<Longrightarrow> books db'"
  unfolding books_def by (simp only:)

lemma filter_paid_update:
  "(\<And>p. q p \<Longrightarrow> \<not> is_paid p) \<Longrightarrow> (\<And>p. q p \<Longrightarrow> \<not> is_paid (f p)) \<Longrightarrow>
   filter is_paid (update_rows q f ps) = filter is_paid ps"
  by (induction ps) auto

lemma books_update_payout:
  assumes "books db" and "\<And>p. po_id (f p) = po_id p" and "\<not> allowed PO_PAID"
    and "\<And>p. po_status (f p) \<noteq> PO_PAID"
  shows "books (snd (update_payout pid allowed f msg db))"
  by (rule books_frame [OF assms(1)])
    (use assms in \<open>auto simp: update_payout_snd map_update_rows_frame is_paid_def intro!: filter_paid_update\<close>)

lemma books_release: "books db \<Longrightarrow> books (release_items now pid db)"
  by (erule books_frame) (simp_all add: release_items_def)

lemma books_request:
  assumes "books db"
  shows "books (snd (requestPayout D now pid u dto db))"
proof -
  have fe: "finance_entries (snd (requestPayout D now pid u dto db)) = finance_entries db"
    by (rule request_snd_cases [of D now pid u dto db]) simp_all
  from request_payouts [of D now pid u dto db] show ?thesis
  proof (elim disjE exE conjE)
    assume "payouts (snd (requestPayout D now pid u dto db)) = payouts db"
    with fe show ?thesis by (intro books_frame [OF assms]) simp_all
  next
    fix p assume p: "payouts (snd (requestPayout D now pid u dto db)) = payouts db @ [p]"
      and "po_status p = REQUESTED" and "\<not> exists_row (payout_conflict p) (payouts db)"
    moreover from this have "po_id p \<notin> po_id ` set (payouts db)"
      by (auto simp: list_ex_iff payout_conflict_def)
    ultimately show ?thesis using assms fe by (simp add: books_def is_paid_def)
  qed
qed

lemma settle_entries:
  "finance_entries (settle_payout now p db) =
     (if exists_row (\<lambda>e. fe_payout e = po_id p) (finance_entries db) then finance_entries db
      else finance_entries db @ [finance_entry p])"
  by (simp add: settle_payout_def Let_def)

lemma books_reconcile:
  assumes "books db" and "reconcile_body D now pid ref netOpt feeOpt db = (Inr p, db')"
  shows "books db'"
  using assms(2)
proof (rule reconcile_body_ok)
  fix p0 fee net
  let ?can = "\<lambda>s. s \<in> {PROCESSING, APPROVED, UNDER_REVIEW, FAILED}"
  let ?q = "\<lambda>p. po_id p = pid \<and> ?can (po_status p)"
  let ?f = "\<lambda>p. p\<lparr>po_status := PO_PAID, po_paid_at := Some now, po_provider_reference := ref,
                  po_fee := fee, po_net := net\<rparr>"
  assume upd: "mark_paid now pid ref fee net db = (Inr p, snd (mark_paid now pid ref fee net db))"
    and db': "db' = settle_payout now p (snd (mark_paid now pid ref fee net db))"
  from upd obtain p1 where p1: "first_row ?q (payouts db) = Some p1" and p: "p = ?f p1"
    by (cases "first_row ?q (payouts db)") (auto simp: mark_paid_def update_payout_def)
  have p1': "p1 \<in> set (payouts db)" "?q p1" using first_row_Some [OF p1] by simp_all
  have ps: "payouts db' = update_rows ?q ?f (payouts db)"
    by (simp add: db' mark_paid_def update_payout_snd)
  have d: "distinct (map po_id (payouts db))" using assms(1) by (simp add: books_def)
  then have inj: "inj_on po_id (set (payouts db))" by (simp add: distinct_map)
  have only: "?q r \<longleftrightarrow> r = p1" if "r \<in> set (payouts db)" for r
    using inj that p1' by (auto dest: inj_onD)
  have fresh: "\<not> exists_row (\<lambda>e. fe_payout e = po_id p) (finance_entries db)"
  proof
    assume "exists_row (\<lambda>e. fe_payout e = po_id p) (finance_entries db)"
    then obtain r where "r \<in> set (payouts db)" "is_paid r" "po_id r = pid"
      using assms(1) p1'(2) by (auto simp: books_def list_ex_iff finance_entry_def p)
    with inj p1' have "is_paid p1" by (auto dest: inj_onD)
    with p1'(2) show False by (auto simp: is_paid_def)
  qed
  have fe: "finance_entries db' = finance_entries db @ [finance_entry p]"
    using fresh by (simp add: db' settle_entries mark_paid_def update_payout_snd)
  have "set (filter is_paid (payouts db')) = insert p (set (filter is_paid (payouts db)))"
  proof -
    have "\<not> is_paid p1" "is_paid p" using p1'(2) by (auto simp: is_paid_def p)
    then show ?thesis unfolding ps using only p1'(1) by (auto simp: in_update_rows p)
  qed
  moreover have "map po_id (payouts db') = map po_id (payouts db)"
    unfolding ps by (rule map_update_rows_frame) simp
  ultimately show "books db'"
    using assms(1) fresh d by (auto simp: books_def fe list_ex_iff finance_entry_def)
qed

lemma exec_books:
  assumes "books db"
  shows "books (exec_payout D req db)"
  using assms
proof (cases "(D, req, db)" rule: exec_payout.cases)
  case (5 D' now pid ref net fee db')
  have "books (snd (transaction (reconcile_body D now pid ref net fee) db))"
    by (rule transaction_preserves [where P = books]) (use assms in \<open>auto intro: books_reconcile\<close>)
  with 5 show ?thesis by (simp add: reconcilePayout_def)
qed (auto simp: books_request approvePayout_def rejectPayout_def processPayout_def retryPayout_def
      cancelPayout_def open_status_def intro!: books_update_payout books_release)

interpretation payout_books: guarded_service "exec_payout D" books for D
  by unfold_locales (rule exec_books)

section \<open>Properties\<close>

lemma set_eligible_rows:
  "set (eligible_rows u c led) = {r \<in> set led. cl_recipient r = u \<and> cl_currency r = c \<and> cl_status r = CLEARED}"
  by (auto simp: eligible_rows_def)

lemma reserve_ids: "reserve D remaining rows = (items, rest) \<Longrightarrow> set (map fst items) \<subseteq> cl_id ` set rows"
proof (induction rows arbitrary: remaining items)
  case (Cons row rows)
  show ?case
  proof (cases "remaining \<le> 0")
    case False
    obtain items' where "reserve D (d_minus D remaining (min (cl_amount row) remaining)) rows = (items', rest)"
      "items = (cl_id row, min (cl_amount row) remaining) # items'"
      using Cons.prems False
      by (cases "reserve D (d_minus D remaining (min (cl_amount row) remaining)) rows") (auto simp: Let_def)
    with Cons.IH show ?thesis by fastforce
  qed (use Cons.prems in simp)
qed simp

lemma new_request_result: "ok (fst r) \<Longrightarrow> \<not> snd (projr (fst r)) \<Longrightarrow> \<exists>p. r = (Inr (p, False), snd r)"
  by (cases r; cases "fst r") auto

text \<open>A user with two cleared commissions of 40 and 30 dollars and 100 dollars available.\<close>

definition payout_db :: referral_db where
  "payout_db = example_db
     \<lparr>commission_ledger := [example_commission 1 CLEARED 40 0, example_commission 2 CLEARED 30 5],
      affiliate_wallets := [\<lparr>w_user = 11, w_currency = ''USD'',
        w_balance = (\<lambda>_. 0)(available_balance := 100), w_updated_at = 0\<rparr>]\<rparr>"

definition usdt_request :: "rat \<Rightarrow> payout_dto" where
  "usdt_request amt =
     \<lparr>dto_amount = Finite amt, dto_method = ''USDT'',
      dto_destination = ''0x00112233445566778899aabbccddeeff00112233'', dto_idempotency_key = None,
      dto_currency = None, dto_details = Some [''network'' \<mapsto> ''ERC20'']\<rparr>"




definition two_payouts_db :: referral_db where
  "two_payouts_db = payout_db
     \<lparr>commission_ledger := [example_commission 1 CLEARED 60 0, example_commission 2 CLEARED 60 5]\<rparr>"


text \<open>
  C8. Whatever sequence of requests the payout service handles, no payout is lost, its owner, amount
  and currency never change, and its status only moves forward along the edges of the life cycle: a
  payout that is paid, cancelled or rejected keeps that status for ever.
\<close>

theorem payout_lifecycle_paths:
  assumes "p \<in> set (payouts db)"
  shows "\<exists>p'\<in>set (payouts (run_requests (exec_payout D) reqs db)).
    po_id p' = po_id p \<and> po_user p' = po_user p \<and> po_requested p' = po_requested p \<and>
    po_currency p' = po_currency p \<and> payout_edge\<^sup>*\<^sup>* (po_status p) (po_status p') \<and>
    (\<not> open_status (po_status p) \<longrightarrow> po_status p' = po_status p)"
proof -
  obtain p' where p': "p' \<in> set (payouts (run_requests (exec_payout D) reqs db))"
    "po_id p' = po_id p" "po_user p' = po_user p" "po_requested p' = po_requested p"
    "po_currency p' = po_currency p" "payout_edge\<^sup>*\<^sup>* (po_status p) (po_status p')"
    using payout_lifecycle.run_leq [of db D reqs] assms unfolding payout_path_def by blast
  moreover have "po_status p' = po_status p" if "\<not> open_status (po_status p)"
    using p'(6) that by (cases rule: converse_rtranclpE) (auto simp: open_status_def)
  ultimately show ?thesis by blast
qed

text \<open>
  C9. The journal of the finance schema always holds exactly one debit entry for each paid payout,
  with its net amount, and none for any other: reconciling a payout twice, or reconciling one that
  was cancelled or rejected, never books a second debit.
\<close>

theorem one_debit_per_paid_payout:
  assumes "books db" and "db' = run_requests (exec_payout D) reqs db"
  shows "distinct (map fe_payout (finance_entries db')) \<and>
    set (finance_entries db') = finance_entry ` {p \<in> set (payouts db'). po_status p = PO_PAID}"
  using payout_books.run_inv [OF assms(1), of D reqs] unfolding assms(2)
  by (auto simp: books_def is_paid_def)


definition reconcile_db :: referral_db where
  "reconcile_db =
     snd (approvePayout 11 70 (Some 99) (snd (requestPayout dec20 9 70 11 (usdt_request 60) payout_db)))"


theorem payout_lifecycle_paths_witness:
  "\<exists>p'\<in>set (payouts (run_requests (exec_payout dec20)
       [(20, ReconcilePayout 70 None None None), (21, CancelPayout 70 ''x''), (22, RejectPayout 70 ''y'')] reconcile_db)).
     po_id p' = 70 \<and> po_requested p' = 60"
proof -
  have "map po_id (payouts reconcile_db) = [70]" "map po_requested (payouts reconcile_db) = [60]" by code_simp+
  then obtain p where p: "payouts reconcile_db = [p]" "po_id p = 70" "po_requested p = 60" by auto
  then have "p \<in> set (payouts reconcile_db)" by simp
  from payout_lifecycle_paths [OF this, of dec20
    "[(20, ReconcilePayout 70 None None None), (21, CancelPayout 70 ''x''), (22, RejectPayout 70 ''y'')]"] p(2,3)
  show ?thesis by auto
qed

theorem one_debit_per_paid_payout_witness:
  "distinct (map fe_payout (finance_entries (run_requests (exec_payout dec20)
     [(20, ReconcilePayout 70 None None None), (21, ReconcilePayout 70 None None None)] reconcile_db))) \<and>
   map fe_payout (finance_entries (run_requests (exec_payout dec20)
     [(20, ReconcilePayout 70 None None None), (21, ReconcilePayout 70 None None None)] reconcile_db)) = [70]"
proof -
  have "map po_id (payouts reconcile_db) = [70]" "map po_status (payouts reconcile_db) = [APPROVED]"
    "length (finance_entries reconcile_db) = 0" by code_simp+
  then have "books reconcile_db" by (auto simp: books_def is_paid_def)
  from one_debit_per_paid_payout [OF this refl, of dec20
    "[(20, ReconcilePayout 70 None None None), (21, ReconcilePayout 70 None None None)]"]
  have "distinct (map fe_payout (finance_entries (run_requests (exec_payout dec20)
     [(20, ReconcilePayout 70 None None None), (21, ReconcilePayout 70 None None None)] reconcile_db)))" by blast
  moreover have "map fe_payout (finance_entries (run_requests (exec_payout dec20)
     [(20, ReconcilePayout 70 None None None), (21, ReconcilePayout 70 None None None)] reconcile_db)) = [70]"
    by code_simp
  ultimately show ?thesis by blast
qed

text \<open>
  Releasing is not guarded by the payout's status: cancelling a payout that is already cancelled,
  rejected or paid fails, but its first statement has already returned to CLEARED every reserved
  commission among its items, also one that another open payout has reserved since.
\<close>

theorem cancel_closed_payout_releases:
  assumes "\<forall>p\<in>set (payouts db). po_id p = pid \<longrightarrow> \<not> open_status (po_status p)"
    and "i \<in> set (items_of pid db)" and "r \<in> set (commission_ledger db)"
    and "cl_id r = pi_commission i" and "cl_status r = RESERVED"
  shows "fst (cancelPayout now pid reason db) = Inl (BadRequest ''Payout not found or not in a cancellable state'') \<and>
    payouts (snd (cancelPayout now pid reason db)) = payouts db \<and>
    set_commission_status now CLEARED r \<in> set (commission_ledger (snd (cancelPayout now pid reason db)))"
proof -
  have none: "first_row (\<lambda>p. po_id p = pid \<and> open_status (po_status p)) (payouts db) = None"
    using assms(1) by (auto simp: first_row_None)
  have "set_commission_status now CLEARED r \<in> set (commission_ledger (release_items now pid db))"
    using assms(2-5) by (auto simp: release_items_def in_update_rows intro!: bexI [of _ r])
  with none show ?thesis by (simp add: cancelPayout_def update_payout_def)
qed

theorem cancel_closed_payout_releases_witness:
  "\<exists>db. map po_status (payouts db) = [PO_CANCELLED, REQUESTED] \<and>
     map pi_commission (items_of 71 db) = [1] \<and> map cl_status (commission_ledger db) = [RESERVED] \<and>
     fst (cancelPayout 30 70 ''again'' db) = Inl (BadRequest ''Payout not found or not in a cancellable state'') \<and>
     map cl_status (commission_ledger (snd (cancelPayout 30 70 ''again'' db))) = [CLEARED]"
proof -
  let ?db = "run_requests (exec_payout dec20)
       [(9, RequestPayout 70 11 (usdt_request 60)), (10, CancelPayout 70 ''x''),
        (11, RequestPayout 71 11 (usdt_request 60))]
       (payout_db\<lparr>commission_ledger := [example_commission 1 CLEARED 60 0]\<rparr>)"
  have st: "map po_id (payouts ?db) = [70, 71]" "map po_status (payouts ?db) = [PO_CANCELLED, REQUESTED]"
    "map pi_commission (items_of 71 ?db) = [1]" "map pi_commission (items_of 70 ?db) = [1]"
    "map cl_id (commission_ledger ?db) = [1]" "map cl_status (commission_ledger ?db) = [RESERVED]"
    "map cl_status (commission_ledger (snd (cancelPayout 30 70 ''again'' ?db))) = [CLEARED]"
    by code_simp+
  obtain i where i: "i \<in> set (items_of 70 ?db)" "pi_commission i = 1" using st(4) by (auto simp: map_eq_Cons_conv)
  obtain r where r: "r \<in> set (commission_ledger ?db)" "cl_id r = 1" "cl_status r = RESERVED"
    using st(5,6) by (auto simp: map_eq_Cons_conv)
  have "\<forall>p\<in>set (payouts ?db). po_id p = 70 \<longrightarrow> \<not> open_status (po_status p)"
    using st(1,2) by (auto simp: map_eq_Cons_conv open_status_def)
  from cancel_closed_payout_releases [OF this i(1) r(1), of 30 "''again''"] i(2) r(2,3)
  have err: "fst (cancelPayout 30 70 ''again'' ?db) = Inl (BadRequest ''Payout not found or not in a cancellable state'')"
    by metis
  show ?thesis by (intro exI [of _ ?db] conjI) (rule st err)+
qed

text \<open>
  The guards on fee and net amount do not exclude NaN, with which every comparison is false: a
  reconciliation with fee NaN and no net amount of an approved payout of a positive amount succeeds
  and records NaN as the net amount paid.
\<close>

theorem reconcile_accepts_nan:
  assumes "first_row (\<lambda>p. po_id p = pid) (payouts db) = Some p0" and "po_status p0 = APPROVED"
    and "0 < po_requested p0"
  shows "\<exists>p db'. reconcilePayout D now pid ref None (Some NaN) db = (Inr p, db') \<and>
    po_status p = PO_PAID \<and> po_net p = NaN"
proof -
  have "first_row (\<lambda>p. po_id p = pid \<and> po_status p \<in> {PROCESSING, APPROVED, UNDER_REVIEW, FAILED}) (payouts db) \<noteq> None"
    using first_row_Some [OF assms(1)] assms(2) by (auto simp: first_row_None)
  then obtain p1 where
    "first_row (\<lambda>p. po_id p = pid \<and> po_status p \<in> {PROCESSING, APPROVED, UNDER_REVIEW, FAILED}) (payouts db) = Some p1"
    by blast
  then have "mark_paid now pid ref NaN NaN db = (Inr (p1\<lparr>po_status := PO_PAID, po_paid_at := Some now,
      po_provider_reference := ref, po_fee := NaN, po_net := NaN\<rparr>), snd (mark_paid now pid ref NaN NaN db))"
    by (simp add: mark_paid_def update_payout_def)
  then obtain db1 where "mark_paid now pid ref NaN NaN db = (Inr (p1\<lparr>po_status := PO_PAID, po_paid_at := Some now,
      po_provider_reference := ref, po_fee := NaN, po_net := NaN\<rparr>), db1)" by blast
  then show ?thesis
    using assms by (simp add: reconcilePayout_def transaction_def reconcile_body_def Let_def)
qed

theorem reconcile_accepts_nan_witness:
  "\<exists>p db'. reconcilePayout dec20 12 70 None None (Some NaN) reconcile_db = (Inr p, db') \<and> po_net p = NaN"
proof -
  have "map po_id (payouts reconcile_db) = [70]" "map po_requested (payouts reconcile_db) = [60]"
    "map po_status (payouts reconcile_db) = [APPROVED]" by code_simp+
  then obtain p where "payouts reconcile_db = [p]" "po_id p = 70" "po_requested p = 60" "po_status p = APPROVED"
    by auto
  then have "first_row (\<lambda>p. po_id p = 70) (payouts reconcile_db) = Some p" "po_status p = APPROVED" "0 < po_requested p"
    by simp_all
  from reconcile_accepts_nan [OF this] show ?thesis by blast
qed

end
