(* ===== verification/Payments.thy ===== *)
theory Payments
  imports Subscriptions Licensing Payouts
begin

text \<open>
  Crypto payments, \<^verbatim>\<open>control/src/modules/billing/nowpayments.service.ts\<close>: the checkout, which reuses or creates
  the pending subscription, invoices it and asks the gateway for a payment page, and the signed
  notification (IPN) that settles the payment. A settlement completes the payment, pays the invoice,
  activates the subscription, credits the commission of the sponsors and provides the license: it runs
  across the billing, referral and license tables. The keyed hash, the parser of JSON texts and the
  answers of the gateway are parameters; a flag of a delivery says that its database transaction fails.
\<close>

section \<open>Checkout\<close>

definition checkout_interval :: "string option \<Rightarrow> billing_interval result" where
  "checkout_interval x =
     (let i = js_upper (or_string x ''MONTHLY'') in
      if i = ''MONTHLY'' then Inr MONTHLY else if i = ''ANNUAL'' then Inr ANNUAL
      else Inl (BadRequest ''billing_interval must be MONTHLY or ANNUAL''))"

definition checkout_plan :: "uuid \<Rightarrow> billing_interval \<Rightarrow> billing_db \<Rightarrow> (plan_row \<times> rat) result" where
  "checkout_plan plan iv db =
     (case first_row (\<lambda>p. pl_id p = plan \<and> pl_active p) (plans db) of
        None \<Rightarrow> Inl (NotFound ''Active plan not found'')
      | Some p \<Rightarrow>
          (case (if iv = ANNUAL then pl_annual_price p else Some (pl_monthly_price p)) of
             None \<Rightarrow> Inl (BadRequest ''Annual billing is not available for this plan'')
           | Some price \<Rightarrow>
               if price \<le> 0 then Inl (BadRequest ''Plan does not require payment'') else Inr (p, price)))"

definition incomplete_subscription ::
  "(billing_interval \<Rightarrow> time \<Rightarrow> time) \<Rightarrow> time \<Rightarrow> uuid \<Rightarrow> uuid \<Rightarrow> plan_row \<Rightarrow> billing_interval \<Rightarrow> subscription_row" where
  "incomplete_subscription cal now sid u p iv =
     \<lparr>su_id = sid, su_user = u, su_plan = pl_id p, su_status = S_INCOMPLETE, su_interval = iv,
      su_period_start = now, su_period_end = cal iv now, su_selected = coalesce_text (pl_allowed_strategies p) [],
      su_paused_at = None, su_cancelled_at = None, su_cancel_reason = None, su_created_at = now, su_updated_at = now\<rparr>"

definition pending_subscription ::
  "(billing_interval \<Rightarrow> time \<Rightarrow> time) \<Rightarrow> time \<Rightarrow> uuid \<Rightarrow> uuid \<Rightarrow> plan_row \<Rightarrow> billing_interval \<Rightarrow> billing_db \<Rightarrow>
   (uuid \<times> billing_db) result" where
  "pending_subscription cal now sid u p iv db =
     (case latest su_created_at (\<lambda>s. su_user s = u \<and> su_plan s = pl_id p \<and> su_interval s = iv \<and> su_status s = S_INCOMPLETE)
             (subscriptions db) of
        Some s \<Rightarrow> Inr (su_id s, db)
      | None \<Rightarrow>
          if exists_row (\<lambda>s. su_id s = sid) (subscriptions db) then Inl (SqlError ''23505'')
          else Inr (sid, db\<lparr>subscriptions := subscriptions db @ [incomplete_subscription cal now sid u p iv]\<rparr>))"

datatype gateway_reply = Unreachable | HttpError | Reply "string option" "string option"

definition gateway_answer :: "gateway_reply \<Rightarrow> (string \<times> string) result" where
  "gateway_answer gw =
     (case gw of
        Unreachable \<Rightarrow> Inl (ServiceUnavailable ''payment_gateway_unreachable'')
      | HttpError \<Rightarrow> Inl (ServiceUnavailable ''payment_gateway_error'')
      | Reply i url \<Rightarrow>
          (case (or_null i, or_null url) of
             (Some ref, Some page) \<Rightarrow> Inr (ref, page)
           | _ \<Rightarrow> Inl (ServiceUnavailable ''payment_gateway_error'')))"

text \<open>\<^verbatim>\<open>ON CONFLICT (provider, provider_payment_id) DO NOTHING\<close>\<close>

definition insert_payment :: "payment_row \<Rightarrow> billing_db \<Rightarrow> billing_db result" where
  "insert_payment p db =
     (if exists_row (\<lambda>r. py_provider r = py_provider p \<and> py_ref r \<noteq> None \<and> py_ref r = py_ref p) (payments db) then Inr db
      else if exists_row (\<lambda>r. py_id r = py_id p) (payments db) then Inl (SqlError ''23505'')
      else Inr (db\<lparr>payments := payments db @ [p]\<rparr>))"

definition pending_payment :: "string \<Rightarrow> time \<Rightarrow> uuid \<Rightarrow> uuid \<Rightarrow> uuid \<Rightarrow> uuid \<Rightarrow> string \<Rightarrow> rat \<Rightarrow> payment_row" where
  "pending_payment provider now pid u sid iid ref price =
     \<lparr>py_id = pid, py_invoice = Some iid, py_subscription = Some sid, py_user = u, py_provider = provider,
      py_ref = Some ref, py_amount = price, py_currency = ''USD'', py_status = PY_PENDING, py_processed_at = None,
      py_created_at = now\<rparr>"

text \<open>There is no transaction: what was written before a failure stays, and the next checkout reuses it.\<close>

definition createInvoice ::
  "decimal_ops \<Rightarrow> (rat \<Rightarrow> rat) \<Rightarrow> (billing_interval \<Rightarrow> time \<Rightarrow> time) \<Rightarrow> string option \<Rightarrow> gateway_reply \<Rightarrow> time \<Rightarrow>
   uuid \<times> uuid \<times> uuid \<Rightarrow> uuid \<Rightarrow> uuid \<Rightarrow> string option \<Rightarrow> (billing_db, string \<times> uuid) handler" where
  "createInvoice D num cal apiKey gw now fresh u plan interval db =
     (case fresh of (sid, iid, pid) \<Rightarrow>
      if js_trim (or_string apiKey []) = [] then (Inl (ServiceUnavailable ''payment_gateway_not_configured''), db)
      else
        (case checkout_interval interval of
           Inl e \<Rightarrow> (Inl e, db)
         | Inr iv \<Rightarrow>
             (case checkout_plan plan iv db of
                Inl e \<Rightarrow> (Inl e, db)
              | Inr (p, price) \<Rightarrow>
                  (case pending_subscription cal now sid u p iv db of
                     Inl e \<Rightarrow> (Inl e, db)
                   | Inr (s, db1) \<Rightarrow>
                       (case generateInvoiceForSubscription D num now iid s u
                               \<lparr>opt_start = None, opt_end = None, opt_markPaid = False, opt_paymentId = None\<rparr> db1 of
                          (Inl e, db2) \<Rightarrow> (Inl e, db2)
                        | (Inr i, db2) \<Rightarrow>
                            (case gateway_answer gw of
                               Inl e \<Rightarrow> (Inl e, db2)
                             | Inr (ref, url) \<Rightarrow>
                                 (case insert_payment (pending_payment ''nowpayments'' now pid u s i ref price) db2 of
                                    Inl e \<Rightarrow> (Inl e, db2)
                                  | Inr db3 \<Rightarrow>
                                      (Inr (url, i), db3\<lparr>invoices := update_rows (\<lambda>v. iv_id v = i)
                                         (\<lambda>v. v\<lparr>iv_provider_invoice := Some ref, iv_hosted_url := Some url\<rparr>)
                                         (invoices db3)\<rparr>))))))))"

section \<open>The notification\<close>

text \<open>A field that is read as an amount: a number, or a text that \<^verbatim>\<open>new Decimal\<close> may refuse.\<close>

datatype amount = Amount decimal | Malformed

record ipn_record =
  np_status :: "string option"
  np_payment_id :: "string option"
  np_invoice_id :: "string option"
  np_amounts :: "amount option list"

record ipn_env =
  ip_secret :: "string option"
  ip_hmac :: "string \<Rightarrow> string \<Rightarrow> string"
  ip_parse :: "string \<Rightarrow> ipn_record option"
  ip_tolerance :: rat
  ip_strict :: bool

definition SETTLED_STATUSES :: "string list" where
  "SETTLED_STATUSES = [''finished'', ''confirmed'']"

definition ipn_status :: "ipn_record \<Rightarrow> string" where
  "ipn_status r = coalesce_text (np_status r) []"

definition payment_ref :: "ipn_record \<Rightarrow> string" where
  "payment_ref r = (case np_payment_id r of Some i \<Rightarrow> i | None \<Rightarrow> coalesce_text (np_invoice_id r) [])"

definition ipn_event_id :: "ipn_record \<Rightarrow> string" where
  "ipn_event_id r = payment_ref r @ '':'' @ ipn_status r"

definition ipn_authentic :: "ipn_env \<Rightarrow> string \<Rightarrow> string option \<Rightarrow> bool" where
  "ipn_authentic I raw sig \<longleftrightarrow> js_trim (or_string (ip_secret I) []) \<noteq> [] \<and> raw \<noteq> [] \<and>
     or_null sig = Some (ip_hmac I (js_trim (or_string (ip_secret I) [])) raw)"

text \<open>The amounts above zero; \<open>None\<close> when one of them cannot be read.\<close>

fun amounts_paid :: "amount option list \<Rightarrow> decimal list option" where
  "amounts_paid [] = Some []"
| "amounts_paid (Some Malformed # _) = None"
| "amounts_paid (Some (Amount d) # xs) =
     map_option (\<lambda>ds. if dec_lt (Finite 0) d then d # ds else ds) (amounts_paid xs)"
| "amounts_paid (None # xs) = amounts_paid xs"

definition max_paid :: "decimal list \<Rightarrow> decimal" where
  "max_paid ds = foldl (\<lambda>m d. if dec_lt m d then d else m) (Finite 0) ds"

definition expected_amount :: "payment_row \<Rightarrow> billing_db \<Rightarrow> rat" where
  "expected_amount p db =
     (if py_amount p > 0 then py_amount p
      else (case Option.bind (py_invoice p) (\<lambda>i. first_row (\<lambda>v. iv_id v = i) (invoices db)) of
              Some v \<Rightarrow> iv_total v | None \<Rightarrow> 0))"

definition min_ok :: "decimal_ops \<Rightarrow> ipn_env \<Rightarrow> rat \<Rightarrow> rat" where
  "min_ok D I e = d_minus D e (d_div D (d_mul D e (ip_tolerance I)) 100)"

definition dec_plus :: "decimal_ops \<Rightarrow> decimal \<Rightarrow> rat \<Rightarrow> decimal" where
  "dec_plus D d x = (case d of Finite y \<Rightarrow> Finite (d_plus D y x) | _ \<Rightarrow> d)"

definition underpaid :: "decimal_ops \<Rightarrow> ipn_env \<Rightarrow> rat \<Rightarrow> decimal list \<Rightarrow> bool" where
  "underpaid D I e ds \<longleftrightarrow> e > 0 \<and> ds \<noteq> [] \<and> dec_lt (dec_plus D (max_paid ds) (1 / 10 ^ 9)) (Finite (min_ok D I e))"

record pay_audit_row =
  pa_action :: string
  pa_payment :: uuid
  pa_ref :: string
  pa_at :: time

record payment_db =
  pd_billing :: billing_db
  pd_referral :: referral_db
  pd_license :: license_db
  pd_audit :: "pay_audit_row list"

definition np_payment :: "string \<Rightarrow> billing_db \<Rightarrow> payment_row option" where
  "np_payment ref db = first_row (\<lambda>p. py_provider p = ''nowpayments'' \<and> py_ref p = Some ref) (payments db)"

definition mark_underpaid :: "time \<Rightarrow> string \<Rightarrow> payment_row \<Rightarrow> payment_db \<Rightarrow> payment_db" where
  "mark_underpaid now ref p db = db
     \<lparr>pd_billing := (pd_billing db)\<lparr>payments := update_rows
        (\<lambda>r. py_provider r = ''nowpayments'' \<and> py_ref r = Some ref \<and> py_status r \<notin> {PY_COMPLETED, PY_UNDERPAID})
        (\<lambda>r. r\<lparr>py_status := PY_UNDERPAID\<rparr>) (payments (pd_billing db))\<rparr>,
      pd_audit := pd_audit db @
        [\<lparr>pa_action = ''billing.nowpayments.underpaid'', pa_payment = py_id p, pa_ref = ref, pa_at = now\<rparr>]\<rparr>"

definition activate_subscription :: "(billing_interval \<Rightarrow> time \<Rightarrow> time) \<Rightarrow> time \<Rightarrow> subscription_row \<Rightarrow> subscription_row" where
  "activate_subscription cal now s = s\<lparr>su_status := S_ACTIVE, su_period_start := now,
     su_period_end := cal (su_interval s) now, su_updated_at := now\<rparr>"

definition complete_payment ::
  "(billing_interval \<Rightarrow> time \<Rightarrow> time) \<Rightarrow> time \<Rightarrow> string \<Rightarrow> payment_row \<Rightarrow> payment_db \<Rightarrow> payment_db" where
  "complete_payment cal now ref p db =
     (let b = pd_billing db in
      db\<lparr>pd_billing := b
           \<lparr>payments := update_rows (\<lambda>r. py_id r = py_id p)
              (\<lambda>r. r\<lparr>py_status := PY_COMPLETED, py_processed_at := Some now\<rparr>) (payments b),
            invoices := update_rows (\<lambda>v. Some (iv_id v) = py_invoice p \<and> iv_status v \<noteq> INV_PAID) (set_paid now) (invoices b),
            subscriptions := update_rows (\<lambda>s. Some (su_id s) = py_subscription p) (activate_subscription cal now)
              (subscriptions b)\<rparr>,
         pd_audit := pd_audit db @
           [\<lparr>pa_action = ''billing.nowpayments.payment_settled'', pa_payment = py_id p, pa_ref = ref, pa_at = now\<rparr>]\<rparr>)"

text \<open>After the commit: the commission, for the plan of the subscription, and the license. Failures are logged only.\<close>

definition credit_commission ::
  "decimal_ops \<Rightarrow> time \<Rightarrow> (nat \<Rightarrow> uuid) \<Rightarrow> payment_row \<Rightarrow> uuid option \<Rightarrow> payment_db \<Rightarrow> payment_db" where
  "credit_commission D now ids p plan db =
     (case plan of
        None \<Rightarrow> db
      | Some pl \<Rightarrow> db\<lparr>pd_referral := snd (creditReferralForSettledRevenue D now ids (py_user p) pl (py_id p) (py_amount p)
          (or_string (Some (py_currency p)) ''USD'') (pd_referral db))\<rparr>)"

definition license_view :: "billing_db \<Rightarrow> license_db \<Rightarrow> license_db" where
  "license_view b l = l\<lparr>license_subs := map (\<lambda>s. \<lparr>ls_id = su_id s, ls_user = su_user s, ls_plan = su_plan s\<rparr>) (subscriptions b)\<rparr>"

definition provide_license :: "time \<Rightarrow> uuid \<Rightarrow> string \<Rightarrow> uuid option \<Rightarrow> payment_db \<Rightarrow> payment_db" where
  "provide_license now lid key sub db =
     (case sub of
        None \<Rightarrow> db
      | Some s \<Rightarrow> db\<lparr>pd_license := snd (ensureActiveLicenseForSubscription now lid key s
          (license_view (pd_billing db) (pd_license db)))\<rparr>)"

definition subscription_plan :: "uuid option \<Rightarrow> billing_db \<Rightarrow> uuid option" where
  "subscription_plan sub b = Option.bind sub (\<lambda>s. map_option su_plan (first_row (\<lambda>r. su_id r = s) (subscriptions b)))"

record ipn_fresh =
  if_ids :: "nat \<Rightarrow> uuid"
  if_license :: uuid
  if_key :: string

definition settle_payment ::
  "decimal_ops \<Rightarrow> (billing_interval \<Rightarrow> time \<Rightarrow> time) \<Rightarrow> time \<Rightarrow> ipn_fresh \<Rightarrow> string \<Rightarrow> payment_db \<Rightarrow> payment_db" where
  "settle_payment D cal now fr ref db =
     (case np_payment ref (pd_billing db) of
        None \<Rightarrow> db
      | Some p \<Rightarrow>
          (let db1 = (if py_status p \<noteq> PY_COMPLETED
                      then credit_commission D now (if_ids fr) p (subscription_plan (py_subscription p) (pd_billing db))
                        (complete_payment cal now ref p db)
                      else db) in
           provide_license now (if_license fr) (if_key fr) (py_subscription p) db1))"

datatype ipn_reply = Duplicate_ipn | Received_ipn string

definition record_event :: "ipn_record \<Rightarrow> payment_db \<Rightarrow> payment_db" where
  "record_event r db = db\<lparr>pd_billing := (pd_billing db)\<lparr>payment_events := payment_events (pd_billing db) @
     [\<lparr>pe_provider = ''nowpayments'', pe_event_id = ipn_event_id r,
       pe_type = or_string (Some (ipn_status r)) ''unknown''\<rparr>]\<rparr>\<rparr>"

definition ipn_seen :: "ipn_record \<Rightarrow> payment_event_row \<Rightarrow> bool" where
  "ipn_seen r e \<longleftrightarrow> pe_provider e = ''nowpayments'' \<and> pe_event_id e = ipn_event_id r"

definition forget_event :: "ipn_record \<Rightarrow> payment_db \<Rightarrow> payment_db" where
  "forget_event r db = db\<lparr>pd_billing := (pd_billing db)\<lparr>payment_events :=
     filter (\<lambda>e. \<not> ipn_seen r e) (payment_events (pd_billing db))\<rparr>\<rparr>"

text \<open>
  The settlement of a new event. With \<open>fault\<close> the transaction fails, is rolled back, and the event is
  forgotten, so that the next delivery is a first one.
\<close>

definition settle_ipn ::
  "decimal_ops \<Rightarrow> (billing_interval \<Rightarrow> time \<Rightarrow> time) \<Rightarrow> time \<Rightarrow> ipn_fresh \<Rightarrow> bool \<Rightarrow> ipn_record \<Rightarrow> (payment_db, ipn_reply) handler" where
  "settle_ipn D cal now fr fault r db =
     (if fault then (Inl (SqlError ''40001''), forget_event r db)
      else (Inr (Received_ipn (ipn_status r)), settle_payment D cal now fr (payment_ref r) db))"

definition check_and_settle ::
  "decimal_ops \<Rightarrow> ipn_env \<Rightarrow> (billing_interval \<Rightarrow> time \<Rightarrow> time) \<Rightarrow> time \<Rightarrow> ipn_fresh \<Rightarrow> bool \<Rightarrow> ipn_record \<Rightarrow>
   (payment_db, ipn_reply) handler" where
  "check_and_settle D I cal now fr fault r db =
     (case np_payment (payment_ref r) (pd_billing db) of
        None \<Rightarrow> settle_ipn D cal now fr fault r db
      | Some p \<Rightarrow>
          (case amounts_paid (np_amounts r) of
             None \<Rightarrow> (Inl (InternalError ''DecimalError''), db)
           | Some ds \<Rightarrow>
               if underpaid D I (expected_amount p (pd_billing db)) ds
               then (Inr (Received_ipn ''underpaid''), mark_underpaid now (payment_ref r) p db)
               else if ds = [] \<and> ip_strict I then (Inr (Received_ipn ''amount_unverified''), db)
               else settle_ipn D cal now fr fault r db))"

definition handleIPN ::
  "decimal_ops \<Rightarrow> ipn_env \<Rightarrow> (billing_interval \<Rightarrow> time \<Rightarrow> time) \<Rightarrow> time \<Rightarrow> ipn_fresh \<Rightarrow> bool \<Rightarrow> string \<Rightarrow> string option \<Rightarrow>
   (payment_db, ipn_reply) handler" where
  "handleIPN D I cal now fr fault raw sig db =
     (if js_trim (or_string (ip_secret I) []) = [] then (Inl (Unauthorized ''ipn_not_configured''), db)
      else if \<not> ipn_authentic I raw sig then (Inl (Unauthorized ''invalid_ipn_signature''), db)
      else
        (case ip_parse I raw of
           None \<Rightarrow> (Inl (InternalError ''SyntaxError''), db)
         | Some r \<Rightarrow>
             if payment_ref r = [] then (Inl (Unauthorized ''invalid_ipn_signature''), db)
             else if exists_row (ipn_seen r) (payment_events (pd_billing db)) then (Inr Duplicate_ipn, db)
             else if ipn_status r \<notin> set SETTLED_STATUSES then
               (Inr (Received_ipn (ipn_status r)), record_event r db)
             else check_and_settle D I cal now fr fault r (record_event r db)))"

section \<open>Deliveries\<close>

record delivery =
  dl_now :: time
  dl_fresh :: ipn_fresh
  dl_fault :: bool
  dl_raw :: string
  dl_sig :: "string option"

definition exec_ipn ::
  "decimal_ops \<Rightarrow> ipn_env \<Rightarrow> (billing_interval \<Rightarrow> time \<Rightarrow> time) \<Rightarrow> delivery \<Rightarrow> payment_db \<Rightarrow> payment_db" where
  "exec_ipn D I cal d db = snd (handleIPN D I cal (dl_now d) (dl_fresh d) (dl_fault d) (dl_raw d) (dl_sig d) db)"

text \<open>The notification of a delivery, when it is authentic and readable.\<close>

definition ipn_of :: "ipn_env \<Rightarrow> delivery \<Rightarrow> ipn_record option" where
  "ipn_of I d =
     (if ipn_authentic I (dl_raw d) (dl_sig d)
      then Option.bind (ip_parse I (dl_raw d)) (\<lambda>r. if payment_ref r = [] then None else Some r) else None)"

definition new_event :: "ipn_record \<Rightarrow> payment_db \<Rightarrow> bool" where
  "new_event r db \<longleftrightarrow> \<not> exists_row (ipn_seen r) (payment_events (pd_billing db))"

definition settling :: "ipn_record \<Rightarrow> bool" where
  "settling r \<longleftrightarrow> ipn_status r \<in> set SETTLED_STATUSES"

lemma exec_ipn_cases [case_names ignored progress settle]:
  obtains
    (ignored) "exec_ipn D I cal d db = db"
  | (progress) r where "ipn_of I d = Some r" "exec_ipn D I cal d db = record_event r db"
  | (settle) r where "ipn_of I d = Some r" "new_event r db" "settling r"
      "exec_ipn D I cal d db = snd (check_and_settle D I cal (dl_now d) (dl_fresh d) (dl_fault d) r (record_event r db))"
proof (cases "ipn_of I d")
  case None
  then show thesis
    by (intro ignored) (auto simp: exec_ipn_def handleIPN_def ipn_of_def split: option.splits)
next
  case (Some r)
  then have r: "js_trim (or_string (ip_secret I) []) \<noteq> []" "ipn_authentic I (dl_raw d) (dl_sig d)"
    "ip_parse I (dl_raw d) = Some r" "payment_ref r \<noteq> []"
    by (auto simp: ipn_of_def ipn_authentic_def bind_eq_Some_conv split: if_splits)
  consider "\<not> new_event r db" | "new_event r db" "\<not> settling r" | "new_event r db" "settling r" by blast
  then show thesis
  proof cases
    case 1
    then show thesis using r by (intro ignored) (simp add: exec_ipn_def handleIPN_def new_event_def)
  next
    case 2
    then show thesis using r Some
      by (intro progress [of r]) (simp_all add: exec_ipn_def handleIPN_def new_event_def settling_def)
  next
    case 3
    then show thesis using r Some
      by (intro settle [of r]) (simp_all add: exec_ipn_def handleIPN_def new_event_def settling_def)
  qed
qed

lemma exec_ipn_settle:
  assumes "ipn_of I d = Some r" "new_event r db" "settling r"
  shows "exec_ipn D I cal d db = snd (check_and_settle D I cal (dl_now d) (dl_fresh d) (dl_fault d) r (record_event r db))"
  using assms by (auto simp: exec_ipn_def handleIPN_def ipn_of_def ipn_authentic_def new_event_def settling_def bind_eq_Some_conv
      split: if_splits)

lemma record_event_frames [simp]:
  "payments (pd_billing (record_event r db)) = payments (pd_billing db)"
  "invoices (pd_billing (record_event r db)) = invoices (pd_billing db)"
  "subscriptions (pd_billing (record_event r db)) = subscriptions (pd_billing db)"
  "pd_referral (record_event r db) = pd_referral db" "pd_license (record_event r db) = pd_license db"
  by (simp_all add: record_event_def)

lemma np_payment_record [simp]: "np_payment ref (pd_billing (record_event r db)) = np_payment ref (pd_billing db)"
  by (simp add: np_payment_def)

lemma expected_record [simp]: "expected_amount p (pd_billing (record_event r db)) = expected_amount p (pd_billing db)"
  by (simp add: expected_amount_def)

lemma forget_recorded: "new_event r db \<Longrightarrow> forget_event r (record_event r db) = db"
proof -
  assume "new_event r db"
  then have "filter (\<lambda>e. \<not> ipn_seen r e) (payment_events (pd_billing db)) = payment_events (pd_billing db)"
    by (simp add: new_event_def list_ex_iff filter_id_conv)
  then show ?thesis by (simp add: forget_event_def record_event_def ipn_seen_def)
qed

text \<open>The amounts of a notification cover a price: none is too small, and none at all only when that is tolerated.\<close>

definition covers :: "decimal_ops \<Rightarrow> ipn_env \<Rightarrow> ipn_record \<Rightarrow> rat \<Rightarrow> bool" where
  "covers D I r e \<longleftrightarrow> (\<exists>ds. amounts_paid (np_amounts r) = Some ds \<and> \<not> underpaid D I e ds \<and> \<not> (ds = [] \<and> ip_strict I))"

lemma check_and_settle_cases [case_names unpaid underpaid fault settled]:
  obtains
    (unpaid) "snd (check_and_settle D I cal now fr fault r db) = db"
  | (underpaid) p where "np_payment (payment_ref r) (pd_billing db) = Some p"
      "snd (check_and_settle D I cal now fr fault r db) = mark_underpaid now (payment_ref r) p db"
  | (fault) "fault" "snd (check_and_settle D I cal now fr fault r db) = forget_event r db"
  | (settled) "snd (check_and_settle D I cal now fr fault r db) = settle_payment D cal now fr (payment_ref r) db" "\<not> fault"
      "\<And>p. np_payment (payment_ref r) (pd_billing db) = Some p \<Longrightarrow> covers D I r (expected_amount p (pd_billing db))"
proof (cases "np_payment (payment_ref r) (pd_billing db)")
  case None
  then show thesis using fault settled by (cases fault) (auto simp: check_and_settle_def settle_ipn_def)
next
  case (Some p)
  show thesis
  proof (cases "covers D I r (expected_amount p (pd_billing db))")
    case True
    then show thesis using fault settled Some
      by (cases fault) (auto simp: check_and_settle_def settle_ipn_def covers_def)
  next
    case False
    show thesis
    proof (cases "amounts_paid (np_amounts r)")
      case None
      with Some show thesis by (intro unpaid) (simp add: check_and_settle_def)
    next
      case ds: (Some ds)
      show thesis
      proof (cases "underpaid D I (expected_amount p (pd_billing db)) ds")
        case True
        with Some ds show thesis by (intro underpaid [OF Some]) (simp add: check_and_settle_def)
      next
        case under: False
        with False Some ds show thesis by (intro unpaid) (simp add: check_and_settle_def covers_def)
      qed
    qed
  qed
qed

lemma check_and_settle_covered:
  assumes "np_payment (payment_ref r) (pd_billing db) = Some p" "covers D I r (expected_amount p (pd_billing db))"
  shows "snd (check_and_settle D I cal now fr fault r db) =
    (if fault then forget_event r db else settle_payment D cal now fr (payment_ref r) db)"
  using assms by (auto simp: check_and_settle_def settle_ipn_def covers_def)

section \<open>Payments over a run\<close>

definition payment_keys :: "billing_db \<Rightarrow> bool" where
  "payment_keys b \<longleftrightarrow> distinct (map py_id (payments b)) \<and>
     distinct (map (\<lambda>p. (py_provider p, py_ref p)) (filter (\<lambda>p. py_ref p \<noteq> None) (payments b)))"

lemma payment_keys_update:
  assumes "payment_keys b" "payments b' = update_rows P f (payments b)"
    and "\<And>p. py_id (f p) = py_id p" "\<And>p. py_ref (f p) = py_ref p" "\<And>p. py_provider (f p) = py_provider p"
  shows "payment_keys b'"
proof -
  have "map (\<lambda>p. (py_provider p, py_ref p)) (filter (\<lambda>p. py_ref p \<noteq> None) (update_rows P f ps)) =
      map (\<lambda>p. (py_provider p, py_ref p)) (filter (\<lambda>p. py_ref p \<noteq> None) ps)" for ps
    by (induction ps) (simp_all add: assms(4,5))
  then show ?thesis using assms(1) by (simp add: payment_keys_def assms(2) map_update_rows_frame assms(3))
qed

definition np_row :: "string \<Rightarrow> payment_row \<Rightarrow> bool" where
  "np_row ref p \<longleftrightarrow> py_provider p = ''nowpayments'' \<and> py_ref p = Some ref"

lemma np_payment_unique:
  assumes "payment_keys b" "p \<in> set (payments b)" "np_row ref p"
  shows "np_payment ref b = Some p"
proof (cases "np_payment ref b")
  case None
  with assms show ?thesis by (auto simp: np_payment_def first_row_None np_row_def)
next
  case (Some q)
  then have q: "q \<in> set (payments b)" "np_row ref q" by (auto simp: np_payment_def np_row_def dest: first_row_Some)
  then have "p = q"
    using assms by (intro key_unique [of "\<lambda>p. (py_provider p, py_ref p)" "filter (\<lambda>p. py_ref p \<noteq> None) (payments b)"])
      (simp_all add: payment_keys_def np_row_def)
  with Some show ?thesis by simp
qed

lemma np_payment_Some: "np_payment ref b = Some p \<Longrightarrow> p \<in> set (payments b) \<and> np_row ref p"
  by (auto simp: np_payment_def np_row_def dest: first_row_Some)

lemma credit_frames [simp]:
  "pd_billing (credit_commission D now ids p pl db) = pd_billing db"
  "pd_license (credit_commission D now ids p pl db) = pd_license db"
  "pd_billing (provide_license now l k s db) = pd_billing db"
  "pd_referral (provide_license now l k s db) = pd_referral db"
  by (simp_all add: credit_commission_def provide_license_def split: option.split)

lemma complete_payments:
  "payments (pd_billing (complete_payment cal now ref p db)) = update_rows (\<lambda>r. py_id r = py_id p)
     (\<lambda>r. r\<lparr>py_status := PY_COMPLETED, py_processed_at := Some now\<rparr>) (payments (pd_billing db))"
  "pd_referral (complete_payment cal now ref p db) = pd_referral db"
  "pd_license (complete_payment cal now ref p db) = pd_license db"
  by (simp_all add: complete_payment_def Let_def)

lemma underpaid_payments:
  "payments (pd_billing (mark_underpaid now ref p db)) = update_rows
     (\<lambda>r. np_row ref r \<and> py_status r \<notin> {PY_COMPLETED, PY_UNDERPAID}) (\<lambda>r. r\<lparr>py_status := PY_UNDERPAID\<rparr>) (payments (pd_billing db))"
  "invoices (pd_billing (mark_underpaid now ref p db)) = invoices (pd_billing db)"
  "subscriptions (pd_billing (mark_underpaid now ref p db)) = subscriptions (pd_billing db)"
  "pd_referral (mark_underpaid now ref p db) = pd_referral db"
  by (simp_all add: mark_underpaid_def np_row_def [abs_def] conj_assoc)

text \<open>An open payment, and the deliveries that complete it.\<close>

definition open_payment :: "uuid \<Rightarrow> string \<Rightarrow> rat \<Rightarrow> payment_db \<Rightarrow> bool" where
  "open_payment i ref amt db \<longleftrightarrow> payment_keys (pd_billing db) \<and>
     (\<exists>p\<in>set (payments (pd_billing db)). py_id p = i \<and> np_row ref p \<and> py_amount p = amt \<and> py_status p \<noteq> PY_COMPLETED)"

definition pays :: "decimal_ops \<Rightarrow> ipn_env \<Rightarrow> string \<Rightarrow> rat \<Rightarrow> delivery \<Rightarrow> bool" where
  "pays D I ref amt d \<longleftrightarrow> (\<exists>r. ipn_of I d = Some r \<and> payment_ref r = ref \<and> settling r \<and> covers D I r amt)"

lemma open_payment_update:
  assumes "open_payment i ref amt db" "payments (pd_billing db') = update_rows P f (payments (pd_billing db))"
    and "\<And>p. py_id (f p) = py_id p \<and> py_ref (f p) = py_ref p \<and> py_provider (f p) = py_provider p \<and> py_amount (f p) = py_amount p"
    and "\<And>p. p \<in> set (payments (pd_billing db)) \<Longrightarrow> np_row ref p \<Longrightarrow> P p \<Longrightarrow> py_status (f p) \<noteq> PY_COMPLETED"
  shows "open_payment i ref amt db'"
proof -
  obtain p where p: "p \<in> set (payments (pd_billing db))" "py_id p = i" "np_row ref p" "py_amount p = amt" "py_status p \<noteq> PY_COMPLETED"
    using assms(1) by (auto simp: open_payment_def)
  let ?p = "if P p then f p else p"
  have "?p \<in> set (payments (pd_billing db'))" unfolding assms(2) using p(1) by (auto simp: in_update_rows)
  moreover have "py_id ?p = i \<and> np_row ref ?p \<and> py_amount ?p = amt \<and> py_status ?p \<noteq> PY_COMPLETED"
    using p assms(3,4) by (simp add: np_row_def)
  moreover have "payment_keys (pd_billing db')"
    using assms(1,3) by (intro payment_keys_update [OF _ assms(2)]) (simp_all add: open_payment_def)
  ultimately show ?thesis unfolding open_payment_def by blast
qed

lemma open_payment_same:
  "open_payment i ref amt db \<Longrightarrow> payments (pd_billing db') = payments (pd_billing db) \<Longrightarrow> open_payment i ref amt db'"
  by (simp only: open_payment_def payment_keys_def)

lemma settle_open:
  assumes o: "open_payment i ref amt db" and other: "ref' \<noteq> ref"
  shows "open_payment i ref amt (settle_payment D cal now fr ref' db)"
proof (cases "np_payment ref' (pd_billing db)")
  case None
  with o show ?thesis by (simp add: settle_payment_def)
next
  case (Some q)
  note q = np_payment_Some [OF Some]
  have "open_payment i ref amt (complete_payment cal now ref' q db)"
  proof (rule open_payment_update [OF o complete_payments(1)])
    fix p assume p: "p \<in> set (payments (pd_billing db))" "np_row ref p" "py_id p = py_id q"
    have "p = q" using o p q by (intro key_unique [of py_id]) (auto simp: open_payment_def payment_keys_def)
    with p(2) q other show "py_status (p\<lparr>py_status := PY_COMPLETED, py_processed_at := Some now\<rparr>) \<noteq> PY_COMPLETED"
      by (simp add: np_row_def)
  qed simp
  with o Some show ?thesis by (auto simp: settle_payment_def Let_def intro: open_payment_same)
qed

lemma exec_ipn_open:
  assumes o: "open_payment i ref amt db" and amt: "0 < amt" and no: "\<not> pays D I ref amt d"
  shows "open_payment i ref amt (exec_ipn D I cal d db)"
proof (cases rule: exec_ipn_cases [of D I cal d db])
  case ignored
  with o show ?thesis by simp
next
  case (progress r)
  with o show ?thesis by (auto intro: open_payment_same)
next
  case (settle r)
  have o': "open_payment i ref amt (record_event r db)" by (rule open_payment_same [OF o]) simp
  show ?thesis
  proof (cases rule: check_and_settle_cases [of D I cal "dl_now d" "dl_fresh d" "dl_fault d" r "record_event r db"])
    case unpaid
    with o' settle show ?thesis by simp
  next
    case (underpaid p)
    have "open_payment i ref amt (mark_underpaid (dl_now d) (payment_ref r) p (record_event r db))"
      by (rule open_payment_update [OF o' underpaid_payments(1)]) simp_all
    with underpaid settle show ?thesis by simp
  next
    case fault
    with o settle show ?thesis by (simp add: forget_recorded)
  next
    case settled
    have "payment_ref r \<noteq> ref"
    proof
      assume ref: "payment_ref r = ref"
      obtain p where p: "p \<in> set (payments (pd_billing db))" "np_row ref p" "py_amount p = amt"
        using o by (auto simp: open_payment_def)
      then have "np_payment (payment_ref r) (pd_billing db) = Some p"
        using o ref by (intro np_payment_unique) (simp_all add: open_payment_def)
      then have "covers D I r (expected_amount p (pd_billing db))" using settled(3) by simp
      moreover have "expected_amount p (pd_billing db) = amt" using p(3) amt by (simp add: expected_amount_def)
      ultimately show False using no settle(1,3) ref by (auto simp: pays_def)
    qed
    with settle_open [OF o'] settled(1) settle show ?thesis by simp
  qed
qed

interpretation payment_completion:
  selective_service "exec_ipn D I cal" "\<lambda>db db'. open_payment i ref amt db \<and> 0 < amt \<longrightarrow> open_payment i ref amt db'"
    "\<lambda>d. \<not> pays D I ref amt d" for D I cal i ref amt
  by unfold_locales (auto intro: exec_ipn_open)

text \<open>A completed payment: further notifications for it leave the books as they are.\<close>

definition same_books :: "payment_db \<Rightarrow> payment_db \<Rightarrow> bool" where
  "same_books db db' \<longleftrightarrow> payments (pd_billing db') = payments (pd_billing db) \<and> invoices (pd_billing db') = invoices (pd_billing db) \<and>
     subscriptions (pd_billing db') = subscriptions (pd_billing db) \<and> pd_referral db' = pd_referral db"

definition completed_ref :: "string \<Rightarrow> payment_db \<Rightarrow> bool" where
  "completed_ref ref db \<longleftrightarrow> (\<forall>p\<in>set (payments (pd_billing db)). np_row ref p \<longrightarrow> py_status p = PY_COMPLETED)"

definition only_ref :: "ipn_env \<Rightarrow> string \<Rightarrow> delivery \<Rightarrow> bool" where
  "only_ref I ref d \<longleftrightarrow> (case ipn_of I d of None \<Rightarrow> True | Some r \<Rightarrow> payment_ref r = ref)"

lemma settle_completed:
  assumes "completed_ref ref db"
  shows "same_books db (settle_payment D cal now fr ref db)"
  using assms np_payment_Some [of ref "pd_billing db"]
  by (auto simp: settle_payment_def same_books_def completed_ref_def Let_def split: option.split)

lemma underpaid_completed:
  assumes "completed_ref ref db"
  shows "same_books db (mark_underpaid now ref p db)"
proof -
  have "update_rows (\<lambda>r. np_row ref r \<and> py_status r \<notin> {PY_COMPLETED, PY_UNDERPAID}) (\<lambda>r. r\<lparr>py_status := PY_UNDERPAID\<rparr>)
      (payments (pd_billing db)) = payments (pd_billing db)"
    by (rule update_rows_none) (use assms in \<open>auto simp: completed_ref_def\<close>)
  then show ?thesis by (simp add: same_books_def underpaid_payments)
qed

lemma exec_ipn_completed:
  assumes "completed_ref ref db" "only_ref I ref d"
  shows "same_books db (exec_ipn D I cal d db)"
proof (cases rule: exec_ipn_cases [of D I cal d db])
  case (settle r)
  then have ref: "payment_ref r = ref" using assms(2) by (simp add: only_ref_def)
  have c: "completed_ref ref (record_event r db)" using assms(1) by (simp add: completed_ref_def)
  have "same_books (record_event r db) (exec_ipn D I cal d db) \<or> exec_ipn D I cal d db = db"
  proof (cases rule: check_and_settle_cases [of D I cal "dl_now d" "dl_fresh d" "dl_fault d" r "record_event r db"])
    case fault
    with settle show ?thesis by (simp add: forget_recorded)
  next
    case settled
    with settle_completed [OF c] settle ref show ?thesis by simp
  next
    case (underpaid p)
    with underpaid_completed [OF c] settle ref show ?thesis by simp
  next
    case unpaid
    with settle show ?thesis by (simp add: same_books_def)
  qed
  then show ?thesis by (auto simp: same_books_def)
qed (simp_all add: same_books_def)

interpretation settled_payments:
  selective_service "exec_ipn D I cal" "\<lambda>db db'. completed_ref ref db \<longrightarrow> completed_ref ref db' \<and> same_books db db'" "only_ref I ref"
  for D I cal ref
proof
  fix d db assume "only_ref I ref d"
  then show "completed_ref ref db \<longrightarrow> completed_ref ref (exec_ipn D I cal d db) \<and> same_books db (exec_ipn D I cal d db)"
    using exec_ipn_completed [of ref db I d D cal] by (auto simp: completed_ref_def same_books_def)
qed (auto simp: same_books_def)

text \<open>A settlement, and the deliveries of it whose transaction fails.\<close>

definition settlement :: "decimal_ops \<Rightarrow> ipn_env \<Rightarrow> ipn_record \<Rightarrow> payment_row \<Rightarrow> payment_db \<Rightarrow> bool" where
  "settlement D I r p db \<longleftrightarrow> payment_keys (pd_billing db) \<and> p \<in> set (payments (pd_billing db)) \<and> np_row (payment_ref r) p \<and>
     py_status p \<noteq> PY_COMPLETED \<and> settling r \<and> new_event r db \<and> covers D I r (expected_amount p (pd_billing db))"

lemma settlement_exec:
  assumes s: "settlement D I r p db" and d: "ipn_of I d = Some r"
  shows "exec_ipn D I cal d db =
    (if dl_fault d then db else settle_payment D cal (dl_now d) (dl_fresh d) (payment_ref r) (record_event r db))"
proof -
  have p: "np_payment (payment_ref r) (pd_billing (record_event r db)) = Some p"
    using s by (simp add: settlement_def np_payment_unique)
  have c: "covers D I r (expected_amount p (pd_billing (record_event r db)))" using s by (simp add: settlement_def)
  have n: "new_event r db" and k: "settling r" using s by (simp_all add: settlement_def)
  show ?thesis
    unfolding exec_ipn_settle [OF d n k] check_and_settle_covered [OF p c] by (simp add: forget_recorded [OF n])
qed

lemma failed_deliveries:
  assumes "settlement D I r p db" "\<forall>d\<in>set ds. ipn_of I d = Some r \<and> dl_fault d"
  shows "run_requests (exec_ipn D I cal) ds db = db"
  using assms(2)
proof (induction ds)
  case (Cons d ds)
  then have "exec_ipn D I cal d db = db" using settlement_exec [OF assms(1), of d] by simp
  with Cons show ?case by simp
qed simp

lemma settle_books:
  assumes "np_payment ref (pd_billing db) = Some p" "py_status p \<noteq> PY_COMPLETED"
  shows "payments (pd_billing (settle_payment D cal now fr ref db)) = update_rows (\<lambda>r. py_id r = py_id p)
      (\<lambda>r. r\<lparr>py_status := PY_COMPLETED, py_processed_at := Some now\<rparr>) (payments (pd_billing db))"
    and "invoices (pd_billing (settle_payment D cal now fr ref db)) =
      update_rows (\<lambda>v. Some (iv_id v) = py_invoice p \<and> iv_status v \<noteq> INV_PAID) (set_paid now) (invoices (pd_billing db))"
    and "subscriptions (pd_billing (settle_payment D cal now fr ref db)) =
      update_rows (\<lambda>s. Some (su_id s) = py_subscription p) (activate_subscription cal now) (subscriptions (pd_billing db))"
    and "pd_referral (settle_payment D cal now fr ref db) =
      pd_referral (credit_commission D now (if_ids fr) p (subscription_plan (py_subscription p) (pd_billing db)) db)"
    and "pd_license (settle_payment D cal now fr ref db) =
      pd_license (provide_license now (if_license fr) (if_key fr) (py_subscription p) (complete_payment cal now ref p db))"
  using assms by (auto simp: settle_payment_def Let_def complete_payment_def credit_commission_def provide_license_def split: option.split)

lemma settle_completes:
  assumes "settlement D I r p db"
  shows "completed_ref (payment_ref r) (settle_payment D cal now fr (payment_ref r) db)"
proof -
  have p: "np_payment (payment_ref r) (pd_billing db) = Some p" "py_status p \<noteq> PY_COMPLETED"
    and keys: "payment_keys (pd_billing db)"
    using assms by (auto simp: settlement_def np_payment_unique)
  have one: "q = p" if "q \<in> set (payments (pd_billing db))" "np_row (payment_ref r) q" for q
    using np_payment_unique [OF keys that] p(1) by simp
  show ?thesis
    unfolding completed_ref_def settle_books(1) [OF p] ball_update_rows using one by (auto simp: np_row_def)
qed

text \<open>The subscription of a settled payment is licensed.\<close>

lemma provide_license_serves:
  assumes "s \<in> set (subscriptions (pd_billing db))" "distinct (map su_id (subscriptions (pd_billing db)))"
    and "distinct (map lc_id (licenses (pd_license db))) \<and> distinct (map lp_id (license_plans (pd_license db)))"
    and "plan_row_of (pd_license db) (su_plan s) \<noteq> None"
    and "\<not> exists_row (\<lambda>r. lc_id r = lid \<or> lc_key r = Some (''PAT-'' @ key)) (licenses (pd_license db))"
  shows "\<exists>l\<in>set (licenses (pd_license (provide_license now lid key (Some (su_id s)) db))). lc_user l = su_user s \<and> lc_status l = L_ACTIVE \<and>
    lc_plan l = su_plan s \<and> lc_subscription l = Some (su_id s)"
proof -
  let ?v = "license_view (pd_billing db) (pd_license db)"
  let ?s = "\<lparr>ls_id = su_id s, ls_user = su_user s, ls_plan = su_plan s\<rparr>"
  have subs: "license_subs ?v = map (\<lambda>s. \<lparr>ls_id = su_id s, ls_user = su_user s, ls_plan = su_plan s\<rparr>) (subscriptions (pd_billing db))"
    by (simp add: license_view_def)
  then have s: "?s \<in> set (license_subs ?v)" using assms(1) by simp
  have keys: "license_keys_ok ?v"
    using assms(2,3) by (simp add: license_keys_ok_def subs comp_def) (simp add: license_view_def)
  have plan: "plan_row_of ?v (ls_plan ?s) \<noteq> None" using assms(4) by (simp add: plan_row_of_def license_view_def)
  have fresh: "\<not> exists_row (\<lambda>r. lc_id r = lid \<or> lc_key r = Some (''PAT-'' @ key)) (licenses ?v)"
    using assms(5) by (simp add: license_view_def)
  obtain res db' l where "ensureActiveLicenseForSubscription now lid key (su_id s) ?v = (Inr (Some res), db')"
    "l \<in> set (licenses db')" "serves ?s l"
    using ensure_serves [OF keys s plan fresh, of now] by auto
  then show ?thesis by (auto simp: provide_license_def serves_def)
qed

lemma activate_keeps [simp]:
  "su_id (activate_subscription cal now s) = su_id s" "su_user (activate_subscription cal now s) = su_user s"
  "su_plan (activate_subscription cal now s) = su_plan s" "su_status (activate_subscription cal now s) = S_ACTIVE"
  by (simp_all add: activate_subscription_def)

lemma settle_licenses:
  assumes "np_payment ref (pd_billing db) = Some p" "py_status p \<noteq> PY_COMPLETED" "py_subscription p = Some (su_id s)"
    and "s \<in> set (subscriptions (pd_billing db))" "distinct (map su_id (subscriptions (pd_billing db)))"
    and "distinct (map lc_id (licenses (pd_license db))) \<and> distinct (map lp_id (license_plans (pd_license db)))"
    and "plan_row_of (pd_license db) (su_plan s) \<noteq> None"
    and "\<not> exists_row (\<lambda>r. lc_id r = if_license fr \<or> lc_key r = Some (''PAT-'' @ if_key fr)) (licenses (pd_license db))"
  shows "\<exists>l\<in>set (licenses (pd_license (settle_payment D cal now fr ref db))). lc_user l = su_user s \<and> lc_status l = L_ACTIVE \<and>
    lc_plan l = su_plan s \<and> lc_subscription l = Some (su_id s)"
proof -
  let ?db = "complete_payment cal now ref p db"
  let ?s = "activate_subscription cal now s"
  have subs: "subscriptions (pd_billing ?db) =
      update_rows (\<lambda>r. Some (su_id r) = py_subscription p) (activate_subscription cal now) (subscriptions (pd_billing db))"
    by (simp add: complete_payment_def Let_def)
  have "?s \<in> set (subscriptions (pd_billing ?db))" unfolding subs using assms(3,4) by (auto intro: update_rows_hit)
  moreover have "distinct (map su_id (subscriptions (pd_billing ?db)))"
    unfolding subs by (subst map_update_rows_frame) (simp_all add: assms(5))
  ultimately have "\<exists>l\<in>set (licenses (pd_license (provide_license now (if_license fr) (if_key fr) (Some (su_id ?s)) ?db))).
      lc_user l = su_user ?s \<and> lc_status l = L_ACTIVE \<and> lc_plan l = su_plan ?s \<and> lc_subscription l = Some (su_id ?s)"
    by (rule provide_license_serves) (use assms(6-8) in \<open>simp_all add: complete_payments\<close>)
  then show ?thesis unfolding settle_books(5) [OF assms(1,2)] by (simp add: assms(3))
qed

text \<open>
  The reference of a notification is its payment identifier when it has one, while the stored reference is
  the identifier of the invoice: a notification with another payment identifier settles nothing.
\<close>

lemma foreign_payment_id_ignored:
  assumes "np_payment_id r = Some x" "np_payment x (pd_billing db) = None" "ipn_of I d = Some r"
  shows "same_books db (exec_ipn D I cal d db)"
proof (cases rule: exec_ipn_cases [of D I cal d db])
  case (settle r')
  have none: "np_payment (payment_ref r') (pd_billing db) = None"
    using assms settle(1) by (simp add: payment_ref_def)
  show ?thesis
    using settle by (auto simp: check_and_settle_def none settle_ipn_def settle_payment_def same_books_def forget_recorded)
qed (simp_all add: same_books_def)

text \<open>Some single amount of a covering notification reaches the minimum.\<close>

lemma amounts_paid_positive: "amounts_paid xs = Some ds \<Longrightarrow> \<forall>d\<in>set ds. dec_lt (Finite 0) d \<and> Some (Amount d) \<in> set xs"
  by (induction xs arbitrary: ds rule: amounts_paid.induct) (fastforce split: if_splits)+

lemma max_paid_positive: "\<lbrakk>\<forall>d\<in>set ds. dec_lt (Finite 0) d; ds \<noteq> []\<rbrakk> \<Longrightarrow> max_paid ds \<in> set ds"
proof (cases ds)
  case (Cons d ds')
  assume "\<forall>d\<in>set ds. dec_lt (Finite 0) d"
  moreover have "foldl (\<lambda>m d. if dec_lt m d then d else m) m xs \<in> insert m (set xs)" for m xs
    by (induction xs arbitrary: m) auto
  ultimately show ?thesis using Cons by (simp add: max_paid_def)
qed simp

lemma covers_amount:
  assumes "covers D I r e" "e > 0"
  obtains "\<not> ip_strict I" "amounts_paid (np_amounts r) = Some []"
  | d where "Some (Amount d) \<in> set (np_amounts r)" "dec_lt (Finite 0) d"
      "\<not> dec_lt (dec_plus D d (1 / 10 ^ 9)) (Finite (min_ok D I e))"
proof -
  obtain ds where ds: "amounts_paid (np_amounts r) = Some ds" "\<not> underpaid D I e ds" "\<not> (ds = [] \<and> ip_strict I)"
    using assms(1) by (auto simp: covers_def)
  show thesis
  proof (cases "ds = []")
    case True
    with ds that(1) show thesis by simp
  next
    case False
    with amounts_paid_positive [OF ds(1)] have "max_paid ds \<in> set ds" by (intro max_paid_positive) auto
    with amounts_paid_positive [OF ds(1)] that(2) [of "max_paid ds"] ds(2) False assms(2) show thesis
      by (auto simp: underpaid_def)
  qed
qed

section \<open>Properties\<close>

definition example_payment_row :: payment_row where
  "example_payment_row = pending_payment ''nowpayments'' 1 60 20 40 50 ''np1'' 299"

definition example_payments :: payment_db where
  "example_payments = \<lparr>pd_billing = example_billing\<lparr>subscriptions := [example_subscription\<lparr>su_status := S_INCOMPLETE\<rparr>],
       payments := [example_payment_row]\<rparr>,
     pd_referral = example_db,
     pd_license = example_paid\<lparr>license_plans := [\<lparr>lp_id = 7, lp_code = ''PRO'', lp_name = ''Pro'', lp_strategies = None,
       lp_max_devices = Some 2, lp_max_mt = Some 2\<rparr>]\<rparr>,
     pd_audit = []\<rparr>"

definition example_ipn :: "string \<Rightarrow> rat \<Rightarrow> ipn_record" where
  "example_ipn st amt = \<lparr>np_status = Some st, np_payment_id = None, np_invoice_id = Some ''np1'',
     np_amounts = [Some (Amount (Finite amt))]\<rparr>"

definition example_ipn_env :: ipn_env where
  "example_ipn_env = \<lparr>ip_secret = Some ''s'', ip_hmac = (\<lambda>k m. k @ m),
     ip_parse = (\<lambda>t. if t = ''full'' then Some (example_ipn ''finished'' 298) else if t = ''part'' then Some (example_ipn ''confirmed'' 5)
       else None), ip_tolerance = 2, ip_strict = True\<rparr>"

definition example_delivery :: "time \<Rightarrow> bool \<Rightarrow> string \<Rightarrow> delivery" where
  "example_delivery t fault raw = \<lparr>dl_now = t, dl_fresh = \<lparr>if_ids = (\<lambda>i. 80 + i), if_license = 90, if_key = ''k''\<rparr>,
     dl_fault = fault, dl_raw = raw, dl_sig = Some (''s'' @ raw)\<rparr>"

definition example_month :: "billing_interval \<Rightarrow> time \<Rightarrow> time" where
  "example_month iv t = (case iv of MONTHLY \<Rightarrow> t + days 30 | ANNUAL \<Rightarrow> t + days 365)"





end
