(* ===== verification/CardPayments.thy ===== *)
theory CardPayments
  imports Payments
begin

text \<open>
  Card payments, \<^verbatim>\<open>control/src/modules/billing/stripe.service.ts\<close>: the checkout session and the signed webhook
  whose paid events settle a subscription. The keyed hash, the JSON parser, the cast of a text to an
  identifier and the answers of the gateway are parameters, as in \<open>Payments\<close>. The settlement holds a
  row lock on the subscription while it may ask the billing service, on another connection, to insert an
  invoice that references the same row: that insert waits for the lock until the statement timeout
  (\<^verbatim>\<open>common/database.module.ts\<close>) cancels it, which is the error \<open>57014\<close> of \<open>settle_invoice\<close>.
\<close>

section \<open>Checkout\<close>

text \<open>The price goes through a JavaScript number (\<open>num\<close>).\<close>

definition card_plan :: "(rat \<Rightarrow> rat) \<Rightarrow> uuid \<Rightarrow> billing_interval \<Rightarrow> billing_db \<Rightarrow> (plan_row \<times> rat) result" where
  "card_plan num plan iv db =
     (case first_row (\<lambda>p. pl_id p = plan \<and> pl_active p) (plans db) of
        None \<Rightarrow> Inl (NotFound ''Active plan not found'')
      | Some p \<Rightarrow>
          (case (if iv = ANNUAL then pl_annual_price p else Some (pl_monthly_price p)) of
             None \<Rightarrow> Inl (BadRequest ''Annual billing is not available for this plan'')
           | Some price \<Rightarrow>
               if num price \<le> 0 then Inl (BadRequest ''Plan does not require payment'') else Inr (p, num price)))"

definition unit_amount :: "decimal_ops \<Rightarrow> rat \<Rightarrow> rat" where
  "unit_amount D price = d_toDP D 0 (d_mul D price 100)"

text \<open>The gateway is asked with the subscription, the invoice and the amount in cents.\<close>

definition createCheckoutSession ::
  "decimal_ops \<Rightarrow> (rat \<Rightarrow> rat) \<Rightarrow> (billing_interval \<Rightarrow> time \<Rightarrow> time) \<Rightarrow> string option \<Rightarrow> (uuid \<Rightarrow> uuid \<Rightarrow> rat \<Rightarrow> gateway_reply) \<Rightarrow> time \<Rightarrow>
   uuid \<times> uuid \<times> uuid \<Rightarrow> uuid \<Rightarrow> uuid \<Rightarrow> string option \<Rightarrow> (billing_db, string \<times> string) handler" where
  "createCheckoutSession D num cal secret gw now fresh u plan interval db =
     (case fresh of (sid, iid, pid) \<Rightarrow>
      if js_trim (or_string secret []) = [] then (Inl (ServiceUnavailable ''payment_gateway_not_configured''), db)
      else
        (case checkout_interval interval of
           Inl e \<Rightarrow> (Inl e, db)
         | Inr iv \<Rightarrow>
             (case card_plan num plan iv db of
                Inl e \<Rightarrow> (Inl e, db)
              | Inr (p, price) \<Rightarrow>
                  (case pending_subscription cal now sid u p iv db of
                     Inl e \<Rightarrow> (Inl e, db)
                   | Inr (s, db1) \<Rightarrow>
                       (case generateInvoiceForSubscription D num now iid s u
                               \<lparr>opt_start = None, opt_end = None, opt_markPaid = False, opt_paymentId = None\<rparr> db1 of
                          (Inl e, db2) \<Rightarrow> (Inl e, db2)
                        | (Inr i, db2) \<Rightarrow>
                            (case gateway_answer (gw s i (unit_amount D price)) of
                               Inl e \<Rightarrow> (Inl e, db2)
                             | Inr (session, url) \<Rightarrow>
                                 (case insert_payment (pending_payment ''stripe'' now pid u s i session price) db2 of
                                    Inl e \<Rightarrow> (Inl e, db2)
                                  | Inr db3 \<Rightarrow> (Inr (url, session), db3))))))))"

section \<open>The signature\<close>

definition signature_part :: "string option \<times> string option \<Rightarrow> string \<Rightarrow> string option \<times> string option" where
  "signature_part tv part =
     (case js_split (CHR ''='') part of
        [] \<Rightarrow> tv
      | k # vs \<Rightarrow>
          (let v = (case vs of [] \<Rightarrow> None | x # _ \<Rightarrow> Some x) in
           if k = ''t'' then (v, snd tv) else if k = ''v1'' then (fst tv, v) else tv))"

definition signature_parts :: "string \<Rightarrow> string option \<times> string option" where
  "signature_parts h = foldl signature_part (Some [], Some []) (js_split (CHR '','') h)"

record card_event =
  evt_type :: "string option"
  evt_id :: "string option"
  evt_payment_status :: "string option"
  evt_client_ref :: "string option"
  evt_meta_subscription :: "string option"
  evt_meta_invoice :: "string option"
  evt_payment_intent :: "string option"
  evt_object_id :: "string option"
  evt_data_subscription :: "string option"

record card_env =
  ce_secret :: "string option"
  ce_hmac :: "string \<Rightarrow> string \<Rightarrow> string"
  ce_parse :: "string \<Rightarrow> card_event option"
  ce_uuid :: "string \<Rightarrow> uuid option"

definition card_secret :: "card_env \<Rightarrow> string" where
  "card_secret E = js_trim (or_string (ce_secret E) [])"

text \<open>The timestamp of an authentic delivery.\<close>

definition card_signature :: "card_env \<Rightarrow> string \<Rightarrow> string option \<Rightarrow> string option" where
  "card_signature E raw sig =
     (case or_null sig of
        None \<Rightarrow> None
      | Some h \<Rightarrow>
          if raw = [] then None
          else (case (or_null (fst (signature_parts h)), or_null (snd (signature_parts h))) of
                  (Some t, Some v1) \<Rightarrow> if v1 = ce_hmac E (card_secret E) (t @ ''.'' @ raw) then Some t else None
                | _ \<Rightarrow> None))"

section \<open>Settlement\<close>

record activation_event =
  ae_subscription :: uuid
  ae_payment :: string
  ae_actor :: uuid
  ae_at :: time

record card_db =
  cd_pay :: payment_db
  cd_events :: "activation_event list"

abbreviation cd_billing :: "card_db \<Rightarrow> billing_db" where
  "cd_billing db \<equiv> pd_billing (cd_pay db)"

definition set_billing :: "billing_db \<Rightarrow> card_db \<Rightarrow> card_db" where
  "set_billing b db = db\<lparr>cd_pay := (cd_pay db)\<lparr>pd_billing := b\<rparr>\<rparr>"

definition settle_invoice ::
  "decimal_ops \<Rightarrow> (rat \<Rightarrow> rat) \<Rightarrow> card_env \<Rightarrow> time \<Rightarrow> uuid \<Rightarrow> string option \<Rightarrow> subscription_row \<Rightarrow> (billing_db, uuid) handler" where
  "settle_invoice D num E now iid meta s b =
     (case meta of
        Some x \<Rightarrow> ((case ce_uuid E x of None \<Rightarrow> Inl (SqlError ''22P02'') | Some i \<Rightarrow> Inr i), b)
      | None \<Rightarrow>
          (case generateInvoiceForSubscription D num now iid (su_id s) (su_user s)
                  \<lparr>opt_start = None, opt_end = None, opt_markPaid = True, opt_paymentId = None\<rparr> b of
             (Inl e, b') \<Rightarrow> (Inl e, b')
           | (Inr i, b') \<Rightarrow>
               if exists_row (\<lambda>v. iv_id v = i) (invoices b) then (Inr i, b)
               else (Inl (SqlError ''57014''), snd (nextInvoiceNumber b))))"

definition card_payment :: "time \<Rightarrow> uuid \<Rightarrow> subscription_row \<Rightarrow> uuid \<Rightarrow> string \<Rightarrow> payment_row" where
  "card_payment now pid s i pay =
     (pending_payment ''stripe'' now pid (su_user s) (su_id s) i pay 0)\<lparr>py_status := PY_COMPLETED\<rparr>"

definition insert_card_payment :: "payment_row \<Rightarrow> uuid \<Rightarrow> billing_db \<Rightarrow> billing_db result" where
  "insert_card_payment p i b =
     (if \<not> exists_row (\<lambda>r. py_provider r = py_provider p \<and> py_ref r = py_ref p) (payments b) \<and>
         \<not> exists_row (\<lambda>v. iv_id v = i) (invoices b)
      then Inl (SqlError ''23503'') else insert_payment p b)"

record card_fresh =
  cf_invoice :: uuid
  cf_payment :: uuid
  cf_license :: uuid
  cf_key :: string

definition activate_card ::
  "(billing_interval \<Rightarrow> time \<Rightarrow> time) \<Rightarrow> time \<Rightarrow> subscription_row \<Rightarrow> uuid \<Rightarrow> billing_db \<Rightarrow> billing_db" where
  "activate_card cal now s i b = b
     \<lparr>invoices := update_rows (\<lambda>v. iv_id v = i \<and> iv_status v \<noteq> INV_PAID) (set_paid now) (invoices b),
      subscriptions := update_rows (\<lambda>r. su_id r = su_id s) (activate_subscription cal now) (subscriptions b)\<rparr>"

text \<open>
  The statements on the billing service's own connection are not part of the transaction: after an
  error only they stay. With \<open>fault\<close> a statement of the transaction fails.
\<close>

definition settle_card ::
  "decimal_ops \<Rightarrow> (rat \<Rightarrow> rat) \<Rightarrow> (billing_interval \<Rightarrow> time \<Rightarrow> time) \<Rightarrow> card_env \<Rightarrow> time \<Rightarrow> card_fresh \<Rightarrow> bool \<Rightarrow>
   string \<Rightarrow> string option \<Rightarrow> string \<Rightarrow> (card_db, unit) handler" where
  "settle_card D num cal E now fr fault sub meta pay db =
     (if fault then (Inl (SqlError ''40001''), db)
      else
        (case ce_uuid E sub of
           None \<Rightarrow> (Inl (SqlError ''22P02''), db)
         | Some sid \<Rightarrow>
             (case first_row (\<lambda>s. su_id s = sid) (subscriptions (cd_billing db)) of
                None \<Rightarrow> (Inr (), db)
              | Some s \<Rightarrow>
                  (case settle_invoice D num E now (cf_invoice fr) meta s (cd_billing db) of
                     (Inl e, b) \<Rightarrow> (Inl e, set_billing b db)
                   | (Inr i, b) \<Rightarrow>
                       (case insert_card_payment (card_payment now (cf_payment fr) s i pay) i b of
                          Inl e \<Rightarrow> (Inl e, set_billing b db)
                        | Inr b1 \<Rightarrow>
                            (let db1 = (set_billing (activate_card cal now s i b1) db)
                                   \<lparr>cd_events := cd_events db @
                                     [\<lparr>ae_subscription = sid, ae_payment = pay, ae_actor = su_user s, ae_at = now\<rparr>]\<rparr> in
                             (Inr (), db1\<lparr>cd_pay :=
                                provide_license now (cf_license fr) (cf_key fr) (Some sid) (cd_pay db1)\<rparr>)))))))"

section \<open>The webhook\<close>

definition card_event_type :: "card_event \<Rightarrow> string" where
  "card_event_type e = coalesce_text (evt_type e) []"

definition card_event_id :: "string \<Rightarrow> card_event \<Rightarrow> string" where
  "card_event_id t e = coalesce_text (evt_id e) (card_event_type e @ '':'' @ t)"

definition card_paid_events :: "string list" where
  "card_paid_events = [''checkout.session.completed'', ''invoice.paid'', ''payment_intent.succeeded'']"

fun or_else :: "string option list \<Rightarrow> string option" where
  "or_else [] = None"
| "or_else (x # xs) = (case or_null x of Some s \<Rightarrow> Some s | None \<Rightarrow> or_else xs)"

definition event_subscription :: "card_event \<Rightarrow> string option" where
  "event_subscription e = or_else [evt_client_ref e, evt_meta_subscription e, evt_data_subscription e]"

definition event_payment :: "string \<Rightarrow> card_event \<Rightarrow> string" where
  "event_payment eid e =
     coalesce_text (or_else [evt_payment_intent e, evt_object_id e, evt_data_subscription e]) eid"

definition card_seen :: "string \<Rightarrow> payment_event_row \<Rightarrow> bool" where
  "card_seen eid r \<longleftrightarrow> pe_provider r = ''stripe'' \<and> pe_event_id r = eid"

definition record_card_event :: "string \<Rightarrow> card_event \<Rightarrow> card_db \<Rightarrow> card_db" where
  "record_card_event eid e db =
     set_billing ((cd_billing db)\<lparr>payment_events := payment_events (cd_billing db) @
       [\<lparr>pe_provider = ''stripe'', pe_event_id = eid, pe_type = or_string (evt_type e) ''unknown''\<rparr>]\<rparr>) db"

definition forget_card_event :: "string \<Rightarrow> card_db \<Rightarrow> card_db" where
  "forget_card_event eid db =
     set_billing ((cd_billing db)\<lparr>payment_events := filter (\<lambda>r. \<not> card_seen eid r) (payment_events (cd_billing db))\<rparr>) db"

text \<open>A completed session is a charge only when it is paid.\<close>

definition event_paid :: "card_event \<Rightarrow> bool" where
  "event_paid e \<longleftrightarrow> card_event_type e \<in> set card_paid_events \<and>
     (card_event_type e = ''checkout.session.completed'' \<longrightarrow> evt_payment_status e = Some ''paid'')"

definition stripe_handleWebhook ::
  "decimal_ops \<Rightarrow> (rat \<Rightarrow> rat) \<Rightarrow> (billing_interval \<Rightarrow> time \<Rightarrow> time) \<Rightarrow> card_env \<Rightarrow> time \<Rightarrow> card_fresh \<Rightarrow> bool \<Rightarrow>
   string \<Rightarrow> string option \<Rightarrow> (card_db, ipn_reply) handler" where
  "stripe_handleWebhook D num cal E now fr fault raw sig db =
     (if card_secret E = [] then (Inl (Unauthorized ''webhook_not_configured''), db)
      else
        (case card_signature E raw sig of
           None \<Rightarrow> (Inl (Unauthorized ''invalid_webhook_signature''), db)
         | Some t \<Rightarrow>
             (case ce_parse E raw of
                None \<Rightarrow> (Inl (InternalError ''SyntaxError''), db)
              | Some e \<Rightarrow>
                  (let eid = card_event_id t e; db1 = record_card_event eid e db in
                   if exists_row (card_seen eid) (payment_events (cd_billing db)) then (Inr Duplicate_ipn, db)
                   else
                     (case (event_paid e, event_subscription e) of
                        (True, Some sub) \<Rightarrow>
                          (case settle_card D num cal E now fr fault sub (or_null (evt_meta_invoice e)) (event_payment eid e) db1 of
                             (Inl err, db2) \<Rightarrow> (Inl err, forget_card_event eid db2)
                           | (Inr _, db2) \<Rightarrow> (Inr (Received_ipn (card_event_type e)), db2))
                      | _ \<Rightarrow> (Inr (Received_ipn (or_string (evt_type e) ''unknown'')), db1))))))"

section \<open>What a settlement touches\<close>

lemma insert_invoice_error:
  "insert_invoice D num now iid s p pstart pend price opts b = (Inl e, b') \<Longrightarrow> b' = snd (nextInvoiceNumber b)"
  by (auto simp: insert_invoice_def nextInvoiceNumber_def Let_def split: if_splits)

lemma settle_invoice_keeps:
  "settle_invoice D num E now iid meta s b = (r, b') \<Longrightarrow> b' = b\<lparr>invoice_seq := invoice_seq b'\<rparr>"
proof (cases meta)
  case None
  assume r: "settle_invoice D num E now iid meta s b = (r, b')"
  let ?g = "generateInvoiceForSubscription D num now iid (su_id s) (su_user s)
      \<lparr>opt_start = None, opt_end = None, opt_markPaid = True, opt_paymentId = None\<rparr> b"
  have "(\<exists>e. ?g = (Inl e, b)) \<or> (\<exists>i. ?g = (Inr i, b)) \<or> (\<exists>e. ?g = (Inl e, snd (nextInvoiceNumber b))) \<or> (\<exists>i b1. ?g = (Inr i, b1))"
  proof (cases rule: generate_cases [of D num now iid "su_id s" "su_user s"
        "\<lparr>opt_start = None, opt_end = None, opt_markPaid = True, opt_paymentId = None\<rparr>" b])
    case (insert s p price pstart pend)
    then show ?thesis
      by (cases "insert_invoice D num now iid s p pstart pend price
          \<lparr>opt_start = None, opt_end = None, opt_markPaid = True, opt_paymentId = None\<rparr> b" rule: prod.exhaust; rename_tac x y; case_tac x)
        (auto dest: insert_invoice_error)
  qed simp_all
  with r None show ?thesis by (auto simp: settle_invoice_def nextInvoiceNumber_def split: if_splits)
qed (simp add: settle_invoice_def)

text \<open>The outcomes of a settlement: only a number was drawn, or the subscription is activated.\<close>

lemma settle_card_cases [case_names kept settled]:
  obtains
    (kept) r n where "settle_card D num cal E now fr fault sub meta pay db = (r, set_billing ((cd_billing db)\<lparr>invoice_seq := n\<rparr>) db)"
  | (settled) s i b b1 where "\<not> fault" "ce_uuid E sub = Some (su_id s)" "s \<in> set (subscriptions (cd_billing db))"
      "settle_invoice D num E now (cf_invoice fr) meta s (cd_billing db) = (Inr i, b)"
      "insert_card_payment (card_payment now (cf_payment fr) s i pay) i b = Inr b1"
      "settle_card D num cal E now fr fault sub meta pay db =
        (Inr (), \<lparr>cd_pay = provide_license now (cf_license fr) (cf_key fr) (Some (su_id s))
             ((cd_pay db)\<lparr>pd_billing := activate_card cal now s i b1\<rparr>),
           cd_events = cd_events db @ [\<lparr>ae_subscription = su_id s, ae_payment = pay, ae_actor = su_user s, ae_at = now\<rparr>]\<rparr>)"
proof -
  have keep: "set_billing ((cd_billing db)\<lparr>invoice_seq := invoice_seq (cd_billing db)\<rparr>) db = db" by (simp add: set_billing_def)
  show thesis
  proof (cases "fault \<or> ce_uuid E sub = None \<or> (\<forall>sid. ce_uuid E sub = Some sid \<longrightarrow>
      first_row (\<lambda>s. su_id s = sid) (subscriptions (cd_billing db)) = None)")
    case True
    then have "\<exists>r. settle_card D num cal E now fr fault sub meta pay db = (r, db)"
      by (auto simp: settle_card_def split: option.split)
    with keep kept [of _ "invoice_seq (cd_billing db)"] show thesis by auto
  next
    case False
    then obtain s where s: "\<not> fault" "ce_uuid E sub = Some (su_id s)" "s \<in> set (subscriptions (cd_billing db))"
      "first_row (\<lambda>r. su_id r = su_id s) (subscriptions (cd_billing db)) = Some s"
      by (auto dest: first_row_Some)
    obtain x b where b: "settle_invoice D num E now (cf_invoice fr) meta s (cd_billing db) = (x, b)" by force
    note kb = settle_invoice_keeps [OF b]
    show thesis
    proof (cases x)
      case (Inl e)
      with s b kept [of "Inl e" "invoice_seq b"] kb show thesis by (simp add: settle_card_def)
    next
      case (Inr i)
      show thesis
      proof (cases "insert_card_payment (card_payment now (cf_payment fr) s i pay) i b")
        case (Inl e)
        with s b Inr kept [of "Inl e" "invoice_seq b"] kb show thesis by (simp add: settle_card_def)
      next
        case b1: (Inr b1)
        with s b Inr show thesis
          by (intro settled [of s i b b1]) (simp_all add: settle_card_def Let_def set_billing_def)
      qed
    qed
  qed
qed

lemma insert_card_payment_keeps:
  "insert_card_payment p i b = Inr b1 \<Longrightarrow> \<exists>ps. b1 = b\<lparr>payments := ps\<rparr>"
proof -
  assume "insert_card_payment p i b = Inr b1"
  then have "b1 = b \<or> b1 = b\<lparr>payments := payments b @ [p]\<rparr>"
    by (auto simp: insert_card_payment_def insert_payment_def split: if_splits)
  then show ?thesis by (metis billing_db.surjective billing_db.update_convs(8))
qed

section \<open>Deliveries\<close>

record card_delivery =
  ca_now :: time
  ca_fresh :: card_fresh
  ca_fault :: bool
  ca_raw :: string
  ca_sig :: "string option"

definition exec_card ::
  "decimal_ops \<Rightarrow> (rat \<Rightarrow> rat) \<Rightarrow> (billing_interval \<Rightarrow> time \<Rightarrow> time) \<Rightarrow> card_env \<Rightarrow> card_delivery \<Rightarrow> card_db \<Rightarrow> card_db" where
  "exec_card D num cal E d db =
     snd (stripe_handleWebhook D num cal E (ca_now d) (ca_fresh d) (ca_fault d) (ca_raw d) (ca_sig d) db)"

text \<open>The deliveries that charge a subscription.\<close>

definition charges :: "card_env \<Rightarrow> uuid \<Rightarrow> card_delivery \<Rightarrow> bool" where
  "charges E sid d \<longleftrightarrow> card_secret E \<noteq> [] \<and> (\<exists>t e x. card_signature E (ca_raw d) (ca_sig d) = Some t \<and>
     ce_parse E (ca_raw d) = Some e \<and> event_paid e \<and> event_subscription e = Some x \<and> ce_uuid E x = Some sid)"

definition same_account :: "uuid \<Rightarrow> card_db \<Rightarrow> card_db \<Rightarrow> bool" where
  "same_account sid db db' \<longleftrightarrow>
     filter (\<lambda>s. su_id s = sid) (subscriptions (cd_billing db')) = filter (\<lambda>s. su_id s = sid) (subscriptions (cd_billing db)) \<and>
     filter (\<lambda>a. ae_subscription a = sid) (cd_events db') = filter (\<lambda>a. ae_subscription a = sid) (cd_events db) \<and>
     pd_referral (cd_pay db') = pd_referral (cd_pay db)"

lemma settle_other_account:
  assumes "ce_uuid E sub \<noteq> Some sid"
  shows "same_account sid db (snd (settle_card D num cal E now fr fault sub meta pay db))"
proof (cases rule: settle_card_cases [of D num cal E now fr fault sub meta pay db])
  case (kept r n)
  then show ?thesis by (simp add: same_account_def set_billing_def)
next
  case (settled s i b b1)
  have sid: "su_id s \<noteq> sid" using settled(2) assms by auto
  obtain ps where "b1 = b\<lparr>payments := ps\<rparr>" using insert_card_payment_keeps [OF settled(5)] by blast
  moreover have "b = (cd_billing db)\<lparr>invoice_seq := invoice_seq b\<rparr>" by (rule settle_invoice_keeps [OF settled(4)])
  ultimately have "subscriptions b1 = subscriptions (cd_billing db)"
    by (metis billing_db.select_convs(3) billing_db.surjective billing_db.update_convs(8,11))
  moreover have "filter (\<lambda>r. su_id r = sid) (update_rows (\<lambda>r. su_id r = su_id s) (activate_subscription cal now) t) =
      filter (\<lambda>r. su_id r = sid) t" for t
    by (rule filter_update_outside) (use sid in auto)
  ultimately show ?thesis using sid settled(6) by (simp add: same_account_def activate_card_def)
qed

lemma exec_card_other:
  assumes "\<not> charges E sid d"
  shows "same_account sid db (exec_card D num cal E d db)"
proof (cases "card_secret E = [] \<or> card_signature E (ca_raw d) (ca_sig d) = None \<or> ce_parse E (ca_raw d) = None")
  case True
  then show ?thesis
    by (auto simp: exec_card_def stripe_handleWebhook_def same_account_def split: option.split)
next
  case False
  then obtain t e where te: "card_secret E \<noteq> []" "card_signature E (ca_raw d) (ca_sig d) = Some t" "ce_parse E (ca_raw d) = Some e"
    by auto
  let ?eid = "card_event_id t e"
  let ?db = "record_card_event ?eid e db"
  have rec: "same_account sid db ?db" by (simp add: same_account_def record_card_event_def set_billing_def)
  show ?thesis
  proof (cases "event_paid e \<and> event_subscription e \<noteq> None")
    case False
    then have "exec_card D num cal E d db \<in> {db, ?db}"
      using te by (auto simp: exec_card_def stripe_handleWebhook_def Let_def split: option.split bool.split)
    with rec show ?thesis by (auto simp: same_account_def)
  next
    case True
    then obtain x where x: "event_subscription e = Some x" "event_paid e" by blast
    then have "ce_uuid E x \<noteq> Some sid" using assms te by (auto simp: charges_def)
    from settle_other_account [OF this, of ?db D num cal "ca_now d" "ca_fresh d" "ca_fault d" "or_null (evt_meta_invoice e)" "event_payment ?eid e"]
    show ?thesis using te x rec
      by (auto simp: exec_card_def stripe_handleWebhook_def Let_def same_account_def forget_card_event_def set_billing_def split: prod.splits sum.splits)
  qed
qed

interpretation card_accounts: selective_service "exec_card D num cal E" "same_account sid" "\<lambda>d. \<not> charges E sid d" for D num cal E sid
proof
  fix d db assume "\<not> charges E sid d"
  then show "same_account sid db (exec_card D num cal E d db)" by (rule exec_card_other)
qed (auto simp: same_account_def)

text \<open>The settlement of a paid event whose subscription and invoice are on file.\<close>

lemma settle_card_ok:
  assumes s: "s \<in> set (subscriptions (cd_billing db))" "distinct (map su_id (subscriptions (cd_billing db)))"
    and ids: "ce_uuid E x = Some (su_id s)" "ce_uuid E y = Some (iv_id v)" and v: "v \<in> set (invoices (cd_billing db))"
    and fresh: "\<not> exists_row (\<lambda>r. py_id r = cf_payment fr) (payments (cd_billing db))"
  obtains b1 where
    "settle_card D num cal E now fr False x (Some y) pay db =
       (Inr (), \<lparr>cd_pay = provide_license now (cf_license fr) (cf_key fr) (Some (su_id s))
            ((cd_pay db)\<lparr>pd_billing := activate_card cal now s (iv_id v) b1\<rparr>),
          cd_events = cd_events db @ [\<lparr>ae_subscription = su_id s, ae_payment = pay, ae_actor = su_user s, ae_at = now\<rparr>]\<rparr>)"
    "subscriptions b1 = subscriptions (cd_billing db)" "invoices b1 = invoices (cd_billing db)"
    "payment_events b1 = payment_events (cd_billing db)"
    "exists_row (\<lambda>p. py_provider p = ''stripe'' \<and> py_ref p = Some pay) (payments b1)"
    "\<And>p. p \<in> set (payments (cd_billing db)) \<Longrightarrow> p \<in> set (payments b1)"
proof -
  let ?p = "card_payment now (cf_payment fr) s (iv_id v) pay"
  let ?b = "cd_billing db"
  let ?b1 = "if exists_row (\<lambda>r. py_provider r = ''stripe'' \<and> py_ref r = Some pay) (payments ?b) then ?b
    else ?b\<lparr>payments := payments ?b @ [?p]\<rparr>"
  have p: "py_provider ?p = ''stripe''" "py_ref ?p = Some pay" "py_id ?p = cf_payment fr"
    by (simp_all add: card_payment_def pending_payment_def)
  have ref: "exists_row (\<lambda>r. py_provider r = ''stripe'' \<and> py_ref r \<noteq> None \<and> py_ref r = Some pay) t =
      exists_row (\<lambda>r. py_provider r = ''stripe'' \<and> py_ref r = Some pay) t" for t
    by (auto simp: list_ex_iff)
  have inv: "exists_row (\<lambda>r. iv_id r = iv_id v) (invoices ?b)" using v by (auto simp: list_ex_iff)
  have "insert_card_payment ?p (iv_id v) ?b = Inr ?b1"
    unfolding insert_card_payment_def insert_payment_def p ref using fresh inv by simp
  moreover have "settle_invoice D num E now (cf_invoice fr) (Some y) s ?b = (Inr (iv_id v), ?b)"
    by (simp add: settle_invoice_def ids)
  ultimately show thesis
    using ids first_row_unique [OF s(2,1)]
    by (intro that [of ?b1]) (auto simp: settle_card_def Let_def set_billing_def p list_ex_iff)
qed

text \<open>
  Without an invoice in the event, a subscription that has none for its period is never settled: the insert
  of the invoice waits for the lock the settlement itself holds.
\<close>

lemma settle_invoice_blocked:
  assumes "\<not> exists_row (\<lambda>v. iv_subscription v = su_id s) (invoices b)"
  shows "\<exists>e. fst (settle_invoice D num E now iid None s b) = Inl e"
proof (cases rule: generate_cases [of D num now iid "su_id s" "su_user s"
      "\<lparr>opt_start = None, opt_end = None, opt_markPaid = True, opt_paymentId = None\<rparr>" b])
  case (existing i)
  with assms show ?thesis by (auto simp: list_ex_iff)
next
  case (insert s' p price pstart pend)
  then show ?thesis by (auto simp: settle_invoice_def insert_invoice_def nextInvoiceNumber_def Let_def list_ex_iff split: if_splits)
qed (simp add: settle_invoice_def)

section \<open>Properties\<close>

definition example_card_env :: card_env where
  "example_card_env = \<lparr>ce_secret = Some ''k'', ce_hmac = (\<lambda>k m. k @ m),
     ce_parse = (\<lambda>t. if t = ''paid'' then Some \<lparr>evt_type = Some ''checkout.session.completed'', evt_id = Some ''evt1'',
       evt_payment_status = Some ''paid'', evt_client_ref = Some ''sub'', evt_meta_subscription = None, evt_meta_invoice = Some ''inv'',
       evt_payment_intent = Some ''pi1'', evt_object_id = Some ''cs1'', evt_data_subscription = None\<rparr> else None),
     ce_uuid = (\<lambda>t. if t = ''sub'' then Some 40 else if t = ''inv'' then Some 50 else None)\<rparr>"

definition example_invoice :: invoice_row where
  "example_invoice = new_invoice dec20 0 50 ''PAT-INV-000000'' example_subscription example_plan 0 (days 30) 299 0 False"

definition example_card_db :: card_db where
  "example_card_db = \<lparr>cd_pay = example_payments\<lparr>pd_billing := (pd_billing example_payments)
     \<lparr>invoices := [example_invoice], payments := [pending_payment ''stripe'' 1 60 20 40 50 ''cs1'' 299]\<rparr>\<rparr>, cd_events = []\<rparr>"

definition example_card_delivery :: card_delivery where
  "example_card_delivery = \<lparr>ca_now = 5, ca_fresh = \<lparr>cf_invoice = 70, cf_payment = 71, cf_license = 72, cf_key = ''k''\<rparr>,
     ca_fault = False, ca_raw = ''paid'', ca_sig = Some ''t=1,v1=k1.paid''\<rparr>"

text \<open>
  C17. A subscription is touched by a card webhook only if it is charged: when, after any sequence of deliveries,
  its row is no longer the same, then one of them was signed with the configured secret and carried a
  paid event that names this subscription.
\<close>

theorem card_charges_only:
  assumes "filter (\<lambda>s. su_id s = sid) (subscriptions (cd_billing (run_requests (exec_card D num cal E) ds db))) \<noteq>
    filter (\<lambda>s. su_id s = sid) (subscriptions (cd_billing db))"
  shows "\<exists>d\<in>set ds. card_secret E \<noteq> [] \<and> (\<exists>t e x v1. card_signature E (ca_raw d) (ca_sig d) = Some t \<and>
    snd (signature_parts (coalesce_text (ca_sig d) [])) = Some v1 \<and> v1 = ce_hmac E (card_secret E) (t @ ''.'' @ ca_raw d) \<and>
    ce_parse E (ca_raw d) = Some e \<and> evt_type e \<in> Some ` set card_paid_events \<and>
    event_subscription e = Some x \<and> ce_uuid E x = Some sid \<and>
    (evt_type e = Some ''checkout.session.completed'' \<longrightarrow> evt_payment_status e = Some ''paid''))"
proof -
  obtain d where d: "d \<in> set ds" "charges E sid d"
    using assms card_accounts.run_sel_leq [of ds E sid db D num cal] by (auto simp: same_account_def)
  then obtain t e x where te: "card_secret E \<noteq> []" "card_signature E (ca_raw d) (ca_sig d) = Some t" "ce_parse E (ca_raw d) = Some e"
    "event_paid e" "event_subscription e = Some x" "ce_uuid E x = Some sid"
    by (auto simp: charges_def)
  have "\<exists>v1. snd (signature_parts (coalesce_text (ca_sig d) [])) = Some v1 \<and> v1 = ce_hmac E (card_secret E) (t @ ''.'' @ ca_raw d)"
    using te(2) by (auto simp: card_signature_def or_null_def coalesce_text_def split: option.splits if_splits)
  moreover have "evt_type e \<in> Some ` set card_paid_events \<and>
      (evt_type e = Some ''checkout.session.completed'' \<longrightarrow> evt_payment_status e = Some ''paid'')"
    using te(4) by (auto simp: event_paid_def card_event_type_def coalesce_text_def card_paid_events_def split: option.splits)
  ultimately show ?thesis using d(1) te by blast
qed

theorem card_charges_only_witness:
  "\<exists>d\<in>set [example_card_delivery]. \<exists>e. ce_parse example_card_env (ca_raw d) = Some e \<and> evt_type e \<in> Some ` set card_paid_events"
proof -
  have "map su_status (filter (\<lambda>s. su_id s = 40) (subscriptions (cd_billing (run_requests
      (exec_card dec20 (\<lambda>x. x) example_month example_card_env) [example_card_delivery] example_card_db)))) = [S_ACTIVE]"
    "map su_status (filter (\<lambda>s. su_id s = 40) (subscriptions (cd_billing example_card_db))) = [S_INCOMPLETE]"
    by code_simp+
  then have "filter (\<lambda>s. su_id s = 40) (subscriptions (cd_billing (run_requests
      (exec_card dec20 (\<lambda>x. x) example_month example_card_env) [example_card_delivery] example_card_db))) \<noteq>
    filter (\<lambda>s. su_id s = 40) (subscriptions (cd_billing example_card_db))" by (metis list.inject subscription_status.distinct(3))
  from card_charges_only [OF this] show ?thesis by blast
qed



end
