(* ===== verification/DeviceAuth.thy ===== *)
theory DeviceAuth
  imports LicenseTables Codecs
begin

text \<open>
  The device authentication service, \<^verbatim>\<open>control/src/modules/device-auth/device-auth.service.ts\<close>: the
  activation of a terminal against a license key with the weighted fingerprint match, the rotation of
  refresh tokens with reuse detection, the session lease and its heartbeat, the revocation of a device
  and the verification of signed requests with replay protection; and the pruning procedure of
  \<^verbatim>\<open>database/migrations/152_client_telemetry.sql\<close> that runs beside them. Random values
  (\<^verbatim>\<open>randomUUID\<close>, \<^verbatim>\<open>randomBytes\<close>) are an argument, \<open>fresh\<close>; the primary keys and unique columns
  whose violation the code could meet are checked where the row is inserted.
\<close>

section \<open>Requests and responses\<close>

record fingerprint =
  fp_machine_guid :: "string option"
  fp_system_uuid :: "string option"
  fp_motherboard :: "string option"
  fp_disk :: "string option"
  fp_installation_id :: "string option"
  fp_os :: "string option"

record terminal_info =
  ti_build :: "string option"
  ti_name :: "string option"
  ti_ea_version :: "string option"

record mt_info =
  mi_broker :: "string option"
  mi_server :: "string option"
  mi_login :: "string option"

record activation_request =
  aq_license_key :: string
  aq_client_type :: string
  aq_role :: "string option"
  aq_fingerprint :: fingerprint
  aq_terminal :: "terminal_info option"
  aq_mt :: "mt_info option"

record activation_response =
  ar_device :: uuid
  ar_session :: uuid
  ar_secret :: string
  ar_refresh :: string
  ar_access :: string
  ar_expires_in :: nat
  ar_family :: uuid
  ar_ws :: string
  ar_score :: "nat option"

record refresh_response =
  rr_access :: string
  rr_refresh :: string
  rr_expires_in :: nat
  rr_ws :: string

record heartbeat_response =
  hr_connection :: string
  hr_auth :: string
  hr_license :: string
  hr_device :: string
  hr_session :: string
  hr_trading :: string
  hr_server_time :: time
  hr_lease_expires_in :: nat

text \<open>A terminal of the heartbeat body; \<open>tm_balance\<close> tells an absent field from a \<^verbatim>\<open>null\<close>.\<close>

record xau_info =
  xa_available :: bool
  xa_bid :: "rat option"
  xa_ask :: "rat option"
  xa_spread :: "rat option"
  xa_tick :: "string option"

record terminal_report =
  tm_account :: "string option"
  tm_balance :: "rat option option"
  tm_equity :: "rat option"
  tm_profit :: "rat option"
  tm_open :: "rat option"
  tm_buy :: "rat option"
  tm_sell :: "rat option"
  tm_lots :: "rat option"
  tm_pnl :: "rat option"
  tm_connected :: "bool option"
  tm_version :: "string option"
  tm_xau :: "xau_info option"
  tm_currency :: "string option"
  tm_leverage :: "rat option"
  tm_margin :: "rat option"
  tm_free_margin :: "rat option"
  tm_margin_level :: "rat option"
  tm_type :: "string option"
  tm_pending :: "rat option"

record heartbeat_body =
  hb_terminals :: "terminal_report list"
  hb_agent_version :: "string option"
  hb_os_name :: "string option"
  hb_architecture :: "string option"
  hb_uptime :: "rat option"
  hb_service :: "string option"
  hb_health :: "string option"
  hb_hostname :: "string option"
  hb_started_at :: "string option"
  hb_trading_mode :: "string option"

record signed_request =
  sp_device :: uuid
  sp_method :: string
  sp_path :: string
  sp_body_hash :: string
  sp_timestamp :: string
  sp_nonce :: string
  sp_signature :: string
  sp_version :: "string option"

datatype verdict = Valid | Invalid string

text \<open>The configuration: the primitives and the secret \<^verbatim>\<open>JWT_SECRET\<close> when it is set.\<close>

record device_env = crypto_ops +
  env_jwt_secret :: "string option"

text \<open>The random values one call draws, in the order of the code.\<close>

record fresh =
  fr_device :: uuid
  fr_installation :: uuid
  fr_secret :: string
  fr_family :: uuid
  fr_iv :: string
  fr_credential :: uuid
  fr_refresh :: string
  fr_refresh_id :: uuid
  fr_session :: uuid
  fr_lease :: uuid
  fr_activation :: uuid

section \<open>Hashing, encryption, matching\<close>

definition DEV_JWT_SECRET :: string where
  "DEV_JWT_SECRET = ''pat_local_dev_secret_change_in_production''"

definition jwtSecret :: "device_env \<Rightarrow> string" where
  "jwtSecret E = or_string (env_jwt_secret E) DEV_JWT_SECRET"

definition FINGERPRINT_WEIGHTS :: "(string \<times> nat) list" where
  "FINGERPRINT_WEIGHTS =
     [(''machine_guid'', 25), (''system_uuid'', 25), (''motherboard'', 20), (''installation_id'', 20), (''disk'', 10)]"

definition MATCH_THRESHOLD :: nat where
  "MATCH_THRESHOLD = 75"

definition component_names :: "string list" where
  "component_names = [''machine_guid'', ''system_uuid'', ''motherboard'', ''disk'', ''installation_id'']"

text \<open>\<^verbatim>\<open>fp[name]\<close> where it is used as a condition: an empty string is falsy.\<close>

definition fp_component :: "fingerprint \<Rightarrow> string \<Rightarrow> string option" where
  "fp_component fp c = or_null
     (if c = ''machine_guid'' then fp_machine_guid fp
      else if c = ''system_uuid'' then fp_system_uuid fp
      else if c = ''motherboard'' then fp_motherboard fp
      else if c = ''disk'' then fp_disk fp
      else if c = ''installation_id'' then fp_installation_id fp else None)"

definition hashComponent :: "device_env \<Rightarrow> string \<Rightarrow> string" where
  "hashComponent E v = k_hmac_hex E (jwtSecret E) v"

definition hashSecret :: "device_env \<Rightarrow> string \<Rightarrow> string" where
  "hashSecret E s = k_sha_hex E s"

definition hashFingerprintComponents :: "device_env \<Rightarrow> fingerprint \<Rightarrow> fingerprint_components" where
  "hashFingerprintComponents E fp =
     List.map_filter (\<lambda>c. map_option (\<lambda>v. (c, hashComponent E v)) (fp_component fp c)) component_names"

definition computeFingerprintHash :: "device_env \<Rightarrow> fingerprint \<Rightarrow> string" where
  "computeFingerprintHash E fp = k_sha_hex E (js_join ''|''
     (map (\<lambda>c. case fp_component fp c of Some v \<Rightarrow> hashComponent E v | None \<Rightarrow> []) component_names))"

text \<open>The loop of \<^verbatim>\<open>computeMatchScore\<close>: the matched and the present weight.\<close>

fun match_weights :: "device_env \<Rightarrow> fingerprint \<Rightarrow> fingerprint_components \<Rightarrow> (string \<times> nat) list \<Rightarrow> nat \<times> nat" where
  "match_weights E fp stored [] = (0, 0)"
| "match_weights E fp stored ((c, w) # rest) =
     (let (m, p) = match_weights E fp stored rest in
      case or_null (map_of stored c) of
        None \<Rightarrow> (m, p)
      | Some v \<Rightarrow>
          (case or_null (map_option (hashComponent E) (fp_component fp c)) of
             Some nv \<Rightarrow> (if nv = v then m + w else m, p + w)
           | None \<Rightarrow> (m, p + w)))"

text \<open>
  \<^verbatim>\<open>Math.round(m / p * 100)\<close>. The sums that a half comes from (\<open>10\<close>, \<open>50\<close>, \<open>70\<close> of \<open>80\<close>) are exact
  in binary, so the rounding of the double is that of the rational.
\<close>

definition computeMatchScore :: "device_env \<Rightarrow> fingerprint \<Rightarrow> fingerprint_components \<Rightarrow> nat" where
  "computeMatchScore E fp stored =
     (let (m, p) = match_weights E fp stored FINGERPRINT_WEIGHTS in
      if p = 0 then 0 else (200 * m + p) div (2 * p))"

definition getEncryptionKey :: "device_env \<Rightarrow> string" where
  "getEncryptionKey E = k_sha_raw E (jwtSecret E @ '':device_secret_encryption'')"

definition encryptSecret :: "device_env \<Rightarrow> string \<Rightarrow> string \<Rightarrow> string" where
  "encryptSecret E iv plain =
     (let (cipher, tag) = k_aes_enc E (getEncryptionKey E) iv plain in
      b64_encode iv @ '':'' @ b64_encode tag @ '':'' @ b64_encode cipher)"

definition decryptSecret :: "device_env \<Rightarrow> string \<Rightarrow> string option" where
  "decryptSecret E text =
     (case js_split CHR '':'' text of
        [a, b, c] \<Rightarrow> k_aes_dec E (getEncryptionKey E) (b64_decode a) (b64_decode b) (b64_decode c)
      | _ \<Rightarrow> None)"

definition mintWsToken :: "device_env \<Rightarrow> time \<Rightarrow> uuid \<Rightarrow> string option \<Rightarrow> uuid option \<Rightarrow> uuid option \<Rightarrow> string" where
  "mintWsToken E now d role sid lic = k_jwt E
     ([(''sub'', k_uuid E d), (''typ'', ''agent-ws'')] @
      (case role of Some r \<Rightarrow> [(''role'', r)] | None \<Rightarrow> []) @
      (case sid of Some s \<Rightarrow> [(''sid'', k_uuid E s)] | None \<Rightarrow> []) @
      (case lic of Some l \<Rightarrow> [(''lic'', k_uuid E l)] | None \<Rightarrow> [])) ''24h'' now"

section \<open>Activation\<close>

text \<open>The status checks on the license row; \<open>Some\<close> is the message of the exception.\<close>

definition license_gate :: "time \<Rightarrow> license_row \<Rightarrow> string option" where
  "license_gate now l =
     (if lc_status l = L_REVOKED then Some ''License revoked''
      else if lc_status l = L_SUSPENDED then Some ''License suspended''
      else if lc_status l = L_EXPIRED \<or> (case lc_expires_at l of Some t \<Rightarrow> t < now | None \<Rightarrow> False)
        then Some ''License expired''
      else if lc_status l \<noteq> L_ACTIVE \<and> lc_status l \<noteq> L_PENDING
        then Some (''License status: '' @ license_status_text (lc_status l))
      else None)"

abbreviation bound_to :: "uuid \<Rightarrow> device_row \<Rightarrow> bool" where
  "bound_to lid d \<equiv> dv_license d = Some lid \<and> dv_revoked_at d = None"

definition new_device :: "device_env \<Rightarrow> time \<Rightarrow> fresh \<Rightarrow> activation_request \<Rightarrow> license_row \<Rightarrow> device_row" where
  "new_device E now fr q l = (blank_device (fr_device fr) (lc_user l) now)
     \<lparr>dv_license := Some (lc_id l),
      dv_installation := Some (or_string (fp_installation_id (aq_fingerprint q)) (k_uuid E (fr_installation fr))),
      dv_fp_hash := Some (computeFingerprintHash E (aq_fingerprint q)),
      dv_components := hashFingerprintComponents E (aq_fingerprint q),
      dv_name := or_string (Option.bind (aq_terminal q) ti_name) (aq_client_type q @ '' Terminal''),
      dv_windows := or_string (fp_os (aq_fingerprint q)) ''Windows'',
      dv_role := aq_role q, dv_status := ''ONLINE'', dv_last_activation := Some now, dv_last_seen := Some now\<rparr>"

definition bindNewDevice ::
  "device_env \<Rightarrow> time \<Rightarrow> fresh \<Rightarrow> activation_request \<Rightarrow> license_row \<Rightarrow> license_db \<Rightarrow> (uuid \<times> bool \<times> license_db) result" where
  "bindNewDevice E now fr q l db =
     (if exists_row (\<lambda>d. dv_id d = fr_device fr) (devices db) then Inl (SqlError ''23505'')
      else Inr (fr_device fr, True,
        db\<lparr>devices := devices db @ [new_device E now fr q l],
           licenses := update_rows (\<lambda>r. lc_id r = lc_id l)
             (\<lambda>r. r\<lparr>lc_status := L_ACTIVE, lc_updated_at := now\<rparr>) (licenses db)\<rparr>))"

text \<open>The loop over the bound devices, with the best score so far (\<open>-1\<close> at the start).\<close>

fun best_match :: "(device_row \<Rightarrow> nat) \<Rightarrow> device_row option \<Rightarrow> int \<Rightarrow> device_row list \<Rightarrow> device_row option \<times> int" where
  "best_match score m best [] = (m, best)"
| "best_match score m best (d # ds) =
     (if int (score d) > best then best_match score (Some d) (int (score d)) ds
      else best_match score m best ds)"

text \<open>\<^verbatim>\<open>Number(license.max_devices) || 1\<close>.\<close>

definition device_slots :: "license_row \<Rightarrow> int" where
  "device_slots l = (if lc_max_devices l = 0 then 1 else lc_max_devices l)"

definition bind_device ::
  "device_env \<Rightarrow> time \<Rightarrow> fresh \<Rightarrow> activation_request \<Rightarrow> license_row \<Rightarrow> license_db \<Rightarrow> (uuid \<times> bool \<times> license_db) result" where
  "bind_device E now fr q l db =
     (let existing = filter (bound_to (lc_id l)) (devices db) in
      if existing = [] then bindNewDevice E now fr q l db
      else
        (case best_match (\<lambda>d. computeMatchScore E (aq_fingerprint q) (dv_components d)) None (-1) existing of
           (Some d, best) \<Rightarrow>
             if best \<ge> int MATCH_THRESHOLD then
               Inr (dv_id d, False, db\<lparr>devices := update_rows (\<lambda>r. dv_id r = dv_id d)
                 (\<lambda>r. r\<lparr>dv_last_seen := Some now, dv_last_activation := Some now, dv_role := aq_role q,
                        dv_updated_at := now\<rparr>) (devices db)\<rparr>)
             else if int (length existing) < device_slots l then bindNewDevice E now fr q l db
             else Inl (Conflict ''DEVICE_LIMIT_EXCEEDED'')
         | (None, best) \<Rightarrow>
             if int (length existing) < device_slots l then bindNewDevice E now fr q l db
             else Inl (Conflict ''DEVICE_LIMIT_EXCEEDED'')))"

text \<open>Credentials: the old ones of the device are revoked, the new secret is stored encrypted.\<close>

definition rotate_credential :: "device_env \<Rightarrow> time \<Rightarrow> fresh \<Rightarrow> uuid \<Rightarrow> license_db \<Rightarrow> license_db result" where
  "rotate_credential E now fr d db =
     (let old = update_rows (\<lambda>c. cr_device c = d \<and> cr_revoked_at c = None)
            (\<lambda>c. c\<lparr>cr_revoked_at := Some now, cr_reason := Some '' superseded''\<rparr>) (credentials db);
          stored = encryptSecret E (fr_iv fr) (fr_secret fr) in
      if exists_row (\<lambda>c. cr_hash c = stored) old then Inl (SqlError ''23505'')
      else Inr (db\<lparr>credentials := old @
        [\<lparr>cr_id = fr_credential fr, cr_device = d, cr_hash = stored, cr_family = fr_family fr, cr_issued_at = now,
          cr_expires_at = Some (now + days 30), cr_revoked_at = None, cr_reason = None\<rparr>]\<rparr>))"

definition insert_refresh :: "device_env \<Rightarrow> time \<Rightarrow> fresh \<Rightarrow> uuid \<Rightarrow> uuid \<Rightarrow> license_db \<Rightarrow> license_db result" where
  "insert_refresh E now fr d family db =
     (let h = hashSecret E (fr_refresh fr) in
      if exists_row (\<lambda>t. rt_hash t = h) (refresh_tokens db) then Inl (SqlError ''23505'')
      else Inr (db\<lparr>refresh_tokens := refresh_tokens db @
        [\<lparr>rt_id = fr_refresh_id fr, rt_device = d, rt_hash = h, rt_family = family, rt_issued_at = now,
          rt_expires_at = now + days 30, rt_used_at = None, rt_revoked_at = None, rt_reason = None\<rparr>]\<rparr>))"

text \<open>The sessions of the license are superseded by one new lease of 45 seconds.\<close>

definition open_lease :: "time \<Rightarrow> fresh \<Rightarrow> uuid \<Rightarrow> uuid \<Rightarrow> string option \<Rightarrow> license_db \<Rightarrow> license_db result" where
  "open_lease now fr lid d ip db =
     (let old = update_rows (\<lambda>s. sl_license s = lid \<and> sl_status s = LS_ACTIVE)
            (\<lambda>s. s\<lparr>sl_status := LS_EXPIRED, sl_revoked_at := Some now,
                   sl_reason := Some ''superseded by new activation''\<rparr>) (leases db) in
      if exists_row (\<lambda>s. sl_id s = fr_lease fr) old then Inl (SqlError ''23505'')
      else Inr (db\<lparr>leases := old @
        [\<lparr>sl_id = fr_lease fr, sl_license = lid, sl_device = d, sl_session = fr_session fr, sl_status = LS_ACTIVE,
          sl_heartbeat_at = now, sl_expires_at = now + seconds 45, sl_ip = ip, sl_revoked_at = None,
          sl_reason = None\<rparr>]\<rparr>))"

text \<open>
  The activation record: \<^verbatim>\<open>ON CONFLICT (license_id, mt_account_login)\<close> with the predicate of the
  partial unique index, so that only a non-empty login conflicts.
\<close>

definition same_account :: "uuid \<Rightarrow> string option \<Rightarrow> activation_row \<Rightarrow> bool" where
  "same_account lid login a \<longleftrightarrow> da_license a = lid \<and> da_login a = login \<and> login \<noteq> None \<and> login \<noteq> Some []"

definition record_activation ::
  "device_env \<Rightarrow> time \<Rightarrow> fresh \<Rightarrow> activation_request \<Rightarrow> string option \<Rightarrow> uuid \<Rightarrow> uuid \<Rightarrow> license_db \<Rightarrow> license_db" where
  "record_activation E now fr q ip lid d db =
     (let login = Option.bind (aq_mt q) mi_login;
          excluded = \<lparr>da_id = fr_activation fr, da_license = lid, da_device = d, da_client = aq_client_type q,
            da_build = Option.bind (aq_terminal q) ti_build, da_ea = Option.bind (aq_terminal q) ti_ea_version,
            da_broker = Option.bind (aq_mt q) mi_broker, da_server = Option.bind (aq_mt q) mi_server, da_login = login,
            da_installation = fp_installation_id (aq_fingerprint q),
            da_fp_hash = Some (computeFingerprintHash E (aq_fingerprint q)),
            da_components = hashFingerprintComponents E (aq_fingerprint q), da_ip = ip, da_activated_at = now,
            da_created_at = now, da_deactivated_at = None, da_account = no_account\<rparr> in
      db\<lparr>activations :=
        (if exists_row (same_account lid login) (activations db)
         then update_rows (same_account lid login)
           (\<lambda>a. excluded\<lparr>da_id := da_id a, da_created_at := da_created_at a, da_account := da_account a\<rparr>) (activations db)
         else activations db @ [excluded])\<rparr>)"

definition issue_session ::
  "device_env \<Rightarrow> time \<Rightarrow> fresh \<Rightarrow> activation_request \<Rightarrow> string option \<Rightarrow> license_row \<Rightarrow> uuid \<Rightarrow> bool \<Rightarrow> license_db \<Rightarrow>
   activation_response result \<times> license_db" where
  "issue_session E now fr q ip l d isNew db =
     (case rotate_credential E now fr d db of
        Inl e \<Rightarrow> (Inl e, db)
      | Inr db1 \<Rightarrow>
          (case insert_refresh E now fr d (fr_family fr) db1 of
             Inl e \<Rightarrow> (Inl e, db)
           | Inr db2 \<Rightarrow>
               (case open_lease now fr (lc_id l) d ip db2 of
                  Inl e \<Rightarrow> (Inl e, db)
                | Inr db3 \<Rightarrow>
                    (let db4 = record_activation E now fr q ip (lc_id l) d db3;
                         db5 = db4\<lparr>license_events := license_events db4 @
                           [\<lparr>le_license = lc_id l, le_type = ''ACTIVATED'',
                             le_reason = Some (if isNew then ''First device activation'' else ''Device re-activation''),
                             le_device = Some d, le_created_at = now\<rparr>]\<rparr>;
                         tok = mintWsToken E now d (aq_role q) (Some (fr_session fr)) (Some (lc_id l)) in
                     (Inr \<lparr>ar_device = d, ar_session = fr_session fr, ar_secret = fr_secret fr,
                        ar_refresh = fr_refresh fr, ar_access = tok, ar_expires_in = 600, ar_family = fr_family fr,
                        ar_ws = tok, ar_score = (if isNew then Some 100 else None)\<rparr>, db5)))))"

definition activate :: "device_env \<Rightarrow> time \<Rightarrow> fresh \<Rightarrow> activation_request \<Rightarrow> string option \<Rightarrow> (license_db, activation_response) handler" where
  "activate E now fr q ip = transaction (\<lambda>db.
     case first_row (\<lambda>l. lc_key l = Some (aq_license_key q)) (licenses db) of
       None \<Rightarrow> (Inl (NotFound ''License not found''), db)
     | Some l \<Rightarrow>
         (case license_gate now l of
            Some msg \<Rightarrow> (Inl (Unauthorized msg), db)
          | None \<Rightarrow>
              (case bind_device E now fr q l db of
                 Inl e \<Rightarrow> (Inl e, db)
               | Inr (d, isNew, db1) \<Rightarrow> issue_session E now fr q ip l d isNew db1)))"

section \<open>Refresh\<close>

definition revoke_family :: "time \<Rightarrow> refresh_row \<Rightarrow> license_db \<Rightarrow> license_db" where
  "revoke_family now t db = db
     \<lparr>refresh_tokens := update_rows (\<lambda>r. rt_family r = rt_family t \<and> rt_revoked_at r = None)
        (\<lambda>r. r\<lparr>rt_revoked_at := Some now, rt_reason := Some ''reuse detected''\<rparr>) (refresh_tokens db),
      credentials := update_rows (\<lambda>c. cr_family c = rt_family t \<and> cr_revoked_at c = None)
        (\<lambda>c. c\<lparr>cr_revoked_at := Some now, cr_reason := Some ''refresh reuse''\<rparr>) (credentials db),
      leases := update_rows (\<lambda>s. sl_device s = rt_device t \<and> sl_status s = LS_ACTIVE)
        (\<lambda>s. s\<lparr>sl_status := LS_REVOKED, sl_revoked_at := Some now, sl_reason := Some ''refresh reuse''\<rparr>) (leases db)\<rparr>"

definition device_role :: "license_db \<Rightarrow> uuid \<Rightarrow> string" where
  "device_role db d =
     (case first_row (\<lambda>r. dv_id r = d) (devices db) of
        Some r \<Rightarrow> if dv_role r = Some ''data'' then ''data'' else ''exec''
      | None \<Rightarrow> ''exec'')"

text \<open>
  A reused token commits the revocation of its family before the exception, so that branch returns
  the changed database; every other exception rolls back.
\<close>

definition refresh :: "device_env \<Rightarrow> time \<Rightarrow> fresh \<Rightarrow> string \<Rightarrow> uuid option \<Rightarrow> (license_db, refresh_response) handler" where
  "refresh E now fr token dev db =
     (case first_row (\<lambda>t. rt_hash t = hashSecret E token) (refresh_tokens db) of
        None \<Rightarrow> (Inl (Unauthorized ''Invalid refresh token''), db)
      | Some t \<Rightarrow>
          if rt_used_at t \<noteq> None \<or> rt_revoked_at t \<noteq> None then
            (Inl (Unauthorized ''Session invalidated due to token reuse''), revoke_family now t db)
          else if rt_expires_at t < now then (Inl (Unauthorized ''Refresh token expired''), db)
          else if dev \<noteq> None \<and> dev \<noteq> Some (rt_device t) then (Inl (Unauthorized ''Device mismatch''), db)
          else
            (let db1 = db\<lparr>refresh_tokens :=
                   update_rows (\<lambda>r. rt_id r = rt_id t) (\<lambda>r. r\<lparr>rt_used_at := Some now\<rparr>) (refresh_tokens db)\<rparr> in
             case insert_refresh E now fr (rt_device t) (rt_family t) db1 of
               Inl e \<Rightarrow> (Inl e, db)
             | Inr db2 \<Rightarrow>
                 (let tok = mintWsToken E now (rt_device t) (Some (device_role db2 (rt_device t))) None None in
                  (Inr \<lparr>rr_access = tok, rr_refresh = fr_refresh fr, rr_expires_in = 600, rr_ws = tok\<rparr>,
                   db2\<lparr>leases := update_rows (\<lambda>s. sl_device s = rt_device t \<and> sl_status s = LS_ACTIVE)
                          (\<lambda>s. s\<lparr>sl_heartbeat_at := now, sl_expires_at := now + seconds 45\<rparr>) (leases db2),
                       devices := update_rows (\<lambda>d. dv_id d = rt_device t \<and> dv_deleted_at d = None)
                          (\<lambda>d. d\<lparr>dv_status := ''ONLINE'', dv_last_seen := Some now, dv_updated_at := now\<rparr>)
                          (devices db2)\<rparr>))))"

section \<open>Heartbeat, revocation, queries\<close>

definition report_account :: "time \<Rightarrow> terminal_report \<Rightarrow> account_state \<Rightarrow> account_state" where
  "report_account now t a =
     (let xau = (case tm_xau t of Some x \<Rightarrow> if xa_available x then Some x else None | None \<Rightarrow> None) in
      \<lparr>ac_balance = Some (or_zero (Option.bind (tm_balance t) (\<lambda>b. b))), ac_equity = Some (or_zero (tm_equity t)),
       ac_profit = Some (or_zero (tm_profit t)), ac_open = Some (or_zero (tm_open t)),
       ac_buy = Some (or_zero (tm_buy t)), ac_sell = Some (or_zero (tm_sell t)), ac_lots = Some (or_zero (tm_lots t)),
       ac_pnl = Some (or_zero (tm_pnl t)), ac_updated = Some now, ac_connected = (tm_connected t \<noteq> Some False),
       ac_version = or_null (tm_version t), ac_xau = (xau \<noteq> None),
       ac_bid = Option.bind xau xa_bid, ac_ask = Option.bind xau xa_ask, ac_spread = Option.bind xau xa_spread,
       ac_tick = or_null (Option.bind xau xa_tick),
       ac_currency = coalesce (or_null (tm_currency t)) (ac_currency a),
       ac_leverage = coalesce (tm_leverage t) (ac_leverage a), ac_margin = coalesce (tm_margin t) (ac_margin a),
       ac_free_margin = coalesce (tm_free_margin t) (ac_free_margin a),
       ac_margin_level = coalesce (tm_margin_level t) (ac_margin_level a),
       ac_type = coalesce (or_null (tm_type t)) (ac_type a), ac_pending = coalesce (tm_pending t) (ac_pending a)\<rparr>)"

definition report_terminal :: "time \<Rightarrow> uuid \<Rightarrow> terminal_report \<Rightarrow> activation_row list \<Rightarrow> activation_row list" where
  "report_terminal now d t acts =
     (case or_null (tm_account t) of
        Some login \<Rightarrow>
          if tm_balance t \<noteq> None
          then update_rows (\<lambda>a. da_device a = d \<and> da_login a = Some login)
                 (\<lambda>a. a\<lparr>da_account := report_account now t (da_account a)\<rparr>) acts
          else acts
      | None \<Rightarrow> acts)"

definition report_metadata :: "time \<Rightarrow> heartbeat_body \<Rightarrow> device_row \<Rightarrow> device_row" where
  "report_metadata now b d = d
     \<lparr>dv_agent_version := coalesce (or_null (hb_agent_version b)) (dv_agent_version d),
      dv_os_name := coalesce (or_null (hb_os_name b)) (dv_os_name d),
      dv_architecture := coalesce (or_null (hb_architecture b)) (dv_architecture d),
      dv_uptime := hb_uptime b,
      dv_service := coalesce_text (or_null (hb_service b)) (dv_service d),
      dv_health := coalesce_text (or_null (hb_health b)) (dv_health d),
      dv_hostname := coalesce (or_null (hb_hostname b)) (dv_hostname d),
      dv_started_at := coalesce (or_null (hb_started_at b)) (dv_started_at d),
      dv_updated_at := now\<rparr>"

definition heartbeat :: "time \<Rightarrow> uuid \<Rightarrow> uuid \<Rightarrow> heartbeat_body \<Rightarrow> string option \<Rightarrow> (license_db, heartbeat_response) handler" where
  "heartbeat now d sid b ip = transaction (\<lambda>db.
     case first_row (\<lambda>s. sl_device s = d \<and> sl_session s = sid \<and> exists_row (\<lambda>l. lc_id l = sl_license s) (licenses db))
            (leases db) of
       None \<Rightarrow> (Inl (Unauthorized ''Session not found''), db)
     | Some s \<Rightarrow>
         (let db1 = db
                \<lparr>activations := fold (report_terminal now d) (hb_terminals b) (activations db),
                 devices := update_rows (\<lambda>r. dv_id r = d) (report_metadata now b) (devices db)\<rparr> in
          if sl_status s = LS_REVOKED then (Inl (Unauthorized ''Session revoked''), db1)
          else
            (Inr \<lparr>hr_connection = ''ONLINE'', hr_auth = ''AUTHENTICATED'',
               hr_license = (case first_row (\<lambda>l. lc_id l = sl_license s) (licenses db) of
                 Some l \<Rightarrow> license_status_text (lc_status l) | None \<Rightarrow> ''ACTIVE''),
               hr_device = ''AUTHORIZED'', hr_session = ''ACTIVE'',
               hr_trading = or_string (hb_trading_mode b) ''UNKNOWN'', hr_server_time = now, hr_lease_expires_in = 45\<rparr>,
             db1\<lparr>leases := update_rows (\<lambda>r. sl_id r = sl_id s)
                    (\<lambda>r. r\<lparr>sl_heartbeat_at := now, sl_expires_at := now + seconds 45, sl_status := LS_ACTIVE,
                           sl_ip := ip\<rparr>) (leases db1),
                 devices := update_rows (\<lambda>r. dv_id r = d)
                    (\<lambda>r. r\<lparr>dv_last_seen := Some now, dv_status := ''ONLINE''\<rparr>) (devices db1)\<rparr>)))"

definition revokeDevice :: "time \<Rightarrow> uuid \<Rightarrow> string \<Rightarrow> license_db \<Rightarrow> license_db" where
  "revokeDevice now d reason db = db
     \<lparr>devices := update_rows (\<lambda>r. dv_id r = d)
        (\<lambda>r. r\<lparr>dv_revoked_at := Some now, dv_reason := Some reason, dv_status := ''OFFLINE''\<rparr>) (devices db),
      leases := update_rows (\<lambda>s. sl_device s = d \<and> sl_status s = LS_ACTIVE)
        (\<lambda>s. s\<lparr>sl_status := LS_REVOKED, sl_revoked_at := Some now, sl_reason := Some reason\<rparr>) (leases db),
      credentials := update_rows (\<lambda>c. cr_device c = d \<and> cr_revoked_at c = None)
        (\<lambda>c. c\<lparr>cr_revoked_at := Some now, cr_reason := Some reason\<rparr>) (credentials db)\<rparr>"

definition getDeviceDetails :: "uuid \<Rightarrow> license_db \<Rightarrow> (device_row \<times> lease_row option \<times> license_row option) result" where
  "getDeviceDetails d db =
     (case first_row (\<lambda>r. dv_id r = d) (devices db) of
        None \<Rightarrow> Inl (NotFound ''Device not found'')
      | Some r \<Rightarrow> Inr (r, first_row (\<lambda>s. sl_device s = d \<and> sl_status s = LS_ACTIVE) (leases db),
          Option.bind (dv_license r) (\<lambda>l. first_row (\<lambda>x. lc_id x = l) (licenses db))))"

definition listActiveSessions :: "license_db \<Rightarrow> (lease_row \<times> device_row \<times> license_row) list" where
  "listActiveSessions db = sort_key (\<lambda>(s, d, l). - sl_heartbeat_at s)
     [(s, d, l). s \<leftarrow> leases db, sl_status s = LS_ACTIVE, d \<leftarrow> devices db, dv_id d = sl_device s,
        l \<leftarrow> licenses db, lc_id l = sl_license s, lc_user l \<in> set (license_users db)]"

section \<open>Signed requests\<close>

definition clockSkewSeconds :: int where
  "clockSkewSeconds = 30"

definition canonical_request :: "device_env \<Rightarrow> signed_request \<Rightarrow> string" where
  "canonical_request E p = js_join [CHR 0x0A]
     [or_string (sp_version p) ''v1'', sp_timestamp p, sp_nonce p, js_upper (sp_method p), sp_path p,
      sp_body_hash p, k_uuid E (sp_device p)]"

text \<open>
  The newest credential of the device that is not revoked, joined with the device and, when it is bound
  to one, with its license.
\<close>

definition active_credential :: "uuid \<Rightarrow> license_db \<Rightarrow> (credential_row \<times> device_row \<times> license_row option) option" where
  "active_credential d db =
     (case first_row (\<lambda>r. dv_id r = d) (devices db) of
        None \<Rightarrow> None
      | Some r \<Rightarrow>
          map_option (\<lambda>c. (c, r, Option.bind (dv_license r) (\<lambda>l. first_row (\<lambda>x. lc_id x = l) (licenses db))))
            (latest cr_issued_at (\<lambda>c. cr_device c = d \<and> cr_revoked_at c = None) (credentials db)))"

definition store_nonce :: "time \<Rightarrow> signed_request \<Rightarrow> license_db \<Rightarrow> license_db" where
  "store_nonce now p db = db\<lparr>nonces := nonces db @
     [\<lparr>no_nonce = sp_nonce p, no_device = sp_device p, no_created_at = now, no_expires_at = now + seconds 120\<rparr>]\<rparr>"

definition check_signature :: "device_env \<Rightarrow> signed_request \<Rightarrow> string \<Rightarrow> verdict" where
  "check_signature E p stored =
     (case or_null (decryptSecret E stored) of
        None \<Rightarrow> Invalid ''SECRET_DECRYPTION_FAILED''
      | Some secret \<Rightarrow>
          (let expected = from_hex (k_hmac_hex E secret (canonical_request E p));
               sig = from_hex (sp_signature p) in
           if length expected \<noteq> length sig then Invalid ''SIGNATURE_MISMATCH''
           else if expected = sig then Valid else Invalid ''SIGNATURE_MISMATCH''))"

definition verifyRequestSignature :: "device_env \<Rightarrow> time \<Rightarrow> signed_request \<Rightarrow> license_db \<Rightarrow> verdict \<times> license_db" where
  "verifyRequestSignature E now p db =
     (case js_parseInt (sp_timestamp p) of
        None \<Rightarrow> (Invalid ''INVALID_TIMESTAMP'', db)
      | Some ts \<Rightarrow>
          if \<bar>now - ts\<bar> > clockSkewSeconds * 1000 then (Invalid ''TIMESTAMP_OUT_OF_WINDOW'', db)
          else
            (case active_credential (sp_device p) db of
               None \<Rightarrow> (Invalid ''NO_ACTIVE_CREDENTIAL'', db)
             | Some (c, d, l) \<Rightarrow>
                 if dv_revoked_at d \<noteq> None then (Invalid ''DEVICE_REVOKED'', db)
                 else if (case cr_expires_at c of Some t \<Rightarrow> t < now | None \<Rightarrow> False)
                   then (Invalid ''CREDENTIAL_EXPIRED'', db)
                 else if (case l of Some x \<Rightarrow> lc_status x \<noteq> L_ACTIVE | None \<Rightarrow> False)
                   then (Invalid ''LICENSE_NOT_ACTIVE'', db)
                 else if exists_row (\<lambda>n. no_nonce n = sp_nonce p) (nonces db)
                   then (Invalid ''NONCE_ALREADY_USED'', db)
                 else (check_signature E p (cr_hash c), store_nonce now p db)))"

text \<open>The scheduled procedure \<^verbatim>\<open>licensing.prune_telemetry\<close>, on the tables of this theory.\<close>

definition prune_telemetry :: "time \<Rightarrow> license_db \<Rightarrow> license_db" where
  "prune_telemetry now db = db
     \<lparr>nonces := filter (\<lambda>n. \<not> no_expires_at n < now - minutes 5) (nonces db),
      refresh_tokens := filter (\<lambda>t. \<not> rt_expires_at t < now - days 7) (refresh_tokens db),
      leases := filter (\<lambda>s. \<not> (sl_status s = LS_EXPIRED \<and> sl_expires_at s < now - days 7)) (leases db)\<rparr>"

section \<open>The service\<close>

datatype auth_request =
    Activate fresh activation_request "string option"
  | Refresh fresh string "uuid option"
  | Heartbeat uuid uuid heartbeat_body "string option"
  | RevokeDevice uuid string
  | VerifySignature signed_request
  | Prune

fun exec_auth :: "device_env \<Rightarrow> time \<times> auth_request \<Rightarrow> license_db \<Rightarrow> license_db" where
  "exec_auth E (now, Activate fr q ip) db = snd (activate E now fr q ip db)"
| "exec_auth E (now, Refresh fr tok dev) db = snd (refresh E now fr tok dev db)"
| "exec_auth E (now, Heartbeat d sid b ip) db = snd (heartbeat now d sid b ip db)"
| "exec_auth E (now, RevokeDevice d reason) db = revokeDevice now d reason db"
| "exec_auth E (now, VerifySignature p) db = snd (verifyRequestSignature E now p db)"
| "exec_auth E (now, Prune) db = prune_telemetry now db"

section \<open>The outcome of an activation\<close>

lemma best_match_Some:
  "best_match score m best ds = (Some d, b) \<Longrightarrow>
   (d \<in> set ds \<and> b = int (score d)) \<or> (m = Some d \<and> b = best)"
  by (induction ds arbitrary: m best) (auto split: if_splits)

lemma best_match_max:
  "best_match score m best ds = (m', b) \<Longrightarrow> best \<le> b \<and> (\<forall>d\<in>set ds. int (score d) \<le> b)"
proof (induction ds arbitrary: m best)
  case (Cons d ds)
  show ?case
  proof (cases "int (score d) > best")
    case True
    with Cons.prems have "best_match score (Some d) (int (score d)) ds = (m', b)" by simp
    from Cons.IH [OF this] True show ?thesis by auto
  next
    case False
    with Cons.prems have "best_match score m best ds = (m', b)" by simp
    from Cons.IH [OF this] False show ?thesis by auto
  qed
qed simp

lemma best_match_keeps: "best_match score (Some a) c ds \<noteq> (None, b)"
  by (induction ds arbitrary: a c) auto

lemma best_match_None: "best_match score m c ds = (None, b) \<Longrightarrow> b = c"
  by (induction ds arbitrary: m c) (auto simp: best_match_keeps split: if_splits)

lemma best_match_found: "ds \<noteq> [] \<Longrightarrow> \<exists>d b. best_match score None (-1) ds = (Some d, b) \<and> d \<in> set ds \<and> b = int (score d)"
proof -
  assume "ds \<noteq> []"
  obtain m b where mb: "best_match score None (-1) ds = (m, b)" by fastforce
  from \<open>ds \<noteq> []\<close> have "0 \<le> b" using best_match_max [OF mb] by (cases ds) auto
  with mb obtain d where "m = Some d" by (cases m) (auto dest: best_match_None)
  with mb best_match_Some [of score None "-1" ds d b] show ?thesis by auto
qed

definition touch_device :: "time \<Rightarrow> activation_request \<Rightarrow> device_row \<Rightarrow> device_row" where
  "touch_device now q r =
     r\<lparr>dv_last_seen := Some now, dv_last_activation := Some now, dv_role := aq_role q, dv_updated_at := now\<rparr>"

lemma bind_device_cases [consumes 1, case_names bound matched]:
  assumes "bind_device E now fr q l db = Inr (d, isNew, db1)"
  obtains
    (bound) "isNew" "d = fr_device fr" "\<not> exists_row (\<lambda>r. dv_id r = fr_device fr) (devices db)"
      "count_rows (bound_to (lc_id l)) (devices db) = 0 \<or>
       int (count_rows (bound_to (lc_id l)) (devices db)) < device_slots l"
      "\<forall>r\<in>set (devices db). bound_to (lc_id l) r \<longrightarrow>
         computeMatchScore E (aq_fingerprint q) (dv_components r) < MATCH_THRESHOLD"
      "db1 = db\<lparr>devices := devices db @ [new_device E now fr q l],
           licenses := update_rows (\<lambda>r. lc_id r = lc_id l)
             (\<lambda>r. r\<lparr>lc_status := L_ACTIVE, lc_updated_at := now\<rparr>) (licenses db)\<rparr>"
  | (matched) r where "\<not> isNew" "r \<in> set (devices db)" "bound_to (lc_id l) r" "d = dv_id r"
      "MATCH_THRESHOLD \<le> computeMatchScore E (aq_fingerprint q) (dv_components r)"
      "db1 = db\<lparr>devices := update_rows (\<lambda>x. dv_id x = dv_id r) (touch_device now q) (devices db)\<rparr>"
proof -
  let ?ex = "filter (bound_to (lc_id l)) (devices db)"
  let ?score = "\<lambda>r. computeMatchScore E (aq_fingerprint q) (dv_components r)"
  show thesis
  proof (cases "?ex = []")
    case True
    then have "\<forall>r\<in>set (devices db). \<not> bound_to (lc_id l) r" by (simp add: filter_empty_conv)
    with True assms show thesis
      by (intro bound) (auto simp: bind_device_def bindNewDevice_def count_rows_zero list_ex_iff split: if_splits)
  next
    case False
    from best_match_found [OF this, of ?score] obtain r b where
      m: "best_match ?score None (-1) ?ex = (Some r, b)" "r \<in> set ?ex" "b = int (?score r)" by blast
    show thesis
    proof (cases "MATCH_THRESHOLD \<le> ?score r")
      case True
      show thesis
        by (rule matched [of r])
          (use assms False m True in \<open>auto simp: bind_device_def touch_device_def [abs_def]\<close>)
    next
      case noMatch: False
      have "\<forall>r'\<in>set (devices db). bound_to (lc_id l) r' \<longrightarrow> ?score r' < MATCH_THRESHOLD"
        using best_match_max [OF m(1)] m(3) noMatch by fastforce
      with assms False m noMatch show thesis
        by (intro bound) (auto simp: bind_device_def bindNewDevice_def count_rows_def split: if_splits)
    qed
  qed
qed

text \<open>What a session adds to the tables, whatever the device.\<close>

lemma issue_session_Inr:
  assumes "issue_session E now fr q ip l d isNew db = (Inr r, db')"
  shows "devices db' = devices db" "licenses db' = licenses db" "nonces db' = nonces db"
    "ar_score r = (if isNew then Some 100 else None)" "ar_device r = d" "ar_secret r = fr_secret fr" "ar_session r = fr_session fr" "ar_refresh r = fr_refresh fr"
    "\<not> exists_row (\<lambda>t. rt_hash t = hashSecret E (fr_refresh fr)) (refresh_tokens db)"
    "\<exists>t. refresh_tokens db' = refresh_tokens db @ [t] \<and> rt_hash t = hashSecret E (fr_refresh fr) \<and>
       rt_device t = d \<and> rt_family t = fr_family fr"
    "\<exists>c. credentials db' = update_rows (\<lambda>c. cr_device c = d \<and> cr_revoked_at c = None)
            (\<lambda>c. c\<lparr>cr_revoked_at := Some now, cr_reason := Some '' superseded''\<rparr>) (credentials db) @ [c] \<and>
       cr_device c = d \<and> cr_hash c = encryptSecret E (fr_iv fr) (fr_secret fr) \<and> cr_revoked_at c = None \<and>
       cr_expires_at c = Some (now + days 30) \<and> cr_family c = fr_family fr"
    "\<exists>s. leases db' = update_rows (\<lambda>s. sl_license s = lc_id l \<and> sl_status s = LS_ACTIVE)
            (\<lambda>s. s\<lparr>sl_status := LS_EXPIRED, sl_revoked_at := Some now,
              sl_reason := Some ''superseded by new activation''\<rparr>) (leases db) @ [s] \<and>
       sl_id s = fr_lease fr \<and> sl_license s = lc_id l \<and> sl_device s = d \<and> sl_status s = LS_ACTIVE"
    "\<not> exists_row (\<lambda>s. sl_id s = fr_lease fr) (leases db)"
proof -
  have ex: "exists_row (\<lambda>s. sl_id s = i) (update_rows (\<lambda>s. sl_license s = lc_id l \<and> sl_status s = LS_ACTIVE)
        (\<lambda>s. s\<lparr>sl_status := LS_EXPIRED, sl_revoked_at := Some now,
               sl_reason := Some ''superseded by new activation''\<rparr>) (leases db)) =
      exists_row (\<lambda>s. sl_id s = i) (leases db)" for i
    by (rule exists_row_update_frame) simp
  note defs = issue_session_def rotate_credential_def insert_refresh_def open_lease_def record_activation_def Let_def ex
  show "devices db' = devices db" "licenses db' = licenses db" "nonces db' = nonces db"
    "ar_score r = (if isNew then Some 100 else None)" "ar_device r = d" "ar_secret r = fr_secret fr"
    "ar_session r = fr_session fr" "ar_refresh r = fr_refresh fr"
    "\<not> exists_row (\<lambda>t. rt_hash t = hashSecret E (fr_refresh fr)) (refresh_tokens db)"
    "\<not> exists_row (\<lambda>s. sl_id s = fr_lease fr) (leases db)"
    using assms by (auto simp: defs split: if_splits)
  show "\<exists>t. refresh_tokens db' = refresh_tokens db @ [t] \<and> rt_hash t = hashSecret E (fr_refresh fr) \<and>
      rt_device t = d \<and> rt_family t = fr_family fr"
    using assms by (auto simp: defs split: if_splits)
  show "\<exists>c. credentials db' = update_rows (\<lambda>c. cr_device c = d \<and> cr_revoked_at c = None)
          (\<lambda>c. c\<lparr>cr_revoked_at := Some now, cr_reason := Some '' superseded''\<rparr>) (credentials db) @ [c] \<and>
      cr_device c = d \<and> cr_hash c = encryptSecret E (fr_iv fr) (fr_secret fr) \<and> cr_revoked_at c = None \<and>
      cr_expires_at c = Some (now + days 30) \<and> cr_family c = fr_family fr"
    using assms by (auto simp: defs split: if_splits)
  show "\<exists>s. leases db' = update_rows (\<lambda>s. sl_license s = lc_id l \<and> sl_status s = LS_ACTIVE)
          (\<lambda>s. s\<lparr>sl_status := LS_EXPIRED, sl_revoked_at := Some now,
            sl_reason := Some ''superseded by new activation''\<rparr>) (leases db) @ [s] \<and>
      sl_id s = fr_lease fr \<and> sl_license s = lc_id l \<and> sl_device s = d \<and> sl_status s = LS_ACTIVE"
    using assms by (auto simp: defs split: if_splits)
qed

lemma activate_cases [case_names unchanged activated]:
  obtains
    (unchanged) e where "activate E now fr q ip db = (Inl e, db)"
  | (activated) l d isNew db1 r db2 where
      "first_row (\<lambda>l. lc_key l = Some (aq_license_key q)) (licenses db) = Some l" "license_gate now l = None"
      "bind_device E now fr q l db = Inr (d, isNew, db1)"
      "issue_session E now fr q ip l d isNew db1 = (Inr r, db2)"
      "activate E now fr q ip db = (Inr r, db2)"
proof (cases "activate E now fr q ip db")
  case (Pair res db')
  show thesis
  proof (cases res)
    case (Inl e)
    with Pair have "db' = db" unfolding activate_def by (auto dest: transaction_error_unchanged)
    with Pair Inl show thesis by (intro unchanged) simp
  next
    case (Inr r)
    with Pair have act: "activate E now fr q ip db = (Inr r, db')" by simp
    note body = transaction_success [OF act [unfolded activate_def]]
    show thesis
    proof (cases "first_row (\<lambda>l. lc_key l = Some (aq_license_key q)) (licenses db)")
      case None
      with body show thesis by simp
    next
      case (Some l)
      with body have gate: "license_gate now l = None" by (auto split: option.splits)
      obtain d isNew db1 where b: "bind_device E now fr q l db = Inr (d, isNew, db1)"
        using body Some gate by (cases "bind_device E now fr q l db") auto
      with body Some gate have "issue_session E now fr q ip l d isNew db1 = (Inr r, db')" by simp
      with Some gate b act show thesis by (intro activated)
    qed
  qed
qed

section \<open>The outcomes of the other requests\<close>

lemma refresh_cases [case_names unchanged reuse rotated]:
  obtains
    (unchanged) e where "refresh E now fr tok dev db = (Inl e, db)"
  | (reuse) t where "first_row (\<lambda>t. rt_hash t = hashSecret E tok) (refresh_tokens db) = Some t"
      "rt_used_at t \<noteq> None \<or> rt_revoked_at t \<noteq> None"
      "refresh E now fr tok dev db =
        (Inl (Unauthorized ''Session invalidated due to token reuse''), revoke_family now t db)"
  | (rotated) t r n where "first_row (\<lambda>t. rt_hash t = hashSecret E tok) (refresh_tokens db) = Some t"
      "rt_used_at t = None" "rt_revoked_at t = None"
      "\<not> exists_row (\<lambda>t. rt_hash t = hashSecret E (fr_refresh fr)) (refresh_tokens db)"
      "rt_hash n = hashSecret E (fr_refresh fr)"
      "refresh E now fr tok dev db = (Inr r, db
        \<lparr>refresh_tokens := update_rows (\<lambda>r. rt_id r = rt_id t) (\<lambda>r. r\<lparr>rt_used_at := Some now\<rparr>) (refresh_tokens db) @ [n],
         leases := update_rows (\<lambda>s. sl_device s = rt_device t \<and> sl_status s = LS_ACTIVE)
           (\<lambda>s. s\<lparr>sl_heartbeat_at := now, sl_expires_at := now + seconds 45\<rparr>) (leases db),
         devices := update_rows (\<lambda>d. dv_id d = rt_device t \<and> dv_deleted_at d = None)
           (\<lambda>d. d\<lparr>dv_status := ''ONLINE'', dv_last_seen := Some now, dv_updated_at := now\<rparr>) (devices db)\<rparr>)"
proof (cases "first_row (\<lambda>t. rt_hash t = hashSecret E tok) (refresh_tokens db)")
  case None
  then show thesis by (intro unchanged) (simp add: refresh_def)
next
  case (Some t)
  let ?upd = "update_rows (\<lambda>r. rt_id r = rt_id t) (\<lambda>r. r\<lparr>rt_used_at := Some now\<rparr>) (refresh_tokens db)"
  have ex: "exists_row (\<lambda>t. rt_hash t = h) ?upd = exists_row (\<lambda>t. rt_hash t = h) (refresh_tokens db)" for h
    by (rule exists_row_update_frame) simp
  consider "rt_used_at t \<noteq> None \<or> rt_revoked_at t \<noteq> None"
    | "rt_used_at t = None" "rt_revoked_at t = None"
        "rt_expires_at t < now \<or> (dev \<noteq> None \<and> dev \<noteq> Some (rt_device t)) \<or>
         exists_row (\<lambda>t. rt_hash t = hashSecret E (fr_refresh fr)) (refresh_tokens db)"
    | "rt_used_at t = None" "rt_revoked_at t = None" "\<not> rt_expires_at t < now"
        "\<not> (dev \<noteq> None \<and> dev \<noteq> Some (rt_device t))"
        "\<not> exists_row (\<lambda>t. rt_hash t = hashSecret E (fr_refresh fr)) (refresh_tokens db)" by blast
  then show thesis
  proof cases
    case 1
    with Some show thesis by (intro reuse [of t]) (simp_all add: refresh_def)
  next
    case 2
    with Some show thesis
      by (cases "rt_expires_at t < now"; cases "dev \<noteq> None \<and> dev \<noteq> Some (rt_device t)")
        (auto intro: unchanged simp: refresh_def insert_refresh_def ex)
  next
    case 3
    with Some show thesis
      by (intro rotated [OF Some]) (auto simp: refresh_def insert_refresh_def ex Let_def)
  qed
qed

lemma heartbeat_cases [case_names unchanged renewed]:
  obtains
    (unchanged) e where "heartbeat now d sid b ip db = (Inl e, db)"
  | (renewed) s r acts where "s \<in> set (leases db)" "sl_device s = d" "sl_session s = sid" "sl_status s \<noteq> LS_REVOKED"
      "heartbeat now d sid b ip db = (Inr r, db
        \<lparr>activations := acts,
         leases := update_rows (\<lambda>r. sl_id r = sl_id s)
           (\<lambda>r. r\<lparr>sl_heartbeat_at := now, sl_expires_at := now + seconds 45, sl_status := LS_ACTIVE, sl_ip := ip\<rparr>)
           (leases db),
         devices := update_rows (\<lambda>r. dv_id r = d)
           (\<lambda>r. (report_metadata now b r)\<lparr>dv_last_seen := Some now, dv_status := ''ONLINE''\<rparr>) (devices db)\<rparr>)"
proof (cases "first_row (\<lambda>s. sl_device s = d \<and> sl_session s = sid \<and>
    exists_row (\<lambda>l. lc_id l = sl_license s) (licenses db)) (leases db)")
  case None
  then show thesis by (intro unchanged) (simp add: heartbeat_def)
next
  case (Some s)
  have upd: "update_rows (\<lambda>r. dv_id r = d) g (update_rows (\<lambda>r. dv_id r = d) (report_metadata now b) ds) =
      update_rows (\<lambda>r. dv_id r = d) (\<lambda>r. g (report_metadata now b r)) ds" for g ds
    by (induction ds) (auto simp: report_metadata_def)
  show thesis
  proof (cases "sl_status s = LS_REVOKED")
    case True
    with Some show thesis by (intro unchanged) (simp add: heartbeat_def)
  next
    case False
    with Some first_row_Some [OF Some] show thesis
      by (intro renewed [of s]) (auto simp: heartbeat_def transaction_def upd)
  qed
qed

lemma verify_snd:
  "snd (verifyRequestSignature E now p db) = db \<or> snd (verifyRequestSignature E now p db) = store_nonce now p db"
  by (auto simp: verifyRequestSignature_def split: option.splits)

section \<open>Device slots\<close>

definition within_slots :: "license_db \<Rightarrow> bool" where
  "within_slots db \<longleftrightarrow>
     (\<forall>l\<in>set (licenses db). int (count_rows (bound_to (lc_id l)) (devices db)) \<le> max 1 (lc_max_devices l))"

definition auth_inv :: "license_db \<Rightarrow> bool" where
  "auth_inv db \<longleftrightarrow> distinct (map lc_id (licenses db)) \<and> distinct (map dv_id (devices db)) \<and>
     distinct (map rt_hash (refresh_tokens db)) \<and> distinct (map sl_id (leases db)) \<and> within_slots db"

lemma auth_inv_update:
  assumes "auth_inv db" and "licenses db' = licenses db"
    and "devices db' = update_rows q f (devices db)" "\<And>r. dv_id (f r) = dv_id r" "\<And>r. dv_license (f r) = dv_license r"
      "\<And>r. dv_revoked_at (f r) = None \<Longrightarrow> dv_revoked_at r = None"
    and "distinct (map rt_hash (refresh_tokens db'))" "distinct (map sl_id (leases db'))"
  shows "auth_inv db'"
proof -
  have "count_rows (bound_to i) (devices db') \<le> count_rows (bound_to i) (devices db)" for i
    unfolding assms(3) by (rule count_rows_update_le) (use assms(5,6) in auto)
  then have le: "int (count_rows (bound_to i) (devices db')) \<le> int (count_rows (bound_to i) (devices db))" for i
    by simp
  have "within_slots db'" unfolding within_slots_def assms(2)
  proof
    fix l assume "l \<in> set (licenses db)"
    with assms(1) have "int (count_rows (bound_to (lc_id l)) (devices db)) \<le> max 1 (lc_max_devices l)"
      by (simp add: auth_inv_def within_slots_def)
    with le [of "lc_id l"] show "int (count_rows (bound_to (lc_id l)) (devices db')) \<le> max 1 (lc_max_devices l)"
      by linarith
  qed
  then show ?thesis using assms by (simp add: auth_inv_def map_update_rows_frame)
qed

lemma distinct_filter_map: "distinct (map f xs) \<Longrightarrow> distinct (map f (filter p xs))"
  by (rule distinct_map_filter)

lemma bound_slots:
  assumes inv: "auth_inv db" and l: "l \<in> set (licenses db)"
    and room: "count_rows (bound_to (lc_id l)) (devices db) = 0 \<or>
      int (count_rows (bound_to (lc_id l)) (devices db)) < device_slots l"
    and x: "x \<in> set (licenses db)"
  shows "int (count_rows (bound_to (lc_id x)) (devices db @ [new_device E now fr q l])) \<le> max 1 (lc_max_devices x)"
proof (cases "lc_id x = lc_id l")
  case True
  with x l inv have "x = l" by (auto simp: auth_inv_def distinct_map dest: inj_onD)
  with room show ?thesis
    by (auto simp: new_device_def blank_device_def device_slots_def split: if_splits)
next
  case False
  with inv x show ?thesis by (auto simp: auth_inv_def within_slots_def new_device_def blank_device_def)
qed

lemma bind_device_inv:
  assumes "auth_inv db" and "bind_device E now fr q l db = Inr (d, isNew, db1)" and "l \<in> set (licenses db)"
  shows "auth_inv db1 \<and> refresh_tokens db1 = refresh_tokens db \<and> leases db1 = leases db"
  using assms(2)
proof (cases rule: bind_device_cases)
  case bound
  have "int (count_rows (bound_to (lc_id x)) (devices db @ [new_device E now fr q l])) \<le> max 1 (lc_max_devices x)"
    if "x \<in> set (licenses db)" for x using bound_slots [OF assms(1,3) bound(4) that] .
  then have "\<forall>x\<in>set (licenses db1). int (count_rows (bound_to (lc_id x)) (devices db1)) \<le> max 1 (lc_max_devices x)"
    unfolding bound(6) by (fastforce simp del: count_rows_append simp: in_update_rows)
  then have "within_slots db1" by (simp add: within_slots_def)
  with bound assms(1) show ?thesis
    by (auto simp: auth_inv_def map_update_rows_frame new_device_def blank_device_def list_ex_iff)
next
  case (matched r)
  have "auth_inv db1"
    by (rule auth_inv_update [OF assms(1), of _ "\<lambda>x. dv_id x = dv_id r" "touch_device now q"])
      (use matched(6) assms(1) in \<open>auto simp: touch_device_def auth_inv_def\<close>)
  with matched show ?thesis by simp
qed

lemma activate_inv: "auth_inv db \<Longrightarrow> auth_inv (snd (activate E now fr q ip db))"
proof (cases rule: activate_cases [of E now fr q ip db])
  case (activated l d isNew db1 r db2)
  assume "auth_inv db"
  with activated first_row_Some [OF activated(1)]
  have inv: "auth_inv db1" using bind_device_inv [of db E now fr q l d isNew db1] by simp
  note out = issue_session_Inr [OF activated(4)]
  obtain t where t: "refresh_tokens db2 = refresh_tokens db1 @ [t]" "rt_hash t = hashSecret E (fr_refresh fr)"
    using out(10) by blast
  have "distinct (map rt_hash (refresh_tokens db2))"
    unfolding t(1) by (rule distinct_insert_key) (use inv out(9) t(2) in \<open>simp_all add: auth_inv_def\<close>)
  moreover have "distinct (map sl_id (leases db2))"
  proof -
    obtain x where x: "map sl_id (leases db2) = map sl_id (leases db1 @ [x])" "sl_id x = fr_lease fr"
      using out(12) by (auto simp: map_update_rows_frame)
    show ?thesis
      unfolding x(1) by (rule distinct_insert_key) (use inv out(13) x(2) in \<open>simp_all add: auth_inv_def\<close>)
  qed
  ultimately have "auth_inv db2" using inv out(1,2) by (simp add: auth_inv_def within_slots_def)
  then show ?thesis using activated(5) by simp
qed simp

lemma exec_auth_inv: "auth_inv db \<Longrightarrow> auth_inv (exec_auth E req db)"
proof (cases "(E, req, db)" rule: exec_auth.cases)
  case (2 E' now fr tok dev db')
  assume inv: "auth_inv db"
  show ?thesis
  proof (cases rule: refresh_cases [of E now fr tok dev db])
    case (reuse t)
    with 2 inv show ?thesis
      by (simp add: revoke_family_def auth_inv_def within_slots_def map_update_rows_frame)
  next
    case (rotated t r n)
    show ?thesis
      by (rule auth_inv_update [OF inv, of _ "\<lambda>d. dv_id d = rt_device t \<and> dv_deleted_at d = None"
            "\<lambda>d. d\<lparr>dv_status := ''ONLINE'', dv_last_seen := Some now, dv_updated_at := now\<rparr>"])
        (use 2 rotated inv in \<open>auto simp: auth_inv_def map_update_rows_frame list_ex_iff in_update_rows\<close>)
  qed (use 2 inv in simp)
next
  case (3 E' now d sid b ip db')
  assume inv: "auth_inv db"
  show ?thesis
  proof (cases rule: heartbeat_cases [of now d sid b ip db])
    case (renewed s r acts)
    show ?thesis
      by (rule auth_inv_update [OF inv, of _ "\<lambda>r. dv_id r = d"
            "\<lambda>r. (report_metadata now b r)\<lparr>dv_last_seen := Some now, dv_status := ''ONLINE''\<rparr>"])
        (use 3 renewed inv in \<open>auto simp: auth_inv_def map_update_rows_frame report_metadata_def\<close>)
  qed (use 3 inv in simp)
next
  case (4 E' now d reason db')
  assume inv: "auth_inv db"
  show ?thesis
    by (rule auth_inv_update [OF inv, of _ "\<lambda>r. dv_id r = d"
          "\<lambda>r. r\<lparr>dv_revoked_at := Some now, dv_reason := Some reason, dv_status := ''OFFLINE''\<rparr>"])
      (use 4 inv in \<open>auto simp: revokeDevice_def auth_inv_def map_update_rows_frame\<close>)
next
  case (5 E' now p db')
  assume "auth_inv db"
  with 5 verify_snd [of E now p db] show ?thesis by (auto simp: store_nonce_def auth_inv_def within_slots_def)
next
  case (6 E' now db')
  assume "auth_inv db"
  with 6 show ?thesis by (simp add: prune_telemetry_def auth_inv_def within_slots_def distinct_map_filter)
qed (simp add: activate_inv)

interpretation device_slots: guarded_service "exec_auth E" auth_inv for E
  by unfold_locales (rule exec_auth_inv)

section \<open>Refresh tokens\<close>

text \<open>No row of the token with this hash can be used any more.\<close>

definition token_live :: "refresh_row \<Rightarrow> bool" where
  "token_live t \<longleftrightarrow> rt_used_at t = None \<and> rt_revoked_at t = None"

definition spent :: "string \<Rightarrow> license_db \<Rightarrow> bool" where
  "spent h db \<longleftrightarrow> (\<forall>t\<in>set (refresh_tokens db). rt_hash t = h \<longrightarrow> \<not> token_live t)"

text \<open>The hash of the refresh token a request draws, when it draws one.\<close>

fun drawn_hash :: "device_env \<Rightarrow> time \<times> auth_request \<Rightarrow> string option" where
  "drawn_hash E (_, Activate fr _ _) = Some (hashSecret E (fr_refresh fr))"
| "drawn_hash E (_, Refresh fr _ _) = Some (hashSecret E (fr_refresh fr))"
| "drawn_hash E _ = None"

lemma spent_update:
  assumes "spent h db" and "\<And>r. rt_hash (f r) = rt_hash r" "\<And>r. token_live (f r) \<Longrightarrow> token_live r"
  shows "\<forall>t\<in>set (update_rows p f (refresh_tokens db)). rt_hash t = h \<longrightarrow> \<not> token_live t"
  using assms unfolding ball_update_rows spent_def by (simp; blast)

lemma exec_auth_spent: "drawn_hash E req \<noteq> Some h \<Longrightarrow> spent h db \<Longrightarrow> spent h (exec_auth E req db)"
proof (cases "(E, req, db)" rule: exec_auth.cases)
  case (1 E' now fr q ip db')
  assume h: "drawn_hash E req \<noteq> Some h" "spent h db"
  show ?thesis
  proof (cases rule: activate_cases [of E now fr q ip db])
    case (activated l d isNew db1 r db2)
    have "refresh_tokens db1 = refresh_tokens db" using activated(3) by (cases rule: bind_device_cases) simp_all
    then obtain t where "refresh_tokens db2 = refresh_tokens db @ [t]" "rt_hash t = hashSecret E (fr_refresh fr)"
      using issue_session_Inr(10) [OF activated(4)] by auto
    with 1 activated(5) h show ?thesis by (auto simp: spent_def)
  qed (use 1 h in simp)
next
  case (2 E' now fr tok dev db')
  assume h: "drawn_hash E req \<noteq> Some h" "spent h db"
  show ?thesis
  proof (cases rule: refresh_cases [of E now fr tok dev db])
    case (reuse t)
    have eq: "refresh_tokens (revoke_family now t db) =
        update_rows (\<lambda>r. rt_family r = rt_family t \<and> rt_revoked_at r = None)
          (\<lambda>r. r\<lparr>rt_revoked_at := Some now, rt_reason := Some ''reuse detected''\<rparr>) (refresh_tokens db)"
      by (simp add: revoke_family_def)
    have "\<forall>x\<in>set (refresh_tokens (revoke_family now t db)). rt_hash x = h \<longrightarrow> \<not> token_live x"
      unfolding eq by (rule spent_update [OF h(2)]) (simp_all add: token_live_def)
    then have "spent h (revoke_family now t db)" by (simp add: spent_def)
    with 2 reuse show ?thesis by simp
  next
    case (rotated t r n)
    have "\<forall>x\<in>set (update_rows (\<lambda>r. rt_id r = rt_id t) (\<lambda>r. r\<lparr>rt_used_at := Some now\<rparr>) (refresh_tokens db)).
        rt_hash x = h \<longrightarrow> \<not> token_live x"
      by (rule spent_update [OF h(2)]) (simp_all add: token_live_def)
    with 2 rotated h(1) show ?thesis by (auto simp: spent_def)
  qed (use 2 h in simp)
next
  case (3 E' now d sid b ip db')
  assume "spent h db"
  then show ?thesis
    by (cases rule: heartbeat_cases [of now d sid b ip db]) (use 3 in \<open>simp_all add: spent_def\<close>)
next
  case (5 E' now p db')
  assume "spent h db"
  with 5 verify_snd [of E now p db] show ?thesis by (auto simp: spent_def store_nonce_def)
qed (auto simp: spent_def revokeDevice_def prune_telemetry_def)

interpretation token_rotation: selective_service "exec_auth E" "\<lambda>s t. spent h s \<longrightarrow> spent h t"
  "\<lambda>req. drawn_hash E req \<noteq> Some h" for E h
  by unfold_locales (auto intro: exec_auth_spent)

lemma refresh_spends:
  assumes inv: "auth_inv db" and ok: "refresh E now fr tok dev db = (Inr r, db1)"
  shows "spent (hashSecret E tok) db1"
proof (cases rule: refresh_cases [of E now fr tok dev db])
  case (rotated t r' n)
  have t: "t \<in> set (refresh_tokens db)" "rt_hash t = hashSecret E tok" using first_row_Some [OF rotated(1)] by auto
  have uniq: "x = t" if "x \<in> set (refresh_tokens db)" "rt_hash x = hashSecret E tok" for x
    by (rule key_unique [of rt_hash]) (use inv that t in \<open>simp_all add: auth_inv_def\<close>)
  have "rt_hash n \<noteq> hashSecret E tok" using rotated(4,5) t by (auto simp: list_ex_iff)
  moreover have "refresh_tokens db1 =
      update_rows (\<lambda>r. rt_id r = rt_id t) (\<lambda>r. r\<lparr>rt_used_at := Some now\<rparr>) (refresh_tokens db) @ [n]"
    using rotated(6) ok by simp
  moreover have "\<forall>r\<in>set (update_rows (\<lambda>r. rt_id r = rt_id t) (\<lambda>r. r\<lparr>rt_used_at := Some now\<rparr>) (refresh_tokens db)).
      rt_hash r = hashSecret E tok \<longrightarrow> \<not> token_live r"
    unfolding ball_update_rows using uniq by (auto simp: token_live_def)
  ultimately show ?thesis by (simp add: spent_def)
qed (use ok in simp_all)

lemma spent_refused:
  assumes "spent (hashSecret E tok) db"
  shows "\<not> ok (fst (refresh E now fr tok dev db))"
proof (cases rule: refresh_cases [of E now fr tok dev db])
  case (rotated t r n)
  with assms first_row_Some [OF rotated(1)] show ?thesis by (auto simp: spent_def token_live_def)
qed simp_all

lemma spent_revokes_family:
  assumes "auth_inv db" "spent (hashSecret E tok) db" and t: "t \<in> set (refresh_tokens db)" "rt_hash t = hashSecret E tok"
  shows "snd (refresh E now fr tok dev db) = revoke_family now t db"
proof -
  from t have "first_row (\<lambda>t. rt_hash t = hashSecret E tok) (refresh_tokens db) \<noteq> None" by (auto simp: first_row_None)
  then obtain x where x: "first_row (\<lambda>t. rt_hash t = hashSecret E tok) (refresh_tokens db) = Some x" by auto
  have "x = t"
    by (rule key_unique [of rt_hash]) (use t assms(1) first_row_Some [OF x] in \<open>simp_all add: auth_inv_def\<close>)
  moreover from this assms(2) t have "rt_used_at t \<noteq> None \<or> rt_revoked_at t \<noteq> None"
    by (auto simp: spent_def token_live_def)
  ultimately show ?thesis using x by (simp add: refresh_def)
qed

lemma revoke_family_revokes:
  "\<forall>x\<in>set (refresh_tokens (revoke_family now t db)). rt_family x = rt_family t \<longrightarrow> rt_revoked_at x \<noteq> None"
  "\<forall>c\<in>set (credentials (revoke_family now t db)). cr_family c = rt_family t \<longrightarrow> cr_revoked_at c \<noteq> None"
  by (simp_all add: revoke_family_def ball_update_rows)

section \<open>Fingerprints\<close>

lemma match_weights_le: "fst (match_weights E fp stored ws) \<le> snd (match_weights E fp stored ws)"
  by (induction ws) (auto split: option.splits prod.splits simp: Let_def)

lemma score_le: "computeMatchScore E fp stored \<le> 100"
proof -
  obtain m p where mp: "match_weights E fp stored FINGERPRINT_WEIGHTS = (m, p)" by fastforce
  with match_weights_le [of E fp stored FINGERPRINT_WEIGHTS] have "m \<le> p" by simp
  then have "(200 * m + p) div (2 * p) \<le> 100" if "p > 0"
  proof -
    have "200 * m + p < (2 * p) * 101" using \<open>m \<le> p\<close> that by linarith
    then have "(200 * m + p) div (2 * p) < 101" by (metis mult.commute less_mult_imp_div_less)
    then show ?thesis by simp
  qed
  then show ?thesis using mp by (simp add: computeMatchScore_def)
qed

text \<open>The stored components of a fingerprint, looked up by name.\<close>

lemma map_of_map_filter:
  "map_of (List.map_filter (\<lambda>c. map_option (\<lambda>v. (c, f v)) (g c)) cs) x =
   (if x \<in> set cs then map_option f (g x) else None)"
  by (induction cs) (auto split: option.splits)

lemma stored_component:
  "c \<in> set component_names \<Longrightarrow>
   map_of (hashFingerprintComponents E fp) c = map_option (hashComponent E) (fp_component fp c)"
  by (simp add: hashFingerprintComponents_def map_of_map_filter)

lemma weights_are_components: "fst ` set FINGERPRINT_WEIGHTS = set component_names"
  by (auto simp: FINGERPRINT_WEIGHTS_def component_names_def)

lemma match_weights_self:
  assumes "\<forall>v. hashComponent E v \<noteq> []" and "fst ` set ws \<subseteq> set component_names"
  shows "match_weights E fp (hashFingerprintComponents E fp) ws =
    (let n = sum_list (map snd (filter (\<lambda>(c, w). fp_component fp c \<noteq> None) ws)) in (n, n))"
  using assms(2)
proof (induction ws)
  case (Cons cw ws)
  obtain c w where cw: "cw = (c, w)" by fastforce
  with Cons have "c \<in> set component_names" by auto
  then show ?case using Cons cw assms(1)
    by (cases "fp_component fp c") (simp_all add: stored_component or_null_def Let_def)
qed simp

lemma self_match:
  assumes hash: "\<forall>v. hashComponent E v \<noteq> []" and c: "c \<in> set component_names" "fp_component fp c \<noteq> None"
  shows "computeMatchScore E fp (hashFingerprintComponents E fp) = 100"
proof -
  let ?n = "sum_list (map snd (filter (\<lambda>(c, w). fp_component fp c \<noteq> None) FINGERPRINT_WEIGHTS))"
  have m: "match_weights E fp (hashFingerprintComponents E fp) FINGERPRINT_WEIGHTS = (?n, ?n)"
    using match_weights_self [OF hash, of FINGERPRINT_WEIGHTS fp] weights_are_components by (simp add: Let_def)
  from c have "?n > 0" by (auto simp: FINGERPRINT_WEIGHTS_def component_names_def)
  then obtain k where n: "?n = Suc k" using gr0_implies_Suc by blast
  have "200 * Suc k + Suc k = Suc k + 100 * (2 * Suc k)" by simp
  then have "(200 * Suc k + Suc k) div (2 * Suc k) = 100 + Suc k div (2 * Suc k)"
    by (metis div_mult_self1 nat.distinct(1) mult_eq_0_iff zero_neq_numeral)
  then have "(200 * Suc k + Suc k) div (2 * Suc k) = 100" by simp
  then show ?thesis unfolding computeMatchScore_def m n Let_def prod.case by (simp only: nat.distinct if_False)
qed

section \<open>Recognition of a device\<close>

text \<open>Some device bound to the license is recognised by the fingerprint.\<close>

definition recognised :: "device_env \<Rightarrow> fingerprint \<Rightarrow> uuid \<Rightarrow> license_db \<Rightarrow> bool" where
  "recognised E fp lid db \<longleftrightarrow>
     (\<exists>r\<in>set (devices db). bound_to lid r \<and> MATCH_THRESHOLD \<le> computeMatchScore E fp (dv_components r))"

text \<open>The keys of the licenses, and the devices a fingerprint is recognised by, only grow.\<close>

definition keeps_recognition :: "device_env \<Rightarrow> fingerprint \<Rightarrow> uuid \<Rightarrow> license_db \<Rightarrow> license_db \<Rightarrow> bool" where
  "keeps_recognition E fp lid s t \<longleftrightarrow>
     map (\<lambda>l. (lc_id l, lc_key l)) (licenses t) = map (\<lambda>l. (lc_id l, lc_key l)) (licenses s) \<and>
     (recognised E fp lid s \<longrightarrow> recognised E fp lid t)"

lemma recognised_update:
  assumes "devices t = update_rows p f (devices s)"
    and "\<And>r. dv_license (f r) = dv_license r" "\<And>r. dv_revoked_at (f r) = dv_revoked_at r"
    and "\<And>r. dv_components (f r) = dv_components r"
  shows "recognised E fp lid s \<longrightarrow> recognised E fp lid t"
proof
  assume "recognised E fp lid s"
  then obtain r where r: "r \<in> set (devices s)" "bound_to lid r" "MATCH_THRESHOLD \<le> computeMatchScore E fp (dv_components r)"
    by (auto simp: recognised_def)
  then have "(if p r then f r else r) \<in> set (devices t)" by (auto simp: assms(1) in_update_rows)
  moreover from r have "bound_to lid (if p r then f r else r)"
    "MATCH_THRESHOLD \<le> computeMatchScore E fp (dv_components (if p r then f r else r))" by (simp_all add: assms(2-4))
  ultimately show "recognised E fp lid t" unfolding recognised_def by blast
qed

lemma bind_device_recognition:
  assumes "bind_device E now fr q l db = Inr (d, isNew, db1)"
  shows "keeps_recognition E fp lid db db1"
  using assms
proof (cases rule: bind_device_cases)
  case bound
  then show ?thesis by (auto simp: keeps_recognition_def recognised_def map_update_rows_frame)
next
  case (matched r)
  then have "recognised E fp lid db \<longrightarrow> recognised E fp lid db1"
    by (intro recognised_update [where p = "\<lambda>x. dv_id x = dv_id r" and f = "touch_device now q"])
      (simp_all add: touch_device_def)
  with matched(6) show ?thesis by (simp add: keeps_recognition_def)
qed

fun revokes :: "time \<times> auth_request \<Rightarrow> bool" where
  "revokes (_, RevokeDevice _ _) = True"
| "revokes _ = False"

lemma exec_auth_recognition: "\<not> revokes req \<Longrightarrow> keeps_recognition E fp lid db (exec_auth E req db)"
proof (cases "(E, req, db)" rule: exec_auth.cases)
  case (1 E' now fr q ip db')
  show ?thesis
  proof (cases rule: activate_cases [of E now fr q ip db])
    case (activated l d isNew db1 r db2)
    note out = issue_session_Inr(1,2) [OF activated(4)]
    from bind_device_recognition [OF activated(3)] out 1 activated(5) show ?thesis
      by (simp add: keeps_recognition_def recognised_def)
  qed (use 1 in \<open>simp add: keeps_recognition_def\<close>)
next
  case (2 E' now fr tok dev db')
  show ?thesis
  proof (cases rule: refresh_cases [of E now fr tok dev db])
    case (rotated t r n)
    then have "recognised E fp lid db \<longrightarrow> recognised E fp lid (exec_auth E req db)" using 2
      by (intro recognised_update [where p = "\<lambda>d. dv_id d = rt_device t \<and> dv_deleted_at d = None"
          and f = "\<lambda>d. d\<lparr>dv_status := ''ONLINE'', dv_last_seen := Some now, dv_updated_at := now\<rparr>"]) simp_all
    with 2 rotated show ?thesis by (simp add: keeps_recognition_def)
  qed (use 2 in \<open>simp_all add: keeps_recognition_def recognised_def revoke_family_def\<close>)
next
  case (3 E' now d sid b ip db')
  show ?thesis
  proof (cases rule: heartbeat_cases [of now d sid b ip db])
    case (renewed s r acts)
    then have "recognised E fp lid db \<longrightarrow> recognised E fp lid (exec_auth E req db)" using 3
      by (intro recognised_update [where p = "\<lambda>r. dv_id r = d"
          and f = "\<lambda>r. (report_metadata now b r)\<lparr>dv_last_seen := Some now, dv_status := ''ONLINE''\<rparr>"])
        (simp_all add: report_metadata_def)
    with 3 renewed show ?thesis by (simp add: keeps_recognition_def)
  qed (use 3 in \<open>simp add: keeps_recognition_def\<close>)
next
  case (5 E' now p db')
  with verify_snd [of E now p db] show ?thesis by (auto simp: keeps_recognition_def recognised_def store_nonce_def)
qed (simp_all add: keeps_recognition_def recognised_def prune_telemetry_def)

interpretation device_recognition: selective_service "exec_auth E" "keeps_recognition E fp lid" "\<lambda>req. \<not> revokes req"
  for E fp lid
proof
  show "\<not> revokes req \<Longrightarrow> keeps_recognition E fp lid s (exec_auth E req s)" for req s by (rule exec_auth_recognition)
qed (auto simp: keeps_recognition_def)

lemma first_key_same_id:
  assumes "map (\<lambda>l. (lc_id l, lc_key l)) t = map (\<lambda>l. (lc_id l, lc_key l)) s"
  shows "map_option lc_id (first_row (\<lambda>l. lc_key l = k) t) = map_option lc_id (first_row (\<lambda>l. lc_key l = k) s)"
  using assms by (induction s arbitrary: t) (auto simp: map_eq_Cons_conv)

lemma activate_recognised:
  assumes "\<forall>v. hashComponent E v \<noteq> []"
    and "\<exists>c\<in>set component_names. fp_component (aq_fingerprint q) c \<noteq> None"
    and ok: "activate E now fr q ip db = (Inr r, db1)"
  shows "\<exists>l. first_row (\<lambda>l. lc_key l = Some (aq_license_key q)) (licenses db1) = Some l \<and>
    recognised E (aq_fingerprint q) (lc_id l) db1"
proof (cases rule: activate_cases [of E now fr q ip db])
  case (activated l d isNew db0 r' db2)
  have db1: "db1 = db2" using ok activated(5) by simp
  note out = issue_session_Inr(1,2) [OF activated(4)]
  have "recognised E (aq_fingerprint q) (lc_id l) db1"
    using activated(3)
  proof (cases rule: bind_device_cases)
    case bound
    from assms(2) self_match [OF assms(1)]
    have "computeMatchScore E (aq_fingerprint q) (hashFingerprintComponents E (aq_fingerprint q)) = 100" by blast
    with bound out db1 show ?thesis
      by (simp add: recognised_def new_device_def blank_device_def MATCH_THRESHOLD_def)
  next
    case (matched x)
    let ?y = "touch_device now q x"
    have "?y \<in> set (devices db1)" using matched(2,6) out db1 by (force simp: in_update_rows)
    moreover have "bound_to (lc_id l) ?y" using matched(3) by (simp add: touch_device_def)
    moreover have "MATCH_THRESHOLD \<le> computeMatchScore E (aq_fingerprint q) (dv_components ?y)"
      using matched(5) by (simp add: touch_device_def)
    ultimately show ?thesis unfolding recognised_def by blast
  qed
  moreover have "map (\<lambda>l. (lc_id l, lc_key l)) (licenses db1) = map (\<lambda>l. (lc_id l, lc_key l)) (licenses db)"
    using bind_device_recognition [OF activated(3), of "aq_fingerprint q" 0] out db1 by (simp add: keeps_recognition_def)
  from first_key_same_id [OF this, of "Some (aq_license_key q)"] activated(1)
  have "map_option lc_id (first_row (\<lambda>l. lc_key l = Some (aq_license_key q)) (licenses db1)) = Some (lc_id l)" by simp
  ultimately show ?thesis by auto
qed (use ok in simp)

lemma recognised_no_new_device:
  assumes "first_row (\<lambda>l. lc_key l = Some (aq_license_key q)) (licenses db) = Some l"
    and "recognised E (aq_fingerprint q) (lc_id l) db"
  shows "map dv_id (devices (snd (activate E now fr q ip db))) = map dv_id (devices db) \<and>
    (\<forall>r. fst (activate E now fr q ip db) = Inr r \<longrightarrow> ar_device r \<in> dv_id ` set (devices db) \<and> ar_score r = None)"
proof (cases rule: activate_cases [of E now fr q ip db])
  case (activated l' d isNew db1 r db2)
  with assms(1) have "l' = l" by simp
  note out = issue_session_Inr [OF activated(4)]
  from activated(3) show ?thesis
  proof (cases rule: bind_device_cases)
    case bound
    with assms(2) \<open>l' = l\<close> have False by (fastforce simp: recognised_def)
    then show ?thesis ..
  next
    case (matched x)
    then show ?thesis using activated(5) out(1,4,5) by (auto simp: map_update_rows_frame touch_device_def)
  qed
qed simp

section \<open>Signatures and replay\<close>

text \<open>What the documentation of AES-GCM promises: decryption inverts encryption under the same key and IV.\<close>

definition aes_inverts :: "device_env \<Rightarrow> bool" where
  "aes_inverts E \<longleftrightarrow>
     (\<forall>key iv plain. case k_aes_enc E key iv plain of (cipher, tag) \<Rightarrow> k_aes_dec E key iv tag cipher = Some plain)"

lemma decrypt_encrypt:
  assumes "aes_inverts E"
  shows "decryptSecret E (encryptSecret E iv plain) = Some plain"
proof -
  obtain c t where ct: "k_aes_enc E (getEncryptionKey E) iv plain = (c, t)" by fastforce
  have "k_aes_dec E (getEncryptionKey E) iv t c = Some plain" 
  proof -
    have "case k_aes_enc E (getEncryptionKey E) iv plain of (c, t) \<Rightarrow> k_aes_dec E (getEncryptionKey E) iv t c = Some plain"
      using assms unfolding aes_inverts_def by simp
    then show ?thesis by (simp add: ct)
  qed
  then show ?thesis
    using js_split_sep [of "CHR '':''" "b64_encode iv" "b64_encode t @ '':'' @ b64_encode c"]
      js_split_sep [of "CHR '':''" "b64_encode t" "b64_encode c"]
    by (simp add: encryptSecret_def decryptSecret_def ct js_split_single)
qed

lemma verify_valid:
  assumes "fst (verifyRequestSignature E now p db) = Valid"
  shows "\<exists>ts c d l. js_parseInt (sp_timestamp p) = Some ts \<and> \<bar>now - ts\<bar> \<le> 30000 \<and>
    active_credential (sp_device p) db = Some (c, d, l) \<and> dv_revoked_at d = None \<and>
    (case l of Some x \<Rightarrow> lc_status x = L_ACTIVE | None \<Rightarrow> True) \<and>
    (\<forall>n\<in>set (nonces db). no_nonce n \<noteq> sp_nonce p) \<and>
    snd (verifyRequestSignature E now p db) = store_nonce now p db"
  using assms by (auto simp: verifyRequestSignature_def clockSkewSeconds_def list_ex_iff split: option.splits if_splits)

text \<open>The nonce stored at a time stays for seven minutes.\<close>

definition nonce_kept :: "string \<Rightarrow> time \<Rightarrow> license_db \<Rightarrow> bool" where
  "nonce_kept n t0 db \<longleftrightarrow> (\<exists>x\<in>set (nonces db). no_nonce x = n \<and> t0 + seconds 120 \<le> no_expires_at x)"

lemma exec_auth_nonces:
  assumes "fst req \<le> t0 + minutes 7" and "nonce_kept n t0 db"
  shows "nonce_kept n t0 (exec_auth E req db)"
proof (cases "(E, req, db)" rule: exec_auth.cases)
  case (1 E' now fr q ip db')
  show ?thesis
  proof (cases rule: activate_cases [of E now fr q ip db])
    case (activated l d isNew db1 r db2)
    have "nonces db1 = nonces db" using activated(3) by (cases rule: bind_device_cases) simp_all
    with issue_session_Inr(3) [OF activated(4)] 1 activated(5) assms(2) show ?thesis by (simp add: nonce_kept_def)
  qed (use 1 assms in simp)
next
  case (2 E' now fr tok dev db')
  show ?thesis
    by (cases rule: refresh_cases [of E now fr tok dev db])
      (use 2 assms in \<open>simp_all add: nonce_kept_def revoke_family_def\<close>)
next
  case (3 E' now d sid b ip db')
  show ?thesis
    by (cases rule: heartbeat_cases [of now d sid b ip db]) (use 3 assms in \<open>simp_all add: nonce_kept_def\<close>)
next
  case (5 E' now p db')
  with verify_snd [of E now p db] assms(2) show ?thesis by (auto simp: nonce_kept_def store_nonce_def)
next
  case (6 E' now db')
  with assms show ?thesis by (fastforce simp: nonce_kept_def prune_telemetry_def)
qed (use assms in \<open>auto simp: nonce_kept_def revokeDevice_def\<close>)

interpretation nonce_store: selective_service "exec_auth E" "\<lambda>s t. nonce_kept n t0 s \<longrightarrow> nonce_kept n t0 t"
  "\<lambda>req. fst req \<le> t0 + minutes 7" for E n t0
  by unfold_locales (auto intro: exec_auth_nonces)

section \<open>Locked out devices\<close>

text \<open>The device is revoked, and its sessions in the given set are closed.\<close>

definition revoked_device :: "uuid \<Rightarrow> device_row \<Rightarrow> bool" where
  "revoked_device d r \<longleftrightarrow> dv_id r = d \<and> dv_revoked_at r \<noteq> None"

definition open_session :: "uuid \<Rightarrow> uuid set \<Rightarrow> lease_row \<Rightarrow> bool" where
  "open_session d S s \<longleftrightarrow> sl_device s = d \<and> sl_session s \<in> S \<and> sl_status s \<noteq> LS_REVOKED"

definition locked_out :: "uuid \<Rightarrow> uuid set \<Rightarrow> license_db \<Rightarrow> bool" where
  "locked_out d S db \<longleftrightarrow> auth_inv db \<and> exists_row (revoked_device d) (devices db) \<and>
     \<not> exists_row (open_session d S) (leases db)"

lemma locked_out_step:
  assumes "locked_out d S db" and "auth_inv db'"
    and "exists_row (revoked_device d) (devices db) \<Longrightarrow> exists_row (revoked_device d) (devices db')"
    and "exists_row (open_session d S) (leases db') \<Longrightarrow> exists_row (open_session d S) (leases db)"
  shows "locked_out d S db'"
  using assms by (auto simp: locked_out_def)

lemmas lockout_rows = exists_row_update_mono [where q = "revoked_device d"]
  exists_row_update_anti [where q = "open_session d S"] for d S

lemma locked_out_unbound:
  assumes "locked_out d S db" and "bind_device E now fr q l db = Inr (d', isNew, db1)"
  shows "d' \<noteq> d" "leases db1 = leases db" "exists_row (revoked_device d) (devices db1)"
proof -
  from assms(1) obtain x where x: "x \<in> set (devices db)" "dv_id x = d" "dv_revoked_at x \<noteq> None"
    by (auto simp: locked_out_def revoked_device_def list_ex_iff)
  from assms(2) have "d' \<noteq> d \<and> leases db1 = leases db \<and> exists_row (revoked_device d) (devices db1)"
  proof (cases rule: bind_device_cases)
    case bound
    with x show ?thesis by (auto simp: list_ex_iff revoked_device_def)
  next
    case (matched r)
    have "r \<noteq> x" using matched(3) x(3) by auto
    with matched(2) x(1) assms(1) have "dv_id r \<noteq> dv_id x"
      using key_unique [of dv_id "devices db" r x] by (auto simp: locked_out_def auth_inv_def)
    moreover have "exists_row (revoked_device d) (devices db)" using assms(1) by (simp add: locked_out_def)
    then have "exists_row (revoked_device d) (update_rows (\<lambda>x. dv_id x = dv_id r) (touch_device now q) (devices db))"
      by (rule exists_row_update_mono) (simp add: revoked_device_def touch_device_def)
    ultimately show ?thesis using matched x(2) by simp
  qed
  then show "d' \<noteq> d" "leases db1 = leases db" "exists_row (revoked_device d) (devices db1)" by simp_all
qed

lemma activate_locked_out:
  assumes lo: "locked_out d S db"
  shows "locked_out d S (snd (activate E now fr q ip db)) \<and>
    (\<forall>r. fst (activate E now fr q ip db) = Inr r \<longrightarrow> ar_device r \<noteq> d)"
proof (cases rule: activate_cases [of E now fr q ip db])
  case (activated l d' isNew db1 r db2)
  note un = locked_out_unbound [OF lo activated(3)]
  note out = issue_session_Inr [OF activated(4)]
  have "auth_inv db2" using lo activate_inv [of db E now fr q ip] activated(5) by (simp add: locked_out_def)
  moreover have "exists_row (open_session d S) (leases db)" if op: "exists_row (open_session d S) (leases db2)"
  proof -
    from out(12) obtain x where x: "sl_device x = d'" "leases db2 =
        update_rows (\<lambda>s. sl_license s = lc_id l \<and> sl_status s = LS_ACTIVE)
          (\<lambda>s. s\<lparr>sl_status := LS_EXPIRED, sl_revoked_at := Some now,
                 sl_reason := Some ''superseded by new activation''\<rparr>) (leases db) @ [x]"
      using un(2) by auto
    have "\<not> open_session d S x" using un(1) x(1) by (simp add: open_session_def)
    with op have "exists_row (open_session d S) (update_rows (\<lambda>s. sl_license s = lc_id l \<and> sl_status s = LS_ACTIVE)
          (\<lambda>s. s\<lparr>sl_status := LS_EXPIRED, sl_revoked_at := Some now,
                 sl_reason := Some ''superseded by new activation''\<rparr>) (leases db))"
      unfolding x(2) by simp
    then show ?thesis by (rule exists_row_update_anti) (simp add: open_session_def)
  qed
  ultimately have "locked_out d S db2" using un(3) out(1) by (intro locked_out_step [OF lo]) simp_all
  with activated(5) out(5) un(1) show ?thesis by simp
qed (use lo in simp)

lemma exec_auth_locked_out: "locked_out d S db \<Longrightarrow> locked_out d S (exec_auth E req db)"
proof -
  assume lo: "locked_out d S db"
  then have inv: "auth_inv (exec_auth E req db)" by (auto simp: locked_out_def intro: exec_auth_inv)
  note step = locked_out_step [OF lo inv]
  show ?thesis
  proof (cases "(E, req, db)" rule: exec_auth.cases)
    case (1 E' now fr q ip db')
    then show ?thesis using activate_locked_out [OF lo, of E now fr q ip] by simp
  next
    case (2 E' now fr tok dev db')
    show ?thesis
    proof (cases rule: refresh_cases [of E now fr tok dev db])
      case (reuse t)
      show ?thesis
        by (rule step) (use 2 reuse in \<open>auto simp: revoke_family_def open_session_def elim!: lockout_rows\<close>)
    next
      case (rotated t r n)
      show ?thesis
        by (rule step)
          (use 2 rotated in \<open>auto simp: revoked_device_def open_session_def intro!: lockout_rows(1) elim!: lockout_rows(2)\<close>)
    qed (use 2 lo in simp)
  next
    case (3 E' now d' sid b ip db')
    show ?thesis
    proof (cases rule: heartbeat_cases [of now d' sid b ip db])
      case (renewed s r acts)
      have uniq: "x = s" if "x \<in> set (leases db)" "sl_id x = sl_id s" for x
        by (rule key_unique [of sl_id "leases db"])
          (use that renewed(1) lo in \<open>simp_all add: locked_out_def auth_inv_def\<close>)
      then have live: "sl_status x \<noteq> LS_REVOKED" if "x \<in> set (leases db)" "sl_id x = sl_id s" for x
        using that renewed(4) by auto
      show ?thesis
      proof (rule step)
        show "exists_row (revoked_device d) (devices db) \<Longrightarrow> exists_row (revoked_device d) (devices (exec_auth E req db))"
          using 3 renewed(5) by (auto simp: revoked_device_def report_metadata_def intro!: lockout_rows(1))
        assume "exists_row (open_session d S) (leases (exec_auth E req db))"
        with 3 renewed(5) have "exists_row (open_session d S) (update_rows (\<lambda>r. sl_id r = sl_id s)
           (\<lambda>r. r\<lparr>sl_heartbeat_at := now, sl_expires_at := now + seconds 45, sl_status := LS_ACTIVE, sl_ip := ip\<rparr>)
           (leases db))" by simp
        then show "exists_row (open_session d S) (leases db)"
          by (rule exists_row_update_anti) (simp add: open_session_def live)
      qed
    qed (use 3 lo in simp)
  next
    case (4 E' now d' reason db')
    show ?thesis
      by (rule step)
        (use 4 in \<open>auto simp: revokeDevice_def revoked_device_def open_session_def
           intro!: lockout_rows(1) elim!: lockout_rows(2)\<close>)
  next
    case (5 E' now p db')
    show ?thesis
      by (rule step) (use 5 verify_snd [of E now p db] in \<open>auto simp: store_nonce_def\<close>)
  next
    case (6 E' now db')
    show ?thesis
      by (rule step) (use 6 in \<open>auto simp: prune_telemetry_def list_ex_iff\<close>)
  qed
qed

interpretation device_lockout: guarded_service "exec_auth E" "locked_out d S" for E d S
  by unfold_locales (rule exec_auth_locked_out)

lemma revoke_locks_out:
  assumes "auth_inv db" and "d \<in> dv_id ` set (devices db)"
    and "\<forall>x\<in>set (leases db). sl_device x = d \<and> sl_session x = sid \<longrightarrow> sl_status x \<noteq> LS_EXPIRED"
  shows "locked_out d {sid} (revokeDevice t d reason db)"
proof -
  have "auth_inv (revokeDevice t d reason db)" using exec_auth_inv [OF assms(1), of E "(t, RevokeDevice d reason)"] by simp
  moreover have "exists_row (revoked_device d) (devices (revokeDevice t d reason db))"
  proof -
    from assms(2) obtain x where "x \<in> set (devices db)" "dv_id x = d" by blast
    from update_rows_hit [OF this(1), of "\<lambda>r. dv_id r = d"
        "\<lambda>r. r\<lparr>dv_revoked_at := Some t, dv_reason := Some reason, dv_status := ''OFFLINE''\<rparr>"] this(2)
    show ?thesis unfolding revokeDevice_def list_ex_iff revoked_device_def by (intro bexI) auto
  qed
  moreover have "\<not> exists_row (open_session d {sid}) (leases (revokeDevice t d reason db))"
  proof -
    have "sl_status x = LS_ACTIVE \<or> sl_status x = LS_REVOKED"
      if "x \<in> set (leases db)" "sl_device x = d" "sl_session x = sid" for x
      using assms(3) that by (cases "sl_status x") auto
    then have "\<forall>x\<in>set (leases (revokeDevice t d reason db)). \<not> open_session d {sid} x"
      unfolding revokeDevice_def open_session_def by (auto simp: ball_update_rows)
    then show ?thesis by (auto simp: list_ex_iff)
  qed
  ultimately show ?thesis by (simp add: locked_out_def)
qed

lemma locked_out_unsigned:
  assumes lo: "locked_out (sp_device p) S db"
  shows "fst (verifyRequestSignature E now p db) \<noteq> Valid"
proof
  assume v: "fst (verifyRequestSignature E now p db) = Valid"
  then obtain c x l where "active_credential (sp_device p) db = Some (c, x, l)" "dv_revoked_at x = None"
    using verify_valid [OF v] by auto
  then have x: "x \<in> set (devices db)" "dv_id x = sp_device p" "dv_revoked_at x = None"
    by (auto simp: active_credential_def split: option.splits dest: first_row_Some)
  from lo obtain y where y: "y \<in> set (devices db)" "dv_id y = sp_device p" "dv_revoked_at y \<noteq> None"
    by (auto simp: locked_out_def revoked_device_def list_ex_iff)
  have "x = y"
    by (rule key_unique [of dv_id "devices db"]) (use x y lo in \<open>simp_all add: locked_out_def auth_inv_def\<close>)
  with x y show False by simp
qed

lemma locked_out_heartbeat:
  assumes "locked_out d S db" "sid \<in> S"
  shows "\<not> ok (fst (heartbeat now d sid b ip db))"
proof (cases rule: heartbeat_cases [of now d sid b ip db])
  case (renewed x r acts)
  with assms show ?thesis by (auto simp: locked_out_def open_session_def list_ex_iff)
qed simp

text \<open>The device an activation answers with is bound to the license, which it leaves active.\<close>

lemma bind_device_live:
  assumes "bind_device E t1 fr q l db = Inr (d, isNew, db0)" and "auth_inv db" and l: "l \<in> set (licenses db)"
    and "isNew \<or> lc_status l = L_ACTIVE" and db1: "devices db1 = devices db0" "licenses db1 = licenses db0"
  shows "\<exists>x\<in>set (devices db1). dv_id x = d \<and> bound_to (lc_id l) x \<and>
      (\<forall>y\<in>set (licenses db1). lc_id y = lc_id l \<longrightarrow> lc_status y = L_ACTIVE)"
  using assms(1)
proof (cases rule: bind_device_cases)
  case bound
  then have "new_device E t1 fr q l \<in> set (devices db1)" "\<forall>y\<in>set (licenses db1). lc_id y = lc_id l \<longrightarrow> lc_status y = L_ACTIVE"
    using db1 by (auto simp: in_update_rows)
  with bound(2) show ?thesis by (intro bexI [of _ "new_device E t1 fr q l"]) (simp_all add: new_device_def blank_device_def)
next
  case (matched x)
  then have "touch_device t1 q x \<in> set (devices db1)" using db1(1) by (auto simp: in_update_rows)
  moreover have "lc_status l = L_ACTIVE" using assms(4) matched(1) by simp
  moreover have "y = l" if "y \<in> set (licenses db1)" "lc_id y = lc_id l" for y
    by (rule key_unique [of lc_id "licenses db"])
      (use that matched(6) db1(2) l assms(2) in \<open>simp_all add: auth_inv_def\<close>)
  ultimately show ?thesis using matched(3,4)
    by (intro bexI [of _ "touch_device t1 q x"]) (auto simp: touch_device_def)
qed

lemma active_credential_found:
  assumes "auth_inv db" and x: "x \<in> set (devices db)" "dv_id x = d" "bound_to i x"
    and "filter (\<lambda>c. cr_device c = d \<and> cr_revoked_at c = None) (credentials db) = [c]"
  shows "active_credential d db = Some (c, x, first_row (\<lambda>z. lc_id z = i) (licenses db))"
proof -
  have "first_row (\<lambda>r. dv_id r = d) (devices db) = Some x"
    using first_row_unique [of dv_id "devices db" x] assms(1) x(1,2) by (simp add: auth_inv_def)
  with latest_only [OF assms(5), of cr_issued_at] x(3) show ?thesis by (simp add: active_credential_def)
qed

section \<open>Examples\<close>

definition example_env :: device_env where
  "example_env = \<lparr>k_sha_hex = (\<lambda>s. s), k_sha_raw = (\<lambda>s. s), k_hmac_hex = (\<lambda>k m. ''ab''),
     k_aes_enc = (\<lambda>key iv p. (p, key @ iv)),
     k_aes_dec = (\<lambda>key iv tag c. if tag = key @ iv then Some c else None),
     k_jwt = (\<lambda>claims ttl now. ''jwt''), k_uuid = (\<lambda>n. ''id''), env_jwt_secret = Some ''s''\<rparr>"

definition example_license :: license_row where
  "example_license = \<lparr>lc_id = 1, lc_user = 2, lc_plan = 3, lc_subscription = None, lc_key = Some ''K'',
     lc_status = L_ACTIVE, lc_issued_at = 0, lc_expires_at = None, lc_max_devices = 1, lc_max_mt = 1,
     lc_strategies = [''STANDARD_SCALPING''], lc_modes = [], lc_suspended_at = None, lc_revoked_at = None,
     lc_reason = None, lc_created_at = 0, lc_updated_at = 0\<rparr>"

definition example_licenses :: license_db where
  "example_licenses = \<lparr>licenses = [example_license], devices = [], activations = [], credentials = [],
     refresh_tokens = [], leases = [], nonces = [], license_events = [], license_plans = [], license_subs = [],
     license_users = [2]\<rparr>"

definition example_activation :: activation_request where
  "example_activation = \<lparr>aq_license_key = ''K'', aq_client_type = ''MT5'', aq_role = Some ''exec'',
     aq_fingerprint = \<lparr>fp_machine_guid = Some ''m'', fp_system_uuid = None, fp_motherboard = None, fp_disk = None,
       fp_installation_id = None, fp_os = None\<rparr>, aq_terminal = None, aq_mt = None\<rparr>"

definition example_fresh :: "nat \<Rightarrow> string \<Rightarrow> fresh" where
  "example_fresh n tok = \<lparr>fr_device = n, fr_installation = n, fr_secret = tok, fr_family = n, fr_iv = tok,
     fr_credential = n, fr_refresh = tok, fr_refresh_id = n, fr_session = n, fr_lease = n, fr_activation = n\<rparr>"

lemmas example_device_defs = example_env_def example_license_def example_licenses_def example_activation_def
  example_fresh_def

lemma example_licenses_inv: "auth_inv example_licenses"
  by (simp add: auth_inv_def within_slots_def example_device_defs)

lemma example_env_facts: "aes_inverts example_env" "\<forall>v. hashComponent example_env v \<noteq> []"
  by (simp_all add: aes_inverts_def hashComponent_def example_env_def)

abbreviation example_device_db :: license_db where
  "example_device_db \<equiv> snd (activate example_env 0 (example_fresh 7 ''t'') example_activation None example_licenses)"

section \<open>Properties\<close>

text \<open>
  C19. A refresh token buys one rotation. Once it has been exchanged, every later exchange of it
  fails, whatever happened in between, and while its row exists the attempt revokes every refresh
  token and every credential of its family. The only assumption on the random source is that no
  later draw collides with the hash of the token.
\<close>

theorem refresh_token_single_use:
  assumes "auth_inv db" and "refresh E t1 fr tok dev db = (Inr r, db1)"
    and "\<forall>req\<in>set reqs. drawn_hash E req \<noteq> Some (hashSecret E tok)"
    and "db2 = run_requests (exec_auth E) reqs db1" and "db3 = snd (refresh E t2 fr' tok dev' db2)"
  shows "\<not> ok (fst (refresh E t2 fr' tok dev' db2)) \<and>
    (\<forall>t\<in>set (refresh_tokens db2). rt_hash t = hashSecret E tok \<longrightarrow>
       (\<forall>x\<in>set (refresh_tokens db3). rt_family x = rt_family t \<longrightarrow> rt_revoked_at x \<noteq> None) \<and>
       (\<forall>c\<in>set (credentials db3). cr_family c = rt_family t \<longrightarrow> cr_revoked_at c \<noteq> None))"
proof -
  have "auth_inv db1" using exec_auth_inv [OF assms(1), of E "(t1, Refresh fr tok dev)"] assms(2) by simp
  then have inv: "auth_inv db2" unfolding assms(4) by (rule device_slots.run_inv)
  have sp: "spent (hashSecret E tok) db2"
    using token_rotation.run_sel_leq [OF assms(3)] refresh_spends [OF assms(1,2)] assms(4) by blast
  show ?thesis
  proof (intro conjI ballI impI)
    show "\<not> ok (fst (refresh E t2 fr' tok dev' db2))" by (rule spent_refused [OF sp])
  next
    fix t x assume t: "t \<in> set (refresh_tokens db2)" "rt_hash t = hashSecret E tok"
      and x: "x \<in> set (refresh_tokens db3)" "rt_family x = rt_family t"
    from x show "rt_revoked_at x \<noteq> None"
      unfolding assms(5) spent_revokes_family [OF inv sp t] using revoke_family_revokes(1) by blast
  next
    fix t c assume t: "t \<in> set (refresh_tokens db2)" "rt_hash t = hashSecret E tok"
      and c: "c \<in> set (credentials db3)" "cr_family c = rt_family t"
    from c show "cr_revoked_at c \<noteq> None"
      unfolding assms(5) spent_revokes_family [OF inv sp t] using revoke_family_revokes(2) by blast
  qed
qed

theorem refresh_token_single_use_witness:
  "\<not> ok (fst (refresh example_env 3 (example_fresh 9 ''w'') ''t'' None
     (run_requests (exec_auth example_env) [(2, RevokeDevice 5 ''x'')]
       (snd (refresh example_env 1 (example_fresh 8 ''u'') ''t'' None example_device_db)))))"
proof -
  have "auth_inv example_device_db" by (rule activate_inv [OF example_licenses_inv])
  moreover have "ok (fst (refresh example_env 1 (example_fresh 8 ''u'') ''t'' None example_device_db))" by code_simp
  then obtain r where "refresh example_env 1 (example_fresh 8 ''u'') ''t'' None example_device_db =
      (Inr r, snd (refresh example_env 1 (example_fresh 8 ''u'') ''t'' None example_device_db))"
    by (metis ok_iff prod.collapse)
  moreover have "\<forall>req\<in>set [(2, RevokeDevice 5 ''x'')]. drawn_hash example_env req \<noteq> Some (hashSecret example_env ''t'')"
    by simp
  ultimately show ?thesis using refresh_token_single_use [OF _ _ _ refl refl] by blast
qed

text \<open>
  A device that activates again with the fingerprint it was activated with is recognised: whatever
  happened since, short of a revocation, the activation binds no second device and answers with one
  that was already bound.
\<close>

theorem reactivation_reuses_device:
  assumes "\<forall>v. hashComponent E v \<noteq> []" and "\<exists>c\<in>set component_names. fp_component (aq_fingerprint q) c \<noteq> None"
    and "activate E t1 fr q ip db = (Inr r, db1)" and "\<forall>req\<in>set reqs. \<not> revokes req"
    and "db2 = run_requests (exec_auth E) reqs db1"
    and "aq_license_key q' = aq_license_key q" "aq_fingerprint q' = aq_fingerprint q"
  shows "map dv_id (devices (snd (activate E t2 fr' q' ip' db2))) = map dv_id (devices db2) \<and>
    (\<forall>r'. fst (activate E t2 fr' q' ip' db2) = Inr r' \<longrightarrow> ar_device r' \<in> dv_id ` set (devices db2) \<and> ar_score r' = None)"
proof -
  obtain l where l: "first_row (\<lambda>l. lc_key l = Some (aq_license_key q)) (licenses db1) = Some l"
    "recognised E (aq_fingerprint q) (lc_id l) db1"
    using activate_recognised [OF assms(1-3)] by blast
  have keep: "keeps_recognition E (aq_fingerprint q) (lc_id l) db1 db2"
    unfolding assms(5) by (rule device_recognition.run_sel_leq [OF assms(4)])
  then have "map_option lc_id (first_row (\<lambda>l. lc_key l = Some (aq_license_key q)) (licenses db2)) = Some (lc_id l)"
    using first_key_same_id [of "licenses db2" "licenses db1" "Some (aq_license_key q)"] l(1)
    by (simp add: keeps_recognition_def)
  then obtain l' where "first_row (\<lambda>l. lc_key l = Some (aq_license_key q)) (licenses db2) = Some l'" "lc_id l' = lc_id l"
    by auto
  moreover have "recognised E (aq_fingerprint q) (lc_id l) db2" using keep l(2) by (simp add: keeps_recognition_def)
  ultimately show ?thesis using recognised_no_new_device [of q' db2 l' E t2 fr' ip'] assms(6,7) by simp
qed

theorem reactivation_reuses_device_witness:
  "map dv_id (devices (snd (activate example_env 1 (example_fresh 8 ''u'') example_activation None example_device_db))) = [7]"
proof -
  have "\<exists>c\<in>set component_names. fp_component (aq_fingerprint example_activation) c \<noteq> None"
    by (simp add: component_names_def fp_component_def example_activation_def or_null_def)
  moreover have "ok (fst (activate example_env 0 (example_fresh 7 ''t'') example_activation None example_licenses))"
    by code_simp
  then obtain r where "activate example_env 0 (example_fresh 7 ''t'') example_activation None example_licenses =
      (Inr r, example_device_db)"
    by (metis ok_iff prod.collapse)
  ultimately have "map dv_id (devices (snd (activate example_env 1 (example_fresh 8 ''u'') example_activation None
      (run_requests (exec_auth example_env) [] example_device_db)))) =
    map dv_id (devices (run_requests (exec_auth example_env) [] example_device_db))"
    using reactivation_reuses_device [OF example_env_facts(2) _ _ _ refl refl refl, of example_activation 0
        "example_fresh 7 ''t''" None example_licenses r example_device_db "[]" 1 "example_fresh 8 ''u''" None] by simp
  moreover have "map dv_id (devices example_device_db) = [7]" by code_simp
  ultimately show ?thesis by simp
qed

text \<open>
  C20. What an activation hands out works: a request signed with the returned secret, with a fresh nonce
  and a timestamp within the clock skew, is accepted for thirty days, when the license is active. This
  includes the round trip of the secret through its encrypted storage.
\<close>

theorem activated_device_signs:
  assumes "aes_inverts E" and "auth_inv db" and "activate E t1 fr q ip db = (Inr r, db1)" and "ar_secret r \<noteq> []"
    and "ar_score r = Some 100 \<or>
      (\<forall>l. first_row (\<lambda>l. lc_key l = Some (aq_license_key q)) (licenses db) = Some l \<longrightarrow> lc_status l = L_ACTIVE)"
    and "sp_device p = ar_device r" and "js_parseInt (sp_timestamp p) = Some ts" and "\<bar>t2 - ts\<bar> \<le> 30000"
    and "t2 \<le> t1 + days 30" and "\<forall>n\<in>set (nonces db). no_nonce n \<noteq> sp_nonce p"
    and "from_hex (sp_signature p) = from_hex (k_hmac_hex E (ar_secret r) (canonical_request E p))"
  shows "fst (verifyRequestSignature E t2 p db1) = Valid"
proof (cases rule: activate_cases [of E t1 fr q ip db])
  case (activated l d isNew db0 r' db2)
  have eq: "db2 = db1" "r' = r" using activated(5) assms(3) by simp_all
  note out = issue_session_Inr [OF activated(4), unfolded eq]
  have inv1: "auth_inv db1" using activate_inv [OF assms(2), of E t1 fr q ip] assms(3) by simp
  obtain c where c: "credentials db1 = update_rows (\<lambda>c. cr_device c = d \<and> cr_revoked_at c = None)
      (\<lambda>c. c\<lparr>cr_revoked_at := Some t1, cr_reason := Some '' superseded''\<rparr>) (credentials db0) @ [c]"
    "cr_device c = d" "cr_hash c = encryptSecret E (fr_iv fr) (fr_secret fr)" "cr_revoked_at c = None"
    "cr_expires_at c = Some (t1 + days 30)" using out(11) by blast
  have only: "filter (\<lambda>c. cr_device c = d \<and> cr_revoked_at c = None) (credentials db1) = [c]"
    unfolding c(1) using c(2,4) by (auto simp: filter_empty_conv in_update_rows)
  have "isNew \<or> lc_status l = L_ACTIVE" using assms(5) activated(1) out(4) by (cases isNew) simp_all
  then obtain x where x: "x \<in> set (devices db1)" "dv_id x = d" "bound_to (lc_id l) x"
    "\<forall>y\<in>set (licenses db1). lc_id y = lc_id l \<longrightarrow> lc_status y = L_ACTIVE"
    using bind_device_live [OF activated(3) assms(2)] first_row_Some [OF activated(1)] out(1,2) by blast
  note active = active_credential_found [OF inv1 x(1-3) only]
  have lic: "(case first_row (\<lambda>z. lc_id z = lc_id l) (licenses db1) of Some z \<Rightarrow> lc_status z \<noteq> L_ACTIVE | None \<Rightarrow> False) = False"
    using x(4) by (auto split: option.splits dest: first_row_Some)
  have "nonces db0 = nonces db" using activated(3) by (cases rule: bind_device_cases) simp_all
  with assms(10) out(3) have nonce: "\<not> exists_row (\<lambda>n. no_nonce n = sp_nonce p) (nonces db1)" by (auto simp: list_ex_iff)
  have "check_signature E p (cr_hash c) = Valid"
    using decrypt_encrypt [OF assms(1), of "fr_iv fr" "fr_secret fr"] assms(4,11) out(6) c(3)
    by (simp add: check_signature_def or_null_def)
  then show ?thesis
    using assms(6-9) out(5) active lic nonce x(3) c(5)
    by (simp add: verifyRequestSignature_def clockSkewSeconds_def)
qed (use assms(3) in simp)

definition example_signed :: signed_request where
  "example_signed = \<lparr>sp_device = 7, sp_method = ''post'', sp_path = ''/p'', sp_body_hash = ''h'', sp_timestamp = ''5'',
     sp_nonce = ''n'', sp_signature = ''ab'', sp_version = None\<rparr>"

theorem activated_device_signs_witness:
  "fst (verifyRequestSignature example_env 6 example_signed example_device_db) = Valid"
proof -
  let ?act = "activate example_env 0 (example_fresh 7 ''t'') example_activation None example_licenses"
  have "ok (fst ?act)" by code_simp
  then obtain r where f: "fst ?act = Inr r" by (auto simp: ok_iff)
  then have r: "?act = (Inr r, example_device_db)" by (metis prod.collapse)
  have "(case fst ?act of Inr r \<Rightarrow> (ar_device r, ar_secret r, ar_score r) | Inl _ \<Rightarrow> (0, [], None)) = (7, ''t'', Some 100)"
    by code_simp
  then have "ar_device r = 7" "ar_secret r = ''t''" "ar_score r = Some 100" by (simp_all only: f sum.case prod.inject)
  moreover have "js_parseInt (sp_timestamp example_signed) = Some 5" by code_simp
  ultimately show ?thesis
    using activated_device_signs [OF example_env_facts(1) example_licenses_inv r, of example_signed 5 6]
    by (simp add: example_signed_def example_device_defs)
qed

text \<open>
  C21. A signed request is accepted once. A replay with the same nonce and timestamp is refused at any
  later time, also when the pruning job has meanwhile forgotten the nonce: by then the timestamp is
  outside the window.
\<close>

theorem signed_request_no_replay:
  assumes "verifyRequestSignature E t1 p db = (Valid, db1)" and "db2 = run_requests (exec_auth E) reqs db1"
    and "\<forall>req\<in>set reqs. fst req \<le> t2"
    and "sp_nonce p' = sp_nonce p" "sp_timestamp p' = sp_timestamp p"
  shows "fst (verifyRequestSignature E t2 p' db2) \<noteq> Valid"
proof
  assume v2: "fst (verifyRequestSignature E t2 p' db2) = Valid"
  obtain ts where ts: "js_parseInt (sp_timestamp p) = Some ts" "\<bar>t1 - ts\<bar> \<le> 30000" "db1 = store_nonce t1 p db"
    using verify_valid [of E t1 p db] assms(1) by auto
  have w2: "\<bar>t2 - ts\<bar> \<le> 30000" "\<forall>n\<in>set (nonces db2). no_nonce n \<noteq> sp_nonce p"
    using verify_valid [OF v2] ts(1) assms(4,5) by auto
  have "t2 \<le> t1 + minutes 7" using w2(1) ts(2) by linarith
  with assms(3) have "\<forall>req\<in>set reqs. fst req \<le> t1 + minutes 7" by auto
  from nonce_store.run_sel_leq [OF this, of "sp_nonce p" db1 E]
  have "nonce_kept (sp_nonce p) t1 db2" unfolding assms(2) by (auto simp: ts(3) nonce_kept_def store_nonce_def)
  with w2(2) show False by (auto simp: nonce_kept_def)
qed

theorem signed_request_no_replay_witness:
  "fst (verifyRequestSignature example_env 9 example_signed
     (run_requests (exec_auth example_env) [(8, Prune)]
       (snd (verifyRequestSignature example_env 6 example_signed example_device_db)))) \<noteq> Valid"
proof -
  have "fst (verifyRequestSignature example_env 6 example_signed example_device_db) = Valid" by code_simp
  then have "verifyRequestSignature example_env 6 example_signed example_device_db =
      (Valid, snd (verifyRequestSignature example_env 6 example_signed example_device_db))"
    by (metis prod.collapse)
  from signed_request_no_replay [OF this refl, of "[(8, Prune)]" 9 example_signed] show ?thesis by simp
qed

text \<open>
  Revoking a device locks it out of the service for good: afterwards no request signed for it is
  valid, the sessions it had open are refused by the heartbeat, and no activation answers with it.
\<close>

theorem revoked_device_locked_out:
  assumes "auth_inv db" and "d \<in> dv_id ` set (devices db)" and "s \<in> set (leases db)" "sl_device s = d" "sl_status s = LS_ACTIVE"
    and "\<forall>x\<in>set (leases db). sl_device x = d \<and> sl_session x = sl_session s \<longrightarrow> sl_status x \<noteq> LS_EXPIRED"
    and "db2 = run_requests (exec_auth E) reqs (revokeDevice t d reason db)"
  shows "(sp_device p = d \<longrightarrow> fst (verifyRequestSignature E now p db2) \<noteq> Valid) \<and>
    \<not> ok (fst (heartbeat now d (sl_session s) b ip db2)) \<and>
    (\<forall>r. fst (activate E now fr q ip db2) = Inr r \<longrightarrow> ar_device r \<noteq> d)"
proof -
  have "locked_out d {sl_session s} (revokeDevice t d reason db)" by (rule revoke_locks_out [OF assms(1,2,6)])
  then have lo: "locked_out d {sl_session s} db2" unfolding assms(7) by (rule device_lockout.run_inv)
  have "\<not> ok (fst (heartbeat now d (sl_session s) b ip db2))" by (rule locked_out_heartbeat [OF lo]) simp
  with lo show ?thesis using locked_out_unsigned [of p _ db2 E now] activate_locked_out [OF lo] by blast
qed

theorem revoked_device_locked_out_witness:
  "fst (verifyRequestSignature example_env 6 example_signed
     (run_requests (exec_auth example_env) [(2, Activate (example_fresh 8 ''u'') example_activation None)]
       (revokeDevice 1 7 ''lost'' example_device_db))) \<noteq> Valid"
proof -
  have inv: "auth_inv example_device_db" by (rule activate_inv [OF example_licenses_inv])
  have "map (\<lambda>s. (sl_device s, sl_session s, sl_status s)) (leases example_device_db) = [(7, 7, LS_ACTIVE)]" by code_simp
  then obtain s where s: "leases example_device_db = [s]" "sl_device s = 7" "sl_status s = LS_ACTIVE"
    by (auto simp: map_eq_Cons_conv)
  moreover have "map dv_id (devices example_device_db) = [7]" by code_simp
  then have "7 \<in> dv_id ` set (devices example_device_db)" by (metis list.set_intros(1) list.set_map)
  ultimately show ?thesis
    using revoked_device_locked_out [OF inv _ _ _ _ _ refl, where d = 7 and s = s and p = example_signed
        and E = example_env and now = 6 and t = 1 and reason = "''lost''"
        and reqs = "[(2, Activate (example_fresh 8 ''u'') example_activation None)]"]
    by (simp add: example_signed_def)
qed

end
