(* ===== verification/LicenseControl.thy ===== *)
theory LicenseControl
  imports DeviceAuth Licensing
begin

text \<open>
  The device authentication and the licensing service on the same tables: the requests of terminals,
  of users and of the administrator in any order. Two properties span them: a license that carries a
  revocation is refused by both services, and no interleaving of terminals and users binds more
  devices to a license than it has slots.
\<close>

section \<open>The combined service\<close>

datatype control_request =
    DeviceReq auth_request
  | UserReq uuid user_licensing
  | AdminReq admin_licensing

fun exec_control :: "device_env \<Rightarrow> licensing_env \<Rightarrow> time \<times> control_request \<Rightarrow> license_db \<Rightarrow> license_db" where
  "exec_control E L (now, DeviceReq r) db = exec_auth E (now, r) db"
| "exec_control E L (now, UserReq u r) db = exec_user_licensing L (now, u, r) db"
| "exec_control E L (now, AdminReq r) db = exec_admin_licensing L (now, r) db"

section \<open>Revoked licenses\<close>

definition revocation_consistent :: "license_row \<Rightarrow> bool" where
  "revocation_consistent l \<longleftrightarrow>
     (lc_status l = L_ACTIVE \<or> lc_status l = L_PENDING \<longrightarrow> lc_revoked_at l = None) \<and>
     (lc_status l = L_REVOKED \<longrightarrow> lc_revoked_at l \<noteq> None)"

definition license_inv :: "license_db \<Rightarrow> bool" where
  "license_inv db \<longleftrightarrow> distinct (map lc_id (licenses db)) \<and> (\<forall>l\<in>set (licenses db). revocation_consistent l)"

lemma license_inv_same: "license_inv db \<Longrightarrow> licenses db' = licenses db \<Longrightarrow> license_inv db'"
  by (simp add: license_inv_def)

lemma license_inv_update:
  assumes "license_inv db" and "licenses db' = update_rows p f (licenses db)" and "\<And>r. lc_id (f r) = lc_id r"
    and "\<And>r. r \<in> set (licenses db) \<Longrightarrow> p r \<Longrightarrow> revocation_consistent r \<Longrightarrow> revocation_consistent (f r)"
  shows "license_inv db'"
  using assms by (auto simp: license_inv_def map_update_rows_frame ball_update_rows)

lemma license_inv_insert:
  assumes "license_inv db" and "licenses db' = licenses db @ [l]" and "\<not> exists_row (\<lambda>r. lc_id r = lc_id l) (licenses db)"
    and "revocation_consistent l"
  shows "license_inv db'"
proof -
  have "distinct (map lc_id (licenses db'))"
    unfolding assms(2) by (rule distinct_insert_key) (use assms in \<open>simp_all add: license_inv_def\<close>)
  with assms show ?thesis by (auto simp: license_inv_def)
qed

lemmas row_consistent = revocation_consistent_def sync_plan_def reactivate_def activate_row_def renew_row_def
  change_plan_row_def issued_license_def

lemma exec_auth_license_inv: "license_inv db \<Longrightarrow> license_inv (exec_auth E req db)"
proof (cases "(E, req, db)" rule: exec_auth.cases)
  case (1 E' now fr q ip db')
  assume inv: "license_inv db"
  show ?thesis
  proof (cases rule: activate_cases [of E now fr q ip db])
    case (activated l d isNew db1 r db2)
    have l: "l \<in> set (licenses db)" using first_row_Some [OF activated(1)] by simp
    have ok: "lc_revoked_at l = None"
      using inv l activated(2) by (auto simp: license_inv_def revocation_consistent_def license_gate_def split: if_splits)
    have uniq: "x = l" if "x \<in> set (licenses db)" "lc_id x = lc_id l" for x
      by (rule key_unique [of lc_id "licenses db"]) (use inv l that in \<open>simp_all add: license_inv_def\<close>)
    have "license_inv db1" using activated(3)
    proof (cases rule: bind_device_cases)
      case bound
      show ?thesis
        by (rule license_inv_update [OF inv, of _ "\<lambda>r. lc_id r = lc_id l" "\<lambda>r. r\<lparr>lc_status := L_ACTIVE, lc_updated_at := now\<rparr>"])
          (use bound(6) uniq ok in \<open>auto simp: revocation_consistent_def\<close>)
    next
      case (matched x)
      then show ?thesis by (intro license_inv_same [OF inv]) simp
    qed
    then show ?thesis using issue_session_Inr(2) [OF activated(4)] 1 activated(5) by (simp add: license_inv_same)
  qed (use 1 inv in simp)
next
  case (2 E' now fr tok dev db')
  assume inv: "license_inv db"
  show ?thesis
    by (cases rule: refresh_cases [of E now fr tok dev db]; rule license_inv_same [OF inv])
      (use 2 in \<open>simp_all add: revoke_family_def\<close>)
next
  case (3 E' now d sid b ip db')
  assume inv: "license_inv db"
  show ?thesis
    by (cases rule: heartbeat_cases [of now d sid b ip db]; rule license_inv_same [OF inv]) (use 3 in simp_all)
next
  case (4 E' now d reason db')
  assume inv: "license_inv db"
  show ?thesis by (rule license_inv_same [OF inv]) (use 4 in \<open>simp add: revokeDevice_def\<close>)
next
  case (5 E' now p db')
  assume inv: "license_inv db"
  show ?thesis by (rule license_inv_same [OF inv]) (use 5 verify_snd [of E now p db] in \<open>auto simp: store_nonce_def\<close>)
next
  case (6 E' now db')
  assume inv: "license_inv db"
  show ?thesis by (rule license_inv_same [OF inv]) (use 6 in \<open>simp add: prune_telemetry_def\<close>)
qed

lemma ensure_license_inv:
  assumes inv: "license_inv db"
  shows "license_inv (snd (ensureActiveLicenseForSubscription now i key sub db))"
proof (cases rule: ensure_cases [of now i key sub db])
  case (synced s p l db')
  show ?thesis
    by (rule license_inv_update [OF inv, of _ "\<lambda>r. lc_id r = lc_id l" "sync_plan now p sub"])
      (use synced in \<open>simp_all add: row_consistent\<close>)
next
  case (active s p l db')
  from active(7) show ?thesis
  proof
    assume "db' = update_license (lc_id l) (\<lambda>r. r\<lparr>lc_subscription := Some sub, lc_updated_at := now\<rparr>) db"
    then show ?thesis
      by (intro license_inv_update [OF inv, of _ "\<lambda>r. lc_id r = lc_id l"
            "\<lambda>r. r\<lparr>lc_subscription := Some sub, lc_updated_at := now\<rparr>"])
        (use active(6) in \<open>simp_all add: row_consistent\<close>)
  qed (use active(6) inv in simp)
next
  case (reactivated s p l db')
  show ?thesis
    by (rule license_inv_update [OF inv, of _ "\<lambda>r. lc_id r = lc_id l" "reactivate now p sub"])
      (use reactivated in \<open>simp_all add: row_consistent\<close>)
next
  case (issued s p db')
  show ?thesis
    by (rule license_inv_insert [OF inv, of _ "issued_license now i key (ls_user s) p sub"])
      (use issued in \<open>simp_all add: row_consistent\<close>)
qed (use inv in simp_all)

lemma update_license_inv:
  assumes "license_inv db" and "\<And>r. lc_id (f r) = lc_id r" "\<And>r. revocation_consistent r \<Longrightarrow> revocation_consistent (f r)"
  shows "license_inv (update_license lid f db)"
  by (rule license_inv_update [OF assms(1), of _ "\<lambda>r. lc_id r = lid" f]) (use assms in simp_all)

lemma log_license_inv [simp]: "license_inv (logLicenseEvent now l t r db) = license_inv db"
  by (simp add: license_inv_def)

lemma unrevoke_license_inv [simp]: "license_inv (unrevoke_devices now l db) = license_inv db"
  by (simp add: license_inv_def)

lemma insert_license_inv:
  assumes "license_inv db" "revocation_consistent l"
  shows "license_inv (snd (insert_license l db))"
proof (cases "exists_row (\<lambda>r. lc_id r = lc_id l \<or> lc_key r = lc_key l) (licenses db)")
  case False
  then have "\<not> exists_row (\<lambda>r. lc_id r = lc_id l) (licenses db)" by (auto simp: list_ex_iff)
  moreover from False have "licenses (snd (insert_license l db)) = licenses db @ [l]" by (simp add: insert_license_def)
  ultimately show ?thesis using license_inv_insert [OF assms(1)] assms(2) by blast
qed (use assms in \<open>simp add: insert_license_def\<close>)

lemma change_plan_inv:
  assumes "license_inv db"
  shows "license_inv (snd (changeLicensePlan now lid b db))"
  unfolding changeLicensePlan_def
proof (rule transaction_preserves [where P = license_inv])
  fix x db' assume "(case pc_plan b of None \<Rightarrow> (Inl (BadRequest ''plan_id is required''), db)
     | Some pid \<Rightarrow> (case license_row_of db lid of
            None \<Rightarrow> (Inl (NotFound ''License not found''), db)
          | Some l \<Rightarrow> if lc_revoked_at l \<noteq> None
              then (Inl (BadRequest ''License is revoked - reissue a new license instead''), db)
              else if lc_plan l = pid then (Inl (BadRequest ''License is already on that plan''), db)
              else (case plan_row_of db pid of
                   None \<Rightarrow> (Inl (BadRequest ''plan_id does not exist''), db)
                 | Some p \<Rightarrow>
                     (let f = change_plan_row now p (positive_floor (pc_max_devices b)) (positive_floor (pc_max_mt b));
                          db1 = update_license lid f db in
                      (Inr (f l, lp_code p, lp_name p),
                       db1\<lparr>license_events := license_events db1 @
                         [\<lparr>le_license = lid, le_type = ''PLAN_CHANGED'',
                           le_reason = Some (or_string (pc_reason b) (''plan -> '' @ lp_code p)), le_device = None,
                           le_created_at = now\<rparr>]\<rparr>))))) = (Inr x, db')"
  then obtain p where "licenses db' = licenses (update_license lid
      (change_plan_row now p (positive_floor (pc_max_devices b)) (positive_floor (pc_max_mt b))) db)"
    by (auto simp: Let_def split: option.splits if_splits)
  moreover have "license_inv (update_license lid
      (change_plan_row now p (positive_floor (pc_max_devices b)) (positive_floor (pc_max_mt b))) db)"
    by (rule update_license_inv [OF assms]) (simp_all add: row_consistent)
  ultimately show "license_inv db'" by (simp add: license_inv_same)
qed (rule assms)

lemma exec_admin_license_inv:
  assumes inv: "license_inv db"
  shows "license_inv (exec_admin_licensing L req db)"
proof (cases "(L, req, db)" rule: exec_admin_licensing.cases)
  case (1 L' now i key b db')
  then show ?thesis using inv by (auto simp: createLicense_def revocation_consistent_def intro!: insert_license_inv split: option.splits)
next
  case (2 L' now i key sub db')
  then show ?thesis using ensure_license_inv [OF inv] by simp
next
  case (8 L' now l b db')
  then show ?thesis using change_plan_inv [OF inv] by simp
qed (use inv in \<open>auto simp: suspendLicense_def revokeLicense_def activateLicense_def deactivateLicense_def renewLicense_def
      resetLicense_def forceLogoutLicense_def resetDevice_def forceUpgradeDevice_def disableDeviceSignal_def
      touch_live_device_def Let_def row_consistent intro!: update_license_inv split: option.splits
      elim: license_inv_same\<close>)

lemma user_licensing_licenses: "licenses (exec_user_licensing L req db) = licenses db"
proof (cases "(L, req, db)" rule: exec_user_licensing.cases)
  case (2 L' now u i b db')
  then show ?thesis by (cases rule: registerTerminal_cases [of "ln_sha L" now i u b db]) simp_all
next
  case (3 L' now u i b db')
  then show ?thesis by (cases rule: registerTerminal_cases [of "ln_sha L" now i u b db]) (simp_all add: addMtAccount_def)
qed (auto simp: registerDevice_def license_heartbeat_def revokeDevice_fails syncTerminalAccount_fails Let_def
    split: option.splits sum.splits)

interpretation license_revocation: guarded_service "exec_control E L" license_inv for E L
proof
  show "license_inv (exec_control E L req db)" if "license_inv db" for req db
    using that
    by (cases "(E, L, req, db)" rule: exec_control.cases)
      (auto intro: exec_auth_license_inv exec_admin_license_inv license_inv_same user_licensing_licenses)
qed

section \<open>Device slots\<close>

definition slots_inv :: "license_db \<Rightarrow> bool" where
  "slots_inv db \<longleftrightarrow> auth_inv db \<and> (\<forall>d\<in>set (devices db). dv_deleted_at d = None)"

lemma slots_inv_update:
  assumes "slots_inv db" and "licenses db' = licenses db" "refresh_tokens db' = refresh_tokens db" "leases db' = leases db"
    and "devices db' = update_rows p f (devices db)" "\<And>r. dv_id (f r) = dv_id r" "\<And>r. dv_license (f r) = dv_license r"
      "\<And>r. dv_revoked_at (f r) = dv_revoked_at r" "\<And>r. dv_deleted_at (f r) = dv_deleted_at r"
  shows "slots_inv db'"
proof -
  have "auth_inv db'"
    by (rule auth_inv_update [of db _ p f]) (use assms in \<open>simp_all add: slots_inv_def auth_inv_def\<close>)
  moreover have "\<forall>d\<in>set (devices db'). dv_deleted_at d = None"
    using assms(1,5,9) by (simp add: slots_inv_def ball_update_rows)
  ultimately show ?thesis by (simp add: slots_inv_def)
qed

lemma exec_auth_deleted:
  assumes "\<forall>d\<in>set (devices db). dv_deleted_at d = None"
  shows "\<forall>d\<in>set (devices (exec_auth E req db)). dv_deleted_at d = None"
proof (cases "(E, req, db)" rule: exec_auth.cases)
  case (1 E' now fr q ip db')
  show ?thesis
  proof (cases rule: activate_cases [of E now fr q ip db])
    case (activated l d isNew db1 r db2)
    have "\<forall>d\<in>set (devices db1). dv_deleted_at d = None" using activated(3)
      by (cases rule: bind_device_cases)
        (use assms in \<open>simp_all add: ball_update_rows touch_device_def new_device_def blank_device_def\<close>)
    then show ?thesis using issue_session_Inr(1) [OF activated(4)] 1 activated(5) by simp
  qed (use 1 assms in simp)
next
  case (2 E' now fr tok dev db')
  show ?thesis
    by (cases rule: refresh_cases [of E now fr tok dev db])
      (use 2 assms in \<open>simp_all add: ball_update_rows revoke_family_def\<close>)
next
  case (3 E' now d sid b ip db')
  show ?thesis
    by (cases rule: heartbeat_cases [of now d sid b ip db])
      (use 3 assms in \<open>simp_all add: ball_update_rows report_metadata_def\<close>)
next
  case (5 E' now p db')
  then show ?thesis using assms verify_snd [of E now p db] by (auto simp: store_nonce_def)
qed (use assms in \<open>simp_all add: revokeDevice_def prune_telemetry_def ball_update_rows\<close>)

lemma registered_slots:
  assumes inv: "slots_inv db" and lic: "registration_license u b db = Inr lic" and x: "x \<in> set (licenses db)"
  shows "int (count_rows (bound_to (lc_id x)) (devices db @ [registered_device now i u lic b])) \<le> max 1 (lc_max_devices x)"
proof -
  have old: "int (count_rows (bound_to (lc_id x)) (devices db)) \<le> max 1 (lc_max_devices x)"
    using inv x by (simp add: slots_inv_def auth_inv_def within_slots_def)
  show ?thesis
  proof (cases "lic = Some (lc_id x)")
    case False
    then show ?thesis using old by (simp add: registered_device_def blank_device_def)
  next
    case True
    with lic obtain l where l: "l \<in> set (licenses db)" "lc_id l = lc_id x"
      "int (count_rows (\<lambda>d. dv_license d = Some (lc_id l) \<and> dv_deleted_at d = None \<and> dv_revoked_at d = None) (devices db)) < lc_max_devices l"
      by (auto simp: registration_license_def split: option.splits if_splits dest: first_row_Some)
    have "l = x"
      by (rule key_unique [of lc_id "licenses db"]) (use inv l x in \<open>simp_all add: slots_inv_def auth_inv_def\<close>)
    moreover have "count_rows (\<lambda>d. dv_license d = Some (lc_id x) \<and> dv_deleted_at d = None \<and> dv_revoked_at d = None) (devices db) =
        count_rows (bound_to (lc_id x)) (devices db)"
      using inv by (auto simp: slots_inv_def count_rows_def intro!: arg_cong [where f = length] filter_cong)
    ultimately have "int (count_rows (bound_to (lc_id x)) (devices db)) < lc_max_devices x" using l(3) by simp
    then show ?thesis using True by (simp add: registered_device_def blank_device_def)
  qed
qed

lemma registerDevice_slots:
  assumes inv: "slots_inv db"
  shows "slots_inv (snd (registerDevice now i u b db))"
proof (cases "case or_null (dr_fp_hash b) of None \<Rightarrow> None
    | Some h \<Rightarrow> first_row (\<lambda>d. dv_user d = u \<and> dv_fp_hash d = Some h \<and> dv_deleted_at d = None) (devices db)")
  case (Some d)
  show ?thesis
    by (rule slots_inv_update [OF inv, of _ "\<lambda>r. dv_id r = dv_id d \<and> dv_user r = u" "reregister now b"])
      (use Some in \<open>simp_all add: registerDevice_def reregister_def\<close>)
next
  case None
  show ?thesis
  proof (cases "\<exists>lic. registration_license u b db = Inr lic \<and> \<not> exists_row (\<lambda>d. dv_id d = i) (devices db)")
    case True
    then obtain lic where lic: "registration_license u b db = Inr lic" "\<not> exists_row (\<lambda>d. dv_id d = i) (devices db)" by auto
    let ?d = "registered_device now i u lic b"
    have res: "snd (registerDevice now i u b db) = db\<lparr>devices := devices db @ [?d]\<rparr>"
      using None lic by (simp add: registerDevice_def)
    have "distinct (map dv_id (devices db @ [?d]))"
      by (rule distinct_insert_key)
        (use inv lic(2) in \<open>simp_all add: slots_inv_def auth_inv_def registered_device_def blank_device_def\<close>)
    moreover have "within_slots (db\<lparr>devices := devices db @ [?d]\<rparr>)"
      using registered_slots [OF inv lic(1)] by (simp add: within_slots_def del: count_rows_append)
    moreover have "dv_deleted_at ?d = None" by (simp add: registered_device_def blank_device_def)
    ultimately show ?thesis using inv unfolding res by (simp add: slots_inv_def auth_inv_def)
  next
    case False
    then have "snd (registerDevice now i u b db) = db"
      using None by (auto simp: registerDevice_def split: sum.splits)
    with inv show ?thesis by simp
  qed
qed

lemma registerTerminal_slots:
  assumes inv: "slots_inv db"
  shows "slots_inv (snd (registerTerminal sha now i u b db))"
proof (cases rule: registerTerminal_cases [of sha now i u b db])
  case (deactivated d e)
  with inv show ?thesis by (simp add: slots_inv_def auth_inv_def within_slots_def)
next
  case (registered d l)
  show ?thesis
    by (rule slots_inv_update [OF inv, of _ "\<lambda>r. dv_id r = d" "terminal_touch now (terminal_fingerprint_hash sha b)"])
      (use registered in \<open>simp_all add: terminal_touch_def\<close>)
qed (use inv in simp)

lemma license_heartbeat_slots:
  assumes inv: "slots_inv db"
  shows "slots_inv (snd (license_heartbeat now d conn hash owner db))"
proof (cases "exists_row (\<lambda>r. dv_id r = d \<and> dv_deleted_at r = None \<and> (owner = None \<or> owner = Some (dv_user r))) (devices db)")
  case True
  show ?thesis
    by (rule slots_inv_update [OF inv, of _ "\<lambda>r. dv_id r = d \<and> dv_deleted_at r = None \<and> (owner = None \<or> owner = Some (dv_user r))"
          "\<lambda>r. r\<lparr>dv_last_seen := Some now, dv_status := or_string conn ''ONLINE'', dv_updated_at := now,
                  dv_fp_hash := coalesce (or_null hash) (dv_fp_hash r)\<rparr>"])
      (use True in \<open>simp_all add: license_heartbeat_def\<close>)
next
  case False
  with inv show ?thesis by (simp add: license_heartbeat_def)
qed

fun from_admin :: "time \<times> control_request \<Rightarrow> bool" where
  "from_admin (_, AdminReq _) = True"
| "from_admin _ = False"

lemma exec_control_slots:
  assumes "\<not> from_admin req" and inv: "slots_inv db"
  shows "slots_inv (exec_control E L req db)"
proof (cases "(E, L, req, db)" rule: exec_control.cases)
  case (1 E' L' now r db')
  then show ?thesis
    using inv exec_auth_inv [of db E "(now, r)"] exec_auth_deleted [of db E "(now, r)"] by (simp add: slots_inv_def)
next
  case (2 E' L' now u r db')
  have "slots_inv (exec_user_licensing L (now, u, r) db)"
    by (cases "(L, (now, u, r), db)" rule: exec_user_licensing.cases)
      (use inv in \<open>simp_all add: registerDevice_slots registerTerminal_slots addMtAccount_def license_heartbeat_slots
         revokeDevice_fails syncTerminalAccount_fails\<close>)
  with 2 show ?thesis by simp
qed (use assms in auto)

interpretation slot_service: selective_service "exec_control E L" "\<lambda>s t. slots_inv s \<longrightarrow> slots_inv t" "\<lambda>req. \<not> from_admin req"
  for E L
  by unfold_locales (auto intro: exec_control_slots)

section \<open>Properties\<close>


definition example_licensing :: licensing_env where
  "example_licensing = \<lparr>ln_sha = (\<lambda>s. s), ln_uuid = (\<lambda>s. None), ln_num = (\<lambda>q. ''n''), ln_nat = (\<lambda>n. ''n'')\<rparr>"


text \<open>
  C25. The slots of a license hold across services: over any interleaving of terminal requests
  (activation, refresh, heartbeat, signed requests) and user requests (registration of devices and
  terminals), the devices bound to a license and not revoked never outnumber its slots, one when the
  license grants none.
\<close>

theorem device_slots_respected:
  assumes "slots_inv db" and "\<forall>req\<in>set reqs. \<not> from_admin req"
    and "db' = run_requests (exec_control E L) reqs db" and "l \<in> set (licenses db')"
  shows "int (count_rows (bound_to (lc_id l)) (devices db')) \<le> max 1 (lc_max_devices l)"
proof -
  have "slots_inv db'" using slot_service.run_sel_leq [OF assms(2), of db E L] assms(1,3) by simp
  with assms(4) show ?thesis by (simp add: slots_inv_def auth_inv_def within_slots_def)
qed

theorem device_slots_respected_witness:
  "int (count_rows (bound_to 1) (devices (run_requests (exec_control example_env example_licensing)
     [(0, DeviceReq (Activate (example_fresh 7 ''t'') example_activation None)),
      (1, UserReq 2 (RegisterDevice 8 \<lparr>dr_name = None, dr_os = None, dr_agent_version = None, dr_hostname = None,
         dr_installation = None, dr_fp_hash = None, dr_components = None, dr_license_key = Some ''K''\<rparr>))]
     example_licenses))) \<le> 1"
proof -
  let ?reqs = "[(0, DeviceReq (Activate (example_fresh 7 ''t'') example_activation None)),
      (1, UserReq 2 (RegisterDevice 8 \<lparr>dr_name = None, dr_os = None, dr_agent_version = None, dr_hostname = None,
         dr_installation = None, dr_fp_hash = None, dr_components = None, dr_license_key = Some ''K''\<rparr>))]"
  let ?db = "run_requests (exec_control example_env example_licensing) ?reqs example_licenses"
  have "slots_inv example_licenses" using example_licenses_inv by (simp add: slots_inv_def example_licenses_def)
  moreover have "\<forall>req\<in>set ?reqs. \<not> from_admin req" by simp
  moreover have "map (\<lambda>l. (lc_id l, lc_max_devices l)) (licenses ?db) = [(1, 1)]" by code_simp
  then obtain l where l: "l \<in> set (licenses ?db)" "lc_id l = 1" "lc_max_devices l = 1" by (auto simp: map_eq_Cons_conv)
  ultimately show ?thesis using device_slots_respected [OF _ _ refl l(1)] by simp
qed

text \<open>
  The administrator can break the slots: activating a license again gives back every device that was
  revoked meanwhile, also when the slots have been filled by others since.
\<close>

theorem reactivation_exceeds_slots:
  "let db = run_requests (exec_control example_env example_licensing)
         [(0, DeviceReq (Activate (example_fresh 7 ''t'') example_activation None)),
          (1, DeviceReq (RevokeDevice 7 ''lost'')),
          (2, DeviceReq (Activate (example_fresh 8 ''u'') example_activation None))] example_licenses
   in count_rows (bound_to 1) (devices db) = 1 \<and>
      count_rows (bound_to 1) (devices (exec_control example_env example_licensing
        (3, AdminReq (ActivateLicense 1 None)) db)) = 2"
  by code_simp

end
