(* ===== verification/EdgePoll.thy ===== *)
theory EdgePoll
  imports DeviceAuth
begin

text \<open>
  The signal delivery to terminals, \<^verbatim>\<open>control/src/modules/edge-poll/edge-poll.service.ts\<close> and its
  controller: the queue of signals with its states, the poll that reclaims, expires, filters by
  entitlement and claims a batch, the acknowledgement, the fleet-wide sweep, the heartbeat with its
  telemetry, and the verification of the device signature in front of them. The payload is the list of
  the text fields of the JSON object (\<^verbatim>\<open>payload->>'key'\<close>); the casts of a text to a timestamp and to an
  address are parameters that may fail, as the casts of the database do. Statements are not grouped in a transaction.
\<close>

section \<open>Tables\<close>

datatype queue_status = Q_PENDING | Q_IN_FLIGHT | Q_ACKED | Q_EXPIRED | Q_FAILED

record queue_row =
  qu_id :: uuid
  qu_device :: uuid
  qu_signal :: string
  qu_payload :: "(string \<times> string) list"
  qu_status :: queue_status
  qu_attempts :: nat
  qu_error :: "string option"
  qu_created_at :: time
  qu_in_flight_at :: "time option"
  qu_acked_at :: "time option"
  qu_result :: "string option"

record edge_state_row =
  es_device :: uuid
  es_last_poll :: "time option"
  es_last_ack :: "time option"
  es_last_heartbeat :: "time option"
  es_polls :: nat
  es_delivered :: nat
  es_acked :: nat
  es_ea_version :: string
  es_equity :: "rat option"
  es_tier :: "string option"
  es_tier_changed :: "time option"
  es_error :: "string option"
  es_error_code :: "string option"
  es_error_at :: "time option"
  es_account_type :: "string option"
  es_account_verified :: "bool option"
  es_updated_at :: time

record account_type_row =
  at_login :: nat
  at_type :: string
  at_confirms :: int
  at_verified :: bool
  at_device :: uuid
  at_reason :: "string option"
  at_latest :: bool
  at_detected :: time

record edge_db =
  eb_license :: license_db
  eb_queue :: "queue_row list"
  eb_states :: "edge_state_row list"
  eb_errors :: "(uuid \<times> string \<times> string) list"
  eb_account_types :: "account_type_row list"

definition blank_state :: "uuid \<Rightarrow> time \<Rightarrow> edge_state_row" where
  "blank_state d now = \<lparr>es_device = d, es_last_poll = None, es_last_ack = None, es_last_heartbeat = None, es_polls = 0,
     es_delivered = 0, es_acked = 0, es_ea_version = [], es_equity = None, es_tier = None, es_tier_changed = None,
     es_error = None, es_error_code = None, es_error_at = None, es_account_type = None, es_account_verified = None,
     es_updated_at = now\<rparr>"

text \<open>\<^verbatim>\<open>INSERT ... ON CONFLICT (device_id) DO UPDATE\<close>.\<close>

definition upsert_state ::
  "uuid \<Rightarrow> edge_state_row \<Rightarrow> (edge_state_row \<Rightarrow> edge_state_row) \<Rightarrow> edge_state_row list \<Rightarrow> edge_state_row list" where
  "upsert_state d new f t = (if exists_row (\<lambda>s. es_device s = d) t then update_rows (\<lambda>s. es_device s = d) f t else t @ [new])"

definition update_state :: "uuid \<Rightarrow> (edge_state_row \<Rightarrow> edge_state_row) \<Rightarrow> edge_db \<Rightarrow> edge_db" where
  "update_state d f db = db\<lparr>eb_states := update_rows (\<lambda>s. es_device s = d) f (eb_states db)\<rparr>"

definition update_queue :: "(queue_row \<Rightarrow> bool) \<Rightarrow> (queue_row \<Rightarrow> queue_row) \<Rightarrow> edge_db \<Rightarrow> edge_db" where
  "update_queue p f db = db\<lparr>eb_queue := update_rows p f (eb_queue db)\<rparr>"

definition update_device :: "(device_row \<Rightarrow> bool) \<Rightarrow> (device_row \<Rightarrow> device_row) \<Rightarrow> edge_db \<Rightarrow> edge_db" where
  "update_device p f db = db\<lparr>eb_license := (eb_license db)\<lparr>devices := update_rows p f (devices (eb_license db))\<rparr>\<rparr>"

section \<open>SQL text\<close>

text \<open>The casts of the database: text to \<^verbatim>\<open>timestamptz\<close>, and whether a text is an \<^verbatim>\<open>inet\<close>.\<close>

record pg_casts =
  pg_ts :: "string \<Rightarrow> time option"
  pg_inet :: "string \<Rightarrow> bool"

definition field :: "string \<Rightarrow> queue_row \<Rightarrow> string option" where
  "field k q = map_of (qu_payload q) k"

text \<open>\<^verbatim>\<open>COALESCE(payload->>'ExpiresAt', payload->>'expires_at')\<close>, and the same for the strategy.\<close>

definition expiry_text :: "queue_row \<Rightarrow> string option" where
  "expiry_text q = coalesce (field ''ExpiresAt'' q) (field ''expires_at'' q)"

definition strategy_text :: "queue_row \<Rightarrow> string option" where
  "strategy_text q = coalesce (field ''StrategyID'' q) (field ''strategy_id'' q)"

definition note_error :: "string \<Rightarrow> queue_row \<Rightarrow> queue_row" where
  "note_error msg q = q\<lparr>qu_error := Some (coalesce_text (qu_error q) [] @ msg)\<rparr>"

text \<open>\<^verbatim>\<open>text LIKE pattern\<close>: an underscore matches one character, a percent sign any sequence, a backslash quotes.\<close>

fun sql_like :: "string \<Rightarrow> string \<Rightarrow> bool" where
  "sql_like [] t = (t = [])"
| "sql_like (c # p) t =
     (if c = CHR ''%'' then sql_like p t \<or> (case t of [] \<Rightarrow> False | _ # u \<Rightarrow> sql_like (c # p) u)
      else if c = CHR 0x5C \<and> p \<noteq> [] then
        (case (p, t) of (d # p', x # u) \<Rightarrow> x = d \<and> sql_like p' u | _ \<Rightarrow> False)
      else (case t of [] \<Rightarrow> False | x # u \<Rightarrow> (c = CHR ''_'' \<or> x = c) \<and> sql_like p u))"

text \<open>The text of a JSON array of names without special characters.\<close>

definition json_text :: "string list \<Rightarrow> string" where
  "json_text xs = ''['' @ js_join '', '' (map (\<lambda>s. [CHR 0x22] @ s @ [CHR 0x22]) xs) @ '']''"

text \<open>
  One arm of the entitlement filter: the list is restricted and the strategy does not occur in its
  text. A null pattern makes \<^verbatim>\<open>NOT LIKE\<close> null, which selects nothing.
\<close>

definition list_excludes :: "string list \<Rightarrow> queue_row \<Rightarrow> bool" where
  "list_excludes xs q \<longleftrightarrow> json_text xs \<notin> {[], ''null'', ''[]''} \<and>
     (case field ''StrategyID'' q of None \<Rightarrow> False | Some s \<Rightarrow> \<not> sql_like (''%'' @ s @ ''%'') (json_text xs))"

definition not_entitled :: "license_db \<Rightarrow> device_row \<Rightarrow> queue_row \<Rightarrow> bool" where
  "not_entitled db d q \<longleftrightarrow> dv_revoked_at d \<noteq> None \<or>
     (case Option.bind (dv_license d) (\<lambda>i. first_row (\<lambda>l. lc_id l = i) (licenses db)) of
        None \<Rightarrow> True
      | Some l \<Rightarrow> (lc_status l \<noteq> L_ACTIVE \<and> lc_status l \<noteq> L_PENDING) \<or> list_excludes (lc_strategies l) q \<or>
          (case Option.bind (first_row (\<lambda>p. lp_id p = lc_plan l) (license_plans db)) lp_strategies of
             None \<Rightarrow> False
           | Some xs \<Rightarrow> list_excludes xs q))"

section \<open>Poll\<close>

definition max_signals :: "string option \<Rightarrow> nat" where
  "max_signals s =
     (let n = (case Option.bind s js_parseInt of Some n \<Rightarrow> if n = 0 then 10 else n | None \<Rightarrow> 10) in
      nat (min (max n 1) 20))"

definition stale :: "uuid \<Rightarrow> time \<Rightarrow> queue_row \<Rightarrow> bool" where
  "stale d now q \<longleftrightarrow> qu_device q = d \<and> qu_status q = Q_IN_FLIGHT \<and>
     (case qu_in_flight_at q of Some t \<Rightarrow> t < now - seconds 30 | None \<Rightarrow> False)"

definition dead_letter :: "uuid \<Rightarrow> time \<Rightarrow> edge_db \<Rightarrow> edge_db" where
  "dead_letter d now = update_queue (\<lambda>q. stale d now q \<and> qu_attempts q \<ge> 50)
     (\<lambda>q. note_error '' dead-lettered (attempt cap);'' (q\<lparr>qu_status := Q_EXPIRED\<rparr>))"

definition reclaim :: "uuid \<Rightarrow> time \<Rightarrow> edge_db \<Rightarrow> edge_db" where
  "reclaim d now = update_queue (stale d now) (\<lambda>q. note_error '' reclaimed;'' (q\<lparr>qu_status := Q_PENDING\<rparr>))"

text \<open>The expiry of rows that satisfy \<open>p\<close>; a text that is not a timestamp fails the statement.\<close>

definition expire_ttl ::
  "pg_casts \<Rightarrow> (queue_row \<Rightarrow> bool) \<Rightarrow> (queue_row \<Rightarrow> queue_row) \<Rightarrow> time \<Rightarrow> edge_db \<Rightarrow> edge_db result" where
  "expire_ttl P p f now db =
     (let cand = (\<lambda>q. p q \<and> qu_status q = Q_PENDING \<and> expiry_text q \<noteq> None) in
      if exists_row (\<lambda>q. cand q \<and> Option.bind (expiry_text q) (pg_ts P) = None) (eb_queue db)
      then Inl (SqlError ''22007'')
      else Inr (update_queue (\<lambda>q. cand q \<and> (case Option.bind (expiry_text q) (pg_ts P) of Some t \<Rightarrow> t < now | None \<Rightarrow> False))
        f db))"

definition expire_unentitled :: "uuid \<Rightarrow> edge_db \<Rightarrow> edge_db" where
  "expire_unentitled d db =
     (case first_row (\<lambda>r. dv_id r = d) (devices (eb_license db)) of
        None \<Rightarrow> db
      | Some r \<Rightarrow> update_queue (\<lambda>q. qu_device q = d \<and> qu_status q = Q_PENDING \<and> strategy_text q \<noteq> None \<and>
            not_entitled (eb_license db) r q)
          (\<lambda>q. note_error '' entitlement-revoked;'' (q\<lparr>qu_status := Q_EXPIRED\<rparr>)) db)"

definition claim_row :: "time \<Rightarrow> queue_row \<Rightarrow> queue_row" where
  "claim_row now q = q\<lparr>qu_status := Q_IN_FLIGHT, qu_in_flight_at := Some now, qu_attempts := qu_attempts q + 1\<rparr>"

definition claimable :: "uuid \<Rightarrow> nat \<Rightarrow> edge_db \<Rightarrow> uuid list" where
  "claimable d n db = map qu_id (take n (sort_key qu_created_at
     (filter (\<lambda>q. qu_device q = d \<and> qu_status q = Q_PENDING) (eb_queue db))))"

definition claim :: "uuid \<Rightarrow> nat \<Rightarrow> time \<Rightarrow> edge_db \<Rightarrow> queue_row list \<times> edge_db" where
  "claim d n now db =
     (let ids = claimable d n db in
      (map (claim_row now) (filter (\<lambda>q. qu_id q \<in> set ids) (eb_queue db)),
       update_queue (\<lambda>q. qu_id q \<in> set ids) (claim_row now) db))"

definition record_version :: "uuid \<Rightarrow> string option \<Rightarrow> time \<Rightarrow> edge_db \<Rightarrow> edge_db" where
  "record_version d v now db =
     (let s = take 20 (js_trim (coalesce_text v [])) in
      if s = [] then db else update_state d (\<lambda>r. r\<lparr>es_ea_version := s, es_updated_at := now\<rparr>) db)"

definition count_poll :: "uuid \<Rightarrow> nat \<Rightarrow> time \<Rightarrow> edge_db \<Rightarrow> edge_db" where
  "count_poll d n now db = db\<lparr>eb_states := upsert_state d
     ((blank_state d now)\<lparr>es_last_poll := Some now, es_polls := 1, es_delivered := n\<rparr>)
     (\<lambda>s. s\<lparr>es_last_poll := Some now, es_polls := es_polls s + 1, es_delivered := es_delivered s + n, es_updated_at := now\<rparr>)
     (eb_states db)\<rparr>"

definition poll ::
  "pg_casts \<Rightarrow> time \<Rightarrow> uuid \<Rightarrow> string option \<Rightarrow> string option \<Rightarrow> (edge_db, queue_row list) handler" where
  "poll P now d maxs version db =
     (let db1 = reclaim d now (dead_letter d now (record_version d version now db)) in
      case expire_ttl P (\<lambda>q. qu_device q = d) (\<lambda>q. q\<lparr>qu_status := Q_EXPIRED\<rparr>) now db1 of
        Inl e \<Rightarrow> (Inl e, db1)
      | Inr db2 \<Rightarrow>
          (let (rows, db3) = claim d (max_signals maxs) now (expire_unentitled d db2) in
           (Inr rows, count_poll d (length rows) now db3)))"

section \<open>Acknowledgement, sweep, pruning\<close>

datatype ack_reply = AckOk | AckNoId | AckNotFound

definition ack :: "time \<Rightarrow> uuid \<Rightarrow> uuid option \<Rightarrow> string \<Rightarrow> edge_db \<Rightarrow> ack_reply \<times> edge_db" where
  "ack now d qid res db =
     (case qid of
        None \<Rightarrow> (AckNoId, db)
      | Some i \<Rightarrow>
          if exists_row (\<lambda>q. qu_id q = i \<and> qu_device q = d) (eb_queue db) then
            (AckOk, update_state d (\<lambda>s. s\<lparr>es_last_ack := Some now, es_acked := es_acked s + 1, es_updated_at := now\<rparr>)
              (update_queue (\<lambda>q. qu_id q = i \<and> qu_device q = d)
                (\<lambda>q. q\<lparr>qu_status := Q_ACKED, qu_acked_at := Some now, qu_result := Some res\<rparr>) db))
          else (AckNotFound, db))"

definition offline_for_an_hour :: "license_db \<Rightarrow> time \<Rightarrow> queue_row \<Rightarrow> bool" where
  "offline_for_an_hour db now q \<longleftrightarrow> exists_row (\<lambda>d. dv_id d = qu_device q \<and>
     (case dv_last_seen d of Some t \<Rightarrow> t < now - hours 1 | None \<Rightarrow> False)) (devices db)"

text \<open>Errors of the sweep are caught and logged: the statements before it stay.\<close>

definition sweepStale :: "pg_casts \<Rightarrow> time \<Rightarrow> edge_db \<Rightarrow> edge_db" where
  "sweepStale P now db =
     (case expire_ttl P (\<lambda>q. True) (\<lambda>q. note_error '' ttl-swept;'' (q\<lparr>qu_status := Q_EXPIRED\<rparr>)) now db of
        Inl e \<Rightarrow> db
      | Inr db1 \<Rightarrow> update_queue (\<lambda>q. qu_status q = Q_PENDING \<and> offline_for_an_hour (eb_license db1) now q)
          (\<lambda>q. note_error '' device-offline-swept;'' (q\<lparr>qu_status := Q_EXPIRED\<rparr>)) db1)"

definition prune_queue :: "time \<Rightarrow> edge_db \<Rightarrow> edge_db" where
  "prune_queue now db = db\<lparr>eb_queue := filter (\<lambda>q. \<not> ((qu_status q = Q_ACKED \<or> qu_status q = Q_EXPIRED) \<and>
     coalesce_text (qu_acked_at q) (qu_created_at q) < now - hours 48)) (eb_queue db)\<rparr>"

section \<open>Heartbeat\<close>

record edge_heartbeat_body =
  eh_terminal :: "string option"
  eh_broker :: "string option"
  eh_server :: "string option"
  eh_equity :: "rat option"
  eh_ea_version :: "string option"
  eh_error_code :: "string option"
  eh_error :: "string option"
  eh_account_type :: "string option"
  eh_account_verified :: bool
  eh_account :: "string option"
  eh_confirms :: "rat option"
  eh_reason :: "string option"

definition trimmed :: "nat \<Rightarrow> string option \<Rightarrow> string" where
  "trimmed n s = take n (js_trim (coalesce_text s []))"

definition capital_tier :: "rat \<Rightarrow> string" where
  "capital_tier e = (if e < 500 then ''MICRO'' else if e < 5000 then ''STANDARD'' else ''PRO'')"

definition hb_terminal :: "uuid \<Rightarrow> string option \<Rightarrow> time \<Rightarrow> edge_db \<Rightarrow> edge_db" where
  "hb_terminal d t now db =
     (let s = js_upper (coalesce_text t []) in
      if s = ''MT4'' \<or> s = ''MT5''
      then update_device (\<lambda>r. dv_id r = d \<and> dv_os_name r \<noteq> Some s) (\<lambda>r. r\<lparr>dv_os_name := Some s, dv_updated_at := now\<rparr>) db
      else db)"

definition hb_broker :: "uuid \<Rightarrow> string \<Rightarrow> string \<Rightarrow> edge_db \<Rightarrow> edge_db" where
  "hb_broker d name server db =
     (if name = [] \<and> server = [] then db
      else
        (case latest da_created_at (\<lambda>a. da_device a = d) (activations (eb_license db)) of
           None \<Rightarrow> db
         | Some l \<Rightarrow> db\<lparr>eb_license := (eb_license db)\<lparr>activations := update_rows (\<lambda>a. da_id a = da_id l)
             (\<lambda>a. a\<lparr>da_broker := coalesce (or_null (Some name)) (da_broker a),
                    da_server := coalesce (or_null (Some server)) (da_server a)\<rparr>) (activations (eb_license db))\<rparr>\<rparr>))"

definition hb_equity :: "uuid \<Rightarrow> rat option \<Rightarrow> time \<Rightarrow> edge_db \<Rightarrow> edge_db" where
  "hb_equity d equity now db =
     (case equity of
        Some e \<Rightarrow>
          if e > 0 then update_state d (\<lambda>s. s\<lparr>es_equity := Some e, es_tier := Some (capital_tier e),
            es_tier_changed := (if es_tier s \<noteq> Some (capital_tier e) then Some now else es_tier_changed s),
            es_updated_at := now\<rparr>) db
          else db
      | None \<Rightarrow> db)"

definition hb_error :: "uuid \<Rightarrow> string \<Rightarrow> string \<Rightarrow> time \<Rightarrow> edge_db \<Rightarrow> edge_db" where
  "hb_error d code msg now db =
     (if code \<noteq> [] \<and> msg \<noteq> [] then
        (let db1 = update_state d (\<lambda>s. s\<lparr>es_error := Some msg, es_error_code := Some code, es_error_at := Some now,
               es_updated_at := now\<rparr>) db in
         db1\<lparr>eb_errors := eb_errors db1 @ [(d, code, msg)]\<rparr>)
      else db)"

text \<open>
  The account type is kept per login. A login of more than nineteen digits can exceed \<^verbatim>\<open>bigint\<close>, which
  fails the statement.
\<close>

definition all_digits :: "string \<Rightarrow> bool" where
  "all_digits s \<longleftrightarrow> s \<noteq> [] \<and> (\<forall>c\<in>set s. digit_value c \<noteq> None)"

definition hb_account_login ::
  "uuid \<Rightarrow> edge_heartbeat_body \<Rightarrow> string \<Rightarrow> time \<Rightarrow> edge_db \<Rightarrow> edge_db result" where
  "hb_account_login d b typ now db =
     (let login = js_trim (coalesce_text (eh_account b) []);
          confirms = (case eh_confirms b of Some q \<Rightarrow> max 0 \<lfloor>q\<rfloor> | None \<Rightarrow> 0);
          reason = or_null (Some (take 500 (coalesce_text (eh_reason b) []))) in
      if length login \<le> 20 \<and> all_digits login then
        (let n = nat (coalesce_text (js_parseInt login) 0) in
         if n \<ge> 2 ^ 63 then Inl (SqlError ''22003'')
         else if exists_row (\<lambda>a. at_login a = n \<and> at_latest a) (eb_account_types db) then
           Inr (db\<lparr>eb_account_types := update_rows (\<lambda>a. at_login a = n \<and> at_latest a)
             (\<lambda>a. a\<lparr>at_type := typ, at_confirms := confirms, at_verified := eh_account_verified b, at_device := d,
                    at_reason := coalesce reason (at_reason a), at_detected := now\<rparr>) (eb_account_types db)\<rparr>)
         else Inr (db\<lparr>eb_account_types := eb_account_types db @
           [\<lparr>at_login = n, at_type = typ, at_confirms = confirms, at_verified = eh_account_verified b, at_device = d,
             at_reason = reason, at_latest = True, at_detected = now\<rparr>]\<rparr>))
      else Inr db)"

definition hb_account_type :: "uuid \<Rightarrow> edge_heartbeat_body \<Rightarrow> time \<Rightarrow> edge_db \<Rightarrow> edge_db result \<times> edge_db" where
  "hb_account_type d b now db =
     (let typ = js_trim (coalesce_text (eh_account_type b) []) in
      if typ \<noteq> [] \<and> length typ \<le> 50 then
        (let db1 = update_state d (\<lambda>s. s\<lparr>es_account_type := Some typ,
               es_account_verified := coalesce (if eh_account_verified b then Some True else None) (es_account_verified s),
               es_updated_at := now\<rparr>) db;
             db2 = update_device (\<lambda>r. dv_id r = d \<and> dv_account_type r \<noteq> Some typ)
               (\<lambda>r. r\<lparr>dv_account_type := Some typ, dv_updated_at := now\<rparr>) db1 in
         (hb_account_login d b typ now db2, db2))
      else (Inr db, db))"

definition edge_heartbeat :: "pg_casts \<Rightarrow> time \<Rightarrow> uuid \<Rightarrow> edge_heartbeat_body \<Rightarrow> string option \<Rightarrow> (edge_db, time) handler" where
  "edge_heartbeat P now d b ip db =
     (let db1 = db\<lparr>eb_states := upsert_state d ((blank_state d now)\<lparr>es_last_heartbeat := Some now\<rparr>)
            (\<lambda>s. s\<lparr>es_last_heartbeat := Some now, es_updated_at := now\<rparr>) (eb_states db)\<rparr>;
          db2 = (if (case or_null ip of Some s \<Rightarrow> pg_inet P s | None \<Rightarrow> True)
                 then update_device (\<lambda>r. dv_id r = d)
                   (\<lambda>r. r\<lparr>dv_last_seen := Some now, dv_last_ip := coalesce (or_null ip) (dv_last_ip r)\<rparr>) db1
                 else db1);
          db3 = hb_terminal d (eh_terminal b) now db2;
          db4 = hb_broker d (trimmed 200 (eh_broker b)) (trimmed 200 (eh_server b)) db3;
          db5 = hb_equity d (eh_equity b) now db4;
          db6 = record_version d (eh_ea_version b) now db5;
          db7 = hb_error d (trimmed 40 (eh_error_code b)) (trimmed 500 (eh_error b)) now db6 in
      case hb_account_type d b now db7 of
        (Inl e, db8) \<Rightarrow> (Inl e, db8)
      | (Inr db9, _) \<Rightarrow> (Inr now, db9))"

section \<open>The controller\<close>

text \<open>
  The headers of a signed request with the path of the route and the text of the body; the identifier in
  the header is a UUID whose text the signature covers.
\<close>

record edge_headers =
  xh_device :: "uuid option"
  xh_timestamp :: "string option"
  xh_nonce :: "string option"
  xh_signature :: "string option"
  xh_route :: string
  xh_body :: string

definition api_path :: "string \<Rightarrow> string" where
  "api_path route =
     (if take 5 route = ''/api/'' then route
      else ''/api/v1/devices/'' @ (if take 1 route = ''/'' then drop 1 route else route))"

definition verify_edge :: "device_env \<Rightarrow> time \<Rightarrow> edge_headers \<Rightarrow> (edge_db, uuid) handler" where
  "verify_edge E now h db =
     (case (xh_device h, or_null (xh_timestamp h), or_null (xh_nonce h), or_null (xh_signature h)) of
        (Some d, Some ts, Some n, Some sig) \<Rightarrow>
          (case verifyRequestSignature E now
                  \<lparr>sp_device = d, sp_method = ''POST'', sp_path = api_path (xh_route h),
                   sp_body_hash = k_sha_hex E (xh_body h), sp_timestamp = ts, sp_nonce = n, sp_signature = sig,
                   sp_version = None\<rparr> (eb_license db) of
             (Valid, l) \<Rightarrow> (Inr d, db\<lparr>eb_license := l\<rparr>)
           | (Invalid reason, l) \<Rightarrow> (Inl (Unauthorized (''device signature invalid: '' @ reason)), db\<lparr>eb_license := l\<rparr>))
      | _ \<Rightarrow> (Inl (Unauthorized ''device signature headers required''), db))"

definition pollSignals ::
  "device_env \<Rightarrow> pg_casts \<Rightarrow> time \<Rightarrow> edge_headers \<Rightarrow> string option \<Rightarrow> string option \<Rightarrow>
   (edge_db, queue_row list) handler" where
  "pollSignals E P now h maxs version db =
     (case verify_edge E now h db of
        (Inl e, db1) \<Rightarrow> (Inl e, db1)
      | (Inr d, db1) \<Rightarrow> poll P now d maxs version db1)"

definition edgeAck ::
  "device_env \<Rightarrow> time \<Rightarrow> edge_headers \<Rightarrow> uuid option \<Rightarrow> string \<Rightarrow> (edge_db, ack_reply) handler" where
  "edgeAck E now h qid res db =
     (case verify_edge E now h db of
        (Inl e, db1) \<Rightarrow> (Inl e, db1)
      | (Inr d, db1) \<Rightarrow> (let (r, db2) = ack now d qid res db1 in (Inr r, db2)))"

definition edgeHeartbeat ::
  "device_env \<Rightarrow> pg_casts \<Rightarrow> time \<Rightarrow> edge_headers \<Rightarrow> edge_heartbeat_body \<Rightarrow> string option \<Rightarrow> (edge_db, time) handler" where
  "edgeHeartbeat E P now h b ip db =
     (case verify_edge E now h db of
        (Inl e, db1) \<Rightarrow> (Inl e, db1)
      | (Inr d, db1) \<Rightarrow> edge_heartbeat P now d b ip db1)"

section \<open>The service\<close>

datatype edge_request =
    PollSignals edge_headers "string option" "string option"
  | EdgeAck edge_headers "uuid option" string
  | EdgeHeartbeat edge_headers edge_heartbeat_body "string option"
  | Sweep
  | PruneQueue
  | Enqueue queue_row

text \<open>
  \<open>Enqueue\<close> is the insert of the realtime engine, which shares the table: a new row with a new identifier
  in its initial state.
\<close>

definition enqueue :: "queue_row \<Rightarrow> edge_db \<Rightarrow> edge_db" where
  "enqueue q db =
     (if exists_row (\<lambda>r. qu_id r = qu_id q) (eb_queue db) then db
      else db\<lparr>eb_queue := eb_queue db @ [q\<lparr>qu_status := Q_PENDING, qu_attempts := 0, qu_in_flight_at := None\<rparr>]\<rparr>)"

fun exec_edge :: "device_env \<Rightarrow> pg_casts \<Rightarrow> time \<times> edge_request \<Rightarrow> edge_db \<Rightarrow> edge_db" where
  "exec_edge E P (now, PollSignals h m v) db = snd (pollSignals E P now h m v db)"
| "exec_edge E P (now, EdgeAck h q r) db = snd (edgeAck E now h q r db)"
| "exec_edge E P (now, EdgeHeartbeat h b ip) db = snd (edgeHeartbeat E P now h b ip db)"
| "exec_edge E P (now, Sweep) db = sweepStale P now db"
| "exec_edge E P (now, PruneQueue) db = prune_queue now db"
| "exec_edge E P (now, Enqueue q) db = enqueue q db"

section \<open>The queue under each request\<close>

lemma queue_frames [simp]:
  "eb_queue (update_state d f db) = eb_queue db" "eb_license (update_state d f db) = eb_license db"
  "eb_queue (update_device u g db) = eb_queue db"
  "eb_queue (update_queue p h db) = update_rows p h (eb_queue db)" "eb_license (update_queue p h db) = eb_license db"
  "eb_queue (count_poll d n now db) = eb_queue db" "eb_license (count_poll d n now db) = eb_license db"
  by (simp_all add: update_state_def update_device_def update_queue_def count_poll_def)

lemma record_version_frames [simp]:
  "eb_queue (record_version d v now db) = eb_queue db" "eb_license (record_version d v now db) = eb_license db"
  by (simp_all add: record_version_def Let_def)

lemma dead_letter_frames [simp]:
  "eb_license (dead_letter d now db) = eb_license db" "eb_license (reclaim d now db) = eb_license db"
  by (simp_all add: dead_letter_def reclaim_def)

lemma note_error_simps [simp]:
  "qu_id (note_error m q) = qu_id q" "qu_device (note_error m q) = qu_device q" "qu_status (note_error m q) = qu_status q"
  "qu_attempts (note_error m q) = qu_attempts q" "qu_payload (note_error m q) = qu_payload q"
  "qu_in_flight_at (note_error m q) = qu_in_flight_at q"
  by (simp_all add: note_error_def)

lemma claim_row_simps [simp]:
  "qu_id (claim_row now q) = qu_id q" "qu_device (claim_row now q) = qu_device q"
  "qu_status (claim_row now q) = Q_IN_FLIGHT" "qu_payload (claim_row now q) = qu_payload q"
  "qu_attempts (claim_row now q) = qu_attempts q + 1" "qu_in_flight_at (claim_row now q) = Some now"
  by (simp_all add: claim_row_def)

lemma heartbeat_queue:
  "eb_queue (snd (edge_heartbeat P now d b ip db)) = eb_queue db"
proof -
  have t: "eb_queue (hb_terminal d x now db) = eb_queue db" "eb_queue (hb_broker d n s db) = eb_queue db"
    "eb_queue (hb_equity d e now db) = eb_queue db" "eb_queue (hb_error d c m now db) = eb_queue db" for x n s e c m db
    by (auto simp: hb_terminal_def hb_broker_def hb_equity_def hb_error_def Let_def split: option.splits)
  have l: "eb_queue db' = eb_queue db" if "hb_account_login d b ty now db = Inr db'" for ty db db'
    using that by (auto simp: hb_account_login_def Let_def split: if_splits)
  have a: "eb_queue (snd (hb_account_type d b now db)) = eb_queue db"
    "fst (hb_account_type d b now db) = Inr db' \<Longrightarrow> eb_queue db' = eb_queue db" for db db'
    by (auto simp: hb_account_type_def Let_def dest: l split: if_splits)
  have fin: "eb_queue (snd (case hb_account_type d b now x of (Inl e, y) \<Rightarrow> (Inl e, y) | (Inr z, _) \<Rightarrow> (Inr now, z))) =
      eb_queue x" for x
  proof (cases "hb_account_type d b now x")
    case (Pair res y)
    then show ?thesis using a [of x] by (cases res) auto
  qed
  show ?thesis by (simp add: edge_heartbeat_def Let_def fin t split del: sum.split)
qed

text \<open>The queue after the reclaim, the expiry and the entitlement filter of a poll.\<close>

definition prepared :: "pg_casts \<Rightarrow> time \<Rightarrow> uuid \<Rightarrow> edge_db \<Rightarrow> edge_db result" where
  "prepared P now d db =
     map_sum id (expire_unentitled d)
       (expire_ttl P (\<lambda>q. qu_device q = d) (\<lambda>q. q\<lparr>qu_status := Q_EXPIRED\<rparr>) now (reclaim d now (dead_letter d now db)))"

lemma poll_cases [case_names failed delivered]:
  obtains
    (failed) e where "prepared P now d (record_version d v now db) = Inl e"
      "poll P now d m v db = (Inl e, reclaim d now (dead_letter d now (record_version d v now db)))"
  | (delivered) db3 where "prepared P now d (record_version d v now db) = Inr db3"
      "poll P now d m v db = (Inr (fst (claim d (max_signals m) now db3)),
        count_poll d (length (fst (claim d (max_signals m) now db3))) now (snd (claim d (max_signals m) now db3)))"
proof (cases "expire_ttl P (\<lambda>q. qu_device q = d) (\<lambda>q. q\<lparr>qu_status := Q_EXPIRED\<rparr>) now
    (reclaim d now (dead_letter d now (record_version d v now db)))")
  case (Inl e)
  then show thesis by (intro failed) (simp_all add: prepared_def poll_def Let_def)
next
  case (Inr db2)
  then show thesis by (intro delivered) (simp_all add: prepared_def poll_def Let_def split_beta)
qed

section \<open>Attempts\<close>

definition capped :: "queue_row \<Rightarrow> bool" where
  "capped q \<longleftrightarrow> qu_attempts q \<le> 50 \<and> (qu_status q = Q_PENDING \<longrightarrow> qu_attempts q < 50)"

definition queue_inv :: "edge_db \<Rightarrow> bool" where
  "queue_inv db \<longleftrightarrow> distinct (map qu_id (eb_queue db)) \<and> (\<forall>q\<in>set (eb_queue db). capped q)"

lemma queue_inv_same: "queue_inv db \<Longrightarrow> eb_queue db' = eb_queue db \<Longrightarrow> queue_inv db'"
  by (simp add: queue_inv_def)

lemma queue_inv_update:
  assumes "queue_inv db" and "\<And>q. qu_id (f q) = qu_id q" and "\<And>q. q \<in> set (eb_queue db) \<Longrightarrow> p q \<Longrightarrow> capped q \<Longrightarrow> capped (f q)"
  shows "queue_inv (update_queue p f db)"
  using assms by (auto simp: queue_inv_def map_update_rows_frame ball_update_rows)

lemma reclaim_inv:
  assumes "queue_inv db"
  shows "queue_inv (reclaim d now (dead_letter d now db))"
proof -
  have "queue_inv (dead_letter d now db)"
    unfolding dead_letter_def by (rule queue_inv_update [OF assms]) (simp_all add: capped_def)
  moreover have "\<forall>q\<in>set (eb_queue (dead_letter d now db)). stale d now q \<longrightarrow> qu_attempts q < 50"
    by (auto simp: dead_letter_def ball_update_rows stale_def)
  ultimately show ?thesis
    unfolding reclaim_def by (intro queue_inv_update) (auto simp: capped_def)
qed

lemma expire_ttl_Inr:
  assumes "expire_ttl P p f now db = Inr db'"
  shows "db' = update_queue (\<lambda>q. (p q \<and> qu_status q = Q_PENDING \<and> expiry_text q \<noteq> None) \<and>
      (case Option.bind (expiry_text q) (pg_ts P) of Some t \<Rightarrow> t < now | None \<Rightarrow> False)) f db"
  using assms by (simp add: expire_ttl_def Let_def split: if_splits)

lemma expire_unentitled_cases [case_names same expired]:
  obtains (same) "expire_unentitled d db = db" "first_row (\<lambda>r. dv_id r = d) (devices (eb_license db)) = None"
  | (expired) r where "first_row (\<lambda>r. dv_id r = d) (devices (eb_license db)) = Some r"
      "expire_unentitled d db = update_queue (\<lambda>q. qu_device q = d \<and> qu_status q = Q_PENDING \<and> strategy_text q \<noteq> None \<and>
            not_entitled (eb_license db) r q)
          (\<lambda>q. note_error '' entitlement-revoked;'' (q\<lparr>qu_status := Q_EXPIRED\<rparr>)) db"
  by (cases "first_row (\<lambda>r. dv_id r = d) (devices (eb_license db))") (auto simp: expire_unentitled_def)

lemma expire_inv:
  assumes "queue_inv db" and "expire_ttl P p f now db = Inr db'"
    and "\<And>q. qu_id (f q) = qu_id q" "\<And>q. qu_attempts (f q) = qu_attempts q" "\<And>q. qu_status (f q) = Q_EXPIRED"
  shows "queue_inv db'"
  unfolding expire_ttl_Inr [OF assms(2)]
  by (rule queue_inv_update [OF assms(1)]) (simp_all add: capped_def assms(3-5))

lemma prepared_Inr:
  assumes "prepared P now d db = Inr db3"
  obtains db2 where "expire_ttl P (\<lambda>q. qu_device q = d) (\<lambda>q. q\<lparr>qu_status := Q_EXPIRED\<rparr>) now
      (reclaim d now (dead_letter d now db)) = Inr db2" "db3 = expire_unentitled d db2"
  using assms by (cases "expire_ttl P (\<lambda>q. qu_device q = d) (\<lambda>q. q\<lparr>qu_status := Q_EXPIRED\<rparr>) now
      (reclaim d now (dead_letter d now db))") (auto simp: prepared_def)

lemma prepared_inv:
  assumes "queue_inv db" and "prepared P now d db = Inr db3"
  shows "queue_inv db3"
proof -
  obtain db2 where db2: "expire_ttl P (\<lambda>q. qu_device q = d) (\<lambda>q. q\<lparr>qu_status := Q_EXPIRED\<rparr>) now
      (reclaim d now (dead_letter d now db)) = Inr db2" "db3 = expire_unentitled d db2"
    by (rule prepared_Inr [OF assms(2)])
  have "queue_inv db2" by (rule expire_inv [OF reclaim_inv [OF assms(1)] db2(1)]) simp_all
  then show ?thesis unfolding db2(2)
    by (cases rule: expire_unentitled_cases [of d db2]) (auto simp: capped_def intro!: queue_inv_update)
qed

lemma claimable_pending:
  assumes "distinct (map qu_id (eb_queue db))" and "q \<in> set (eb_queue db)" "qu_id q \<in> set (claimable d n db)"
  shows "qu_device q = d \<and> qu_status q = Q_PENDING"
proof -
  obtain r where r: "r \<in> set (eb_queue db)" "qu_id r = qu_id q" "qu_device r = d" "qu_status r = Q_PENDING"
    using assms(3) by (auto simp: claimable_def dest!: in_set_takeD)
  moreover have "r = q" by (rule key_unique [OF assms(1) r(1) assms(2) r(2)])
  ultimately show ?thesis by simp
qed

lemma claim_inv:
  assumes "queue_inv db"
  shows "queue_inv (snd (claim d n now db))"
proof -
  have "queue_inv (update_queue (\<lambda>q. qu_id q \<in> set (claimable d n db)) (claim_row now) db)"
  proof (rule queue_inv_update [OF assms])
    fix q assume "q \<in> set (eb_queue db)" "qu_id q \<in> set (claimable d n db)" "capped q"
    with claimable_pending [of db q d n] assms show "capped (claim_row now q)"
      by (auto simp: queue_inv_def capped_def)
  qed simp
  then show ?thesis by (simp add: claim_def Let_def)
qed

lemma poll_inv: "queue_inv db \<Longrightarrow> queue_inv (snd (poll P now d m v db))"
proof (cases rule: poll_cases [of P now d v db m])
  case (failed e)
  assume "queue_inv db"
  then have "queue_inv (record_version d v now db)" by (rule queue_inv_same) simp
  with failed show ?thesis by (simp add: reclaim_inv)
next
  case (delivered db3)
  assume "queue_inv db"
  then have "queue_inv (record_version d v now db)" by (rule queue_inv_same) simp
  then have "queue_inv (snd (claim d (max_signals m) now db3))" by (intro claim_inv prepared_inv [OF _ delivered(1)])
  then show ?thesis unfolding delivered(2) snd_conv by (rule queue_inv_same) simp
qed

lemma ack_inv: "queue_inv db \<Longrightarrow> queue_inv (snd (ack now d i r db))"
proof (cases i)
  case (Some j)
  assume inv: "queue_inv db"
  let ?f = "\<lambda>q. q\<lparr>qu_status := Q_ACKED, qu_acked_at := Some now, qu_result := Some r\<rparr>"
  have "queue_inv (update_queue (\<lambda>q. qu_id q = j \<and> qu_device q = d) ?f db)"
    by (rule queue_inv_update [OF inv]) (simp_all add: capped_def)
  then show ?thesis using inv Some by (auto simp: ack_def elim: queue_inv_same)
qed (simp add: ack_def)

lemma verify_edge_queue: "eb_queue (snd (verify_edge E now h db)) = eb_queue db"
  by (auto simp: verify_edge_def split: option.splits prod.splits verdict.splits)

lemma sweep_inv: "queue_inv db \<Longrightarrow> queue_inv (sweepStale P now db)"
proof (cases "expire_ttl P (\<lambda>q. True) (\<lambda>q. note_error '' ttl-swept;'' (q\<lparr>qu_status := Q_EXPIRED\<rparr>)) now db")
  case (Inr db1)
  assume "queue_inv db"
  then have "queue_inv db1" by (rule expire_inv [OF _ Inr]) simp_all
  with Inr show ?thesis by (simp add: sweepStale_def) (auto simp: capped_def intro!: queue_inv_update)
qed (simp add: sweepStale_def)

lemma enqueue_inv:
  assumes "queue_inv db"
  shows "queue_inv (enqueue q db)"
proof (cases "exists_row (\<lambda>r. qu_id r = qu_id q) (eb_queue db)")
  case False
  let ?q = "q\<lparr>qu_status := Q_PENDING, qu_attempts := 0, qu_in_flight_at := None\<rparr>"
  have "distinct (map qu_id (eb_queue db @ [?q]))"
    by (rule distinct_insert_key) (use False assms in \<open>simp_all add: queue_inv_def\<close>)
  with False assms show ?thesis by (auto simp: enqueue_def queue_inv_def capped_def)
qed (use assms in \<open>simp add: enqueue_def\<close>)

text \<open>The three signed endpoints run their operation after the verification.\<close>

lemma endpoint_cases [case_names poll_refused poll_done]:
  obtains e db1 where "pollSignals E P now h m v db = (Inl e, db1)" "eb_queue db1 = eb_queue db"
  | d db1 where "pollSignals E P now h m v db = poll P now d m v db1" "eb_queue db1 = eb_queue db"
      "eb_license db1 = eb_license (snd (verify_edge E now h db))" "fst (verify_edge E now h db) = Inr d"
proof (cases "verify_edge E now h db")
  case (Pair res db1)
  then have "eb_queue db1 = eb_queue db" using verify_edge_queue [of E now h db] by simp
  with Pair that show thesis by (cases res) (auto simp: pollSignals_def)
qed

lemma exec_edge_inv:
  assumes inv: "queue_inv db"
  shows "queue_inv (exec_edge E P req db)"
proof (cases "(E, P, req, db)" rule: exec_edge.cases)
  case (1 E' P' now h m v db')
  show ?thesis
    by (cases rule: endpoint_cases [of E P now h m v db]) (use 1 inv in \<open>auto intro: poll_inv queue_inv_same\<close>)
next
  case (2 E' P' now h q r db')
  obtain res db1 where v: "verify_edge E now h db = (res, db1)" by fastforce
  then have "queue_inv db1" using verify_edge_queue [of E now h db] inv by (simp add: queue_inv_def)
  with 2 v show ?thesis by (cases res) (simp_all add: edgeAck_def split_beta ack_inv)
next
  case (3 E' P' now h b ip db')
  obtain res db1 where v: "verify_edge E now h db = (res, db1)" by fastforce
  then have "queue_inv db1" using verify_edge_queue [of E now h db] inv by (simp add: queue_inv_def)
  with 3 v show ?thesis
    by (cases res) (simp_all add: edgeHeartbeat_def queue_inv_same [OF \<open>queue_inv db1\<close> heartbeat_queue])
next
  case (5 E' P' now db')
  then show ?thesis using inv by (auto simp: prune_queue_def queue_inv_def distinct_map_filter)
qed (use inv in \<open>simp_all add: sweep_inv enqueue_inv\<close>)

interpretation delivery_attempts: guarded_service "exec_edge E P" queue_inv for E P
  by unfold_locales (rule exec_edge_inv)

section \<open>The life cycle of a signal\<close>

text \<open>
  The moves the service makes on the status of a row. The two closed states that are not acknowledged
  can still be acknowledged, because the acknowledgement does not look at the status.
\<close>

inductive queue_edge :: "queue_status \<Rightarrow> queue_status \<Rightarrow> bool" where
  claimed: "queue_edge Q_PENDING Q_IN_FLIGHT"
| reclaimed: "queue_edge Q_IN_FLIGHT Q_PENDING"
| dead_lettered: "queue_edge Q_IN_FLIGHT Q_EXPIRED"
| timed_out: "queue_edge Q_PENDING Q_EXPIRED"
| acknowledged: "queue_edge s Q_ACKED"

inductive_simps queue_edge_from [simp]: "queue_edge Q_ACKED s" "queue_edge Q_EXPIRED s" "queue_edge Q_FAILED s"

abbreviation queue_path :: "queue_status \<Rightarrow> queue_status \<Rightarrow> bool" where
  "queue_path \<equiv> rtranclp queue_edge"

definition closed_status :: "queue_status \<Rightarrow> bool" where
  "closed_status s \<longleftrightarrow> s \<in> {Q_ACKED, Q_EXPIRED, Q_FAILED}"

lemma queue_path_closed: "queue_path s t \<Longrightarrow> closed_status s \<Longrightarrow> closed_status t \<and> (s = Q_ACKED \<longrightarrow> t = Q_ACKED)"
  by (induction rule: rtranclp_induct) (auto simp: closed_status_def)

lemma queue_path_edge [intro]: "queue_edge s t \<Longrightarrow> queue_path s t"
  by (rule r_into_rtranclp)

text \<open>Rows with the identifier \<open>i\<close> keep their device and payload and follow the moves.\<close>

definition follows :: "uuid \<Rightarrow> edge_db \<Rightarrow> edge_db \<Rightarrow> bool" where
  "follows i db db' \<longleftrightarrow> (\<forall>q'\<in>set (eb_queue db'). qu_id q' = i \<longrightarrow>
     (\<exists>q\<in>set (eb_queue db). qu_id q = i \<and> qu_device q' = qu_device q \<and> qu_payload q' = qu_payload q \<and>
        queue_path (qu_status q) (qu_status q')))"

lemma follows_refl [intro]: "follows i db db"
  by (auto simp: follows_def)

lemma follows_trans [trans]: "follows i db db' \<Longrightarrow> follows i db' db'' \<Longrightarrow> follows i db db''"
  unfolding follows_def by (metis (no_types, lifting) rtranclp_trans)

lemma follows_same: "eb_queue db' = eb_queue db \<Longrightarrow> follows i db db'"
  by (auto simp: follows_def)

lemma follows_update:
  assumes "\<And>q. qu_id (f q) = qu_id q" "\<And>q. qu_device (f q) = qu_device q" "\<And>q. qu_payload (f q) = qu_payload q"
    and "\<And>q. q \<in> set (eb_queue db) \<Longrightarrow> p q \<Longrightarrow> queue_edge (qu_status q) (qu_status (f q))"
  shows "follows i db (update_queue p f db)"
  unfolding follows_def queue_frames ball_update_rows using assms by fastforce

lemma follows_reclaim: "follows i db (reclaim d now (dead_letter d now db))"
proof (rule follows_trans)
  show "follows i db (dead_letter d now db)"
    unfolding dead_letter_def by (rule follows_update) (auto simp: stale_def intro: queue_edge.intros)
  show "follows i (dead_letter d now db) (reclaim d now (dead_letter d now db))"
    unfolding reclaim_def by (rule follows_update) (auto simp: stale_def intro: queue_edge.intros)
qed

lemma follows_expire_ttl:
  assumes "expire_ttl P p f now db = Inr db'" "\<And>q. qu_id (f q) = qu_id q" "\<And>q. qu_device (f q) = qu_device q"
    "\<And>q. qu_payload (f q) = qu_payload q" "\<And>q. qu_status (f q) = Q_EXPIRED"
  shows "follows i db db'"
  unfolding expire_ttl_Inr [OF assms(1)]
  by (rule follows_update) (auto simp: assms(2-5) intro: queue_edge.intros)

lemma follows_expire_unentitled: "follows i db (expire_unentitled d db)"
  by (cases rule: expire_unentitled_cases [of d db])
    (auto intro: queue_edge.intros intro!: follows_update)

lemma follows_claim:
  assumes "queue_inv db"
  shows "follows i db (snd (claim d n now db))"
proof -
  have "follows i db (update_queue (\<lambda>q. qu_id q \<in> set (claimable d n db)) (claim_row now) db)"
    by (rule follows_update) (use claimable_pending assms in \<open>auto simp: queue_inv_def intro: queue_edge.intros\<close>)
  then show ?thesis by (simp add: claim_def Let_def)
qed

lemma follows_prepared:
  assumes "prepared P now d db = Inr db3"
  shows "follows i db db3"
proof -
  obtain db2 where db2: "expire_ttl P (\<lambda>q. qu_device q = d) (\<lambda>q. q\<lparr>qu_status := Q_EXPIRED\<rparr>) now
      (reclaim d now (dead_letter d now db)) = Inr db2" "db3 = expire_unentitled d db2"
    by (rule prepared_Inr [OF assms])
  have "follows i db (reclaim d now (dead_letter d now db))" by (rule follows_reclaim)
  also have "follows i \<dots> db2" by (rule follows_expire_ttl [OF db2(1)]) simp_all
  also have "follows i db2 db3" unfolding db2(2) by (rule follows_expire_unentitled)
  finally show ?thesis .
qed

lemma follows_poll:
  assumes "queue_inv db"
  shows "follows i db (snd (poll P now d m v db))"
proof -
  let ?db1 = "record_version d v now db"
  have inv: "queue_inv ?db1" by (rule queue_inv_same [OF assms]) simp
  have start: "follows i db ?db1" by (rule follows_same) simp
  show ?thesis
  proof (cases rule: poll_cases [of P now d v db m])
    case (failed e)
    show ?thesis unfolding failed(2) snd_conv by (rule follows_trans [OF start follows_reclaim])
  next
    case (delivered db3)
    note start
    also have "follows i ?db1 db3" by (rule follows_prepared [OF delivered(1)])
    also have "follows i db3 (snd (claim d (max_signals m) now db3))"
      by (rule follows_claim [OF prepared_inv [OF inv delivered(1)]])
    also have "follows i \<dots> (snd (poll P now d m v db))" unfolding delivered(2) snd_conv by (rule follows_same) simp
    finally show ?thesis .
  qed
qed

lemma follows_ack: "follows i db (snd (ack now d j r db))"
proof (cases j)
  case (Some k)
  have "follows i db (update_queue (\<lambda>q. qu_id q = k \<and> qu_device q = d)
      (\<lambda>q. q\<lparr>qu_status := Q_ACKED, qu_acked_at := Some now, qu_result := Some r\<rparr>) db)"
    by (rule follows_update) (auto intro: queue_edge.intros)
  from follows_trans [OF this follows_same] show ?thesis by (auto simp: ack_def Some)
qed (auto simp: ack_def)

lemma follows_sweep: "follows i db (sweepStale P now db)"
proof (cases "expire_ttl P (\<lambda>q. True) (\<lambda>q. note_error '' ttl-swept;'' (q\<lparr>qu_status := Q_EXPIRED\<rparr>)) now db")
  case (Inr db1)
  have "follows i db db1" by (rule follows_expire_ttl [OF Inr]) simp_all
  also have "follows i db1 (sweepStale P now db)" unfolding sweepStale_def Inr sum.case
    by (rule follows_update) (auto intro: queue_edge.intros)
  finally show ?thesis .
qed (auto simp: sweepStale_def)

fun enqueues :: "uuid \<Rightarrow> time \<times> edge_request \<Rightarrow> bool" where
  "enqueues i (now, Enqueue q) = (qu_id q = i)"
| "enqueues i _ = False"

lemma follows_exec:
  assumes "queue_inv db" "\<not> enqueues i req"
  shows "follows i db (exec_edge E P req db)"
proof (cases "(E, P, req, db)" rule: exec_edge.cases)
  case (1 E' P' now h m v db')
  have "follows i db (snd (pollSignals E P now h m v db))"
  proof (cases rule: endpoint_cases [of E P now h m v db])
    case (poll_refused e db1)
    then show ?thesis by (simp add: follows_same)
  next
    case (poll_done d db1)
    have "queue_inv db1" by (rule queue_inv_same [OF assms(1) poll_done(2)])
    from follows_trans [OF follows_same [OF poll_done(2)] follows_poll [OF this]] show ?thesis by (simp add: poll_done(1))
  qed
  with 1 show ?thesis by simp
next
  case (2 E' P' now h q r db')
  obtain res db1 where v: "verify_edge E now h db = (res, db1)" by fastforce
  then have s: "follows i db db1" using verify_edge_queue [of E now h db] by (simp add: follows_same)
  from follows_trans [OF s follows_ack] 2 v s show ?thesis by (cases res) (simp_all add: edgeAck_def split_beta)
next
  case (3 E' P' now h b ip db')
  obtain res db1 where v: "verify_edge E now h db = (res, db1)" by fastforce
  then have s: "follows i db db1" using verify_edge_queue [of E now h db] by (simp add: follows_same)
  from follows_trans [OF s follows_same [OF heartbeat_queue]] 3 v s show ?thesis
    by (cases res) (simp_all add: edgeHeartbeat_def)
next
  case (5 E' P' now db')
  then show ?thesis by (auto simp: prune_queue_def follows_def)
next
  case (6 E' P' now q db')
  with assms(2) show ?thesis by (auto simp: enqueue_def follows_def)
qed (simp_all add: follows_sweep)

interpretation signal_lifecycle:
  selective_service "exec_edge E P" "\<lambda>db db'. queue_inv db \<longrightarrow> queue_inv db' \<and> follows i db db'" "\<lambda>req. \<not> enqueues i req" for E P i
  by unfold_locales (auto intro: follows_trans exec_edge_inv follows_exec)

section \<open>The batch of a poll\<close>

definition past_ttl :: "pg_casts \<Rightarrow> time \<Rightarrow> queue_row \<Rightarrow> bool" where
  "past_ttl P now q \<longleftrightarrow> (case Option.bind (expiry_text q) (pg_ts P) of Some t \<Rightarrow> t < now | None \<Rightarrow> False)"

lemma payload_only:
  assumes "qu_payload q' = qu_payload q"
  shows "expiry_text q' = expiry_text q" "strategy_text q' = strategy_text q"
    "list_excludes xs q' = list_excludes xs q" "past_ttl P now q' = past_ttl P now q"
  unfolding expiry_text_def strategy_text_def list_excludes_def past_ttl_def field_def assms by (rule refl)+

lemma not_entitled_payload:
  assumes "qu_payload q' = qu_payload q"
  shows "not_entitled l r q' = not_entitled l r q"
  unfolding not_entitled_def payload_only(3) [OF assms] by (rule refl)

text \<open>One pass over the queue, as a function on rows.\<close>

definition passes :: "(queue_row \<Rightarrow> queue_row) \<Rightarrow> edge_db \<Rightarrow> edge_db \<Rightarrow> bool" where
  "passes g db db' \<longleftrightarrow> eb_queue db' = map g (eb_queue db) \<and> eb_license db' = eb_license db \<and>
     (\<forall>q. qu_id (g q) = qu_id q \<and> qu_created_at (g q) = qu_created_at q \<and> qu_signal (g q) = qu_signal q \<and>
        qu_payload (g q) = qu_payload q \<and> qu_attempts (g q) = qu_attempts q)"

abbreviation waiting :: "uuid \<Rightarrow> queue_row \<Rightarrow> bool" where
  "waiting d q \<equiv> qu_device q = d \<and> qu_status q = Q_PENDING"

lemma note_error_more [simp]:
  "qu_created_at (note_error m q) = qu_created_at q" "qu_signal (note_error m q) = qu_signal q"
  by (simp_all add: note_error_def)

lemma passes_comp: "passes g db db' \<Longrightarrow> passes h db' db'' \<Longrightarrow> passes (h \<circ> g) db db''"
  by (simp add: passes_def)

lemma passes_update:
  assumes "\<And>q. qu_id (f q) = qu_id q \<and> qu_created_at (f q) = qu_created_at q \<and> qu_signal (f q) = qu_signal q \<and>
    qu_payload (f q) = qu_payload q \<and> qu_attempts (f q) = qu_attempts q"
  shows "passes (\<lambda>q. if p q then f q else q) db (update_queue p f db)"
  using assms by (simp add: passes_def update_rows_def)

lemma reclaim_passes:
  obtains g where "passes g db (reclaim d now (dead_letter d now db))"
    "\<And>q. waiting d (g q) \<longleftrightarrow> qu_device q = d \<and> (qu_status q = Q_PENDING \<or> stale d now q \<and> qu_attempts q < 50)"
proof -
  let ?dl = "\<lambda>q. if stale d now q \<and> 50 \<le> qu_attempts q
      then note_error '' dead-lettered (attempt cap);'' (q\<lparr>qu_status := Q_EXPIRED\<rparr>) else q"
  let ?rc = "\<lambda>q. if stale d now q then note_error '' reclaimed;'' (q\<lparr>qu_status := Q_PENDING\<rparr>) else q"
  have "passes (?rc \<circ> ?dl) db (reclaim d now (dead_letter d now db))"
    by (rule passes_comp [of _ _ "dead_letter d now db"]; unfold reclaim_def dead_letter_def; rule passes_update) simp_all
  moreover have "waiting d ((?rc \<circ> ?dl) q) \<longleftrightarrow>
      qu_device q = d \<and> (qu_status q = Q_PENDING \<or> stale d now q \<and> qu_attempts q < 50)" for q
    by (auto simp: stale_def)
  ultimately show thesis using that by blast
qed

lemma expire_ttl_passes:
  assumes "expire_ttl P (\<lambda>q. qu_device q = d) (\<lambda>q. q\<lparr>qu_status := Q_EXPIRED\<rparr>) now db = Inr db'"
  obtains g where "passes g db db'" "\<And>q. waiting d (g q) \<longleftrightarrow> waiting d q \<and> \<not> past_ttl P now q"
proof -
  let ?p = "\<lambda>q. (qu_device q = d \<and> qu_status q = Q_PENDING \<and> expiry_text q \<noteq> None) \<and>
      (case Option.bind (expiry_text q) (pg_ts P) of Some t \<Rightarrow> t < now | None \<Rightarrow> False)"
  let ?g = "\<lambda>q. if ?p q then q\<lparr>qu_status := Q_EXPIRED\<rparr> else q"
  have "passes ?g db db'" unfolding expire_ttl_Inr [OF assms] by (rule passes_update) simp
  moreover have "waiting d (?g q) \<longleftrightarrow> waiting d q \<and> \<not> past_ttl P now q" for q
    by (cases "expiry_text q") (auto simp: past_ttl_def)
  ultimately show thesis using that by blast
qed

definition unrestricted :: "uuid \<Rightarrow> edge_db \<Rightarrow> queue_row \<Rightarrow> bool" where
  "unrestricted d db q \<longleftrightarrow>
     (case first_row (\<lambda>r. dv_id r = d) (devices (eb_license db)) of
        None \<Rightarrow> True
      | Some r \<Rightarrow> strategy_text q = None \<or> \<not> not_entitled (eb_license db) r q)"

lemma expire_unentitled_passes:
  obtains g where "passes g db (expire_unentitled d db)" "\<And>q. waiting d (g q) \<longleftrightarrow> waiting d q \<and> unrestricted d db q"
proof (cases rule: expire_unentitled_cases [of d db])
  case same
  show thesis by (rule that [of id]) (simp_all add: same passes_def unrestricted_def)
next
  case (expired r)
  let ?p = "\<lambda>q. qu_device q = d \<and> qu_status q = Q_PENDING \<and> strategy_text q \<noteq> None \<and> not_entitled (eb_license db) r q"
  let ?g = "\<lambda>q. if ?p q then note_error '' entitlement-revoked;'' (q\<lparr>qu_status := Q_EXPIRED\<rparr>) else q"
  have "passes ?g db (expire_unentitled d db)" unfolding expired(2) by (rule passes_update) simp
  moreover have "waiting d (?g q) \<longleftrightarrow> waiting d q \<and> unrestricted d db q" for q
    by (auto simp: unrestricted_def expired(1))
  ultimately show thesis using that by blast
qed

text \<open>
  The signals a poll may deliver: waiting for the device, or in flight for more than thirty seconds and
  tried less than fifty times; not past their time to live; and covered by the license.
\<close>

definition deliverable :: "pg_casts \<Rightarrow> time \<Rightarrow> uuid \<Rightarrow> edge_db \<Rightarrow> queue_row \<Rightarrow> bool" where
  "deliverable P now d db q \<longleftrightarrow> qu_device q = d \<and>
     (qu_status q = Q_PENDING \<or> stale d now q \<and> qu_attempts q < 50) \<and> \<not> past_ttl P now q \<and> unrestricted d db q"

lemma unrestricted_payload:
  assumes "qu_payload q' = qu_payload q" "eb_license db' = eb_license db"
  shows "unrestricted d db' q' = unrestricted d db q"
  unfolding unrestricted_def payload_only(2) [OF assms(1)] not_entitled_payload [OF assms(1)] assms(2) by (rule refl)

lemma prepared_passes:
  assumes "prepared P now d db = Inr db3"
  obtains g where "passes g db db3" "\<And>q. waiting d (g q) \<longleftrightarrow> deliverable P now d db q"
proof -
  obtain db2 where db2: "expire_ttl P (\<lambda>q. qu_device q = d) (\<lambda>q. q\<lparr>qu_status := Q_EXPIRED\<rparr>) now
      (reclaim d now (dead_letter d now db)) = Inr db2" "db3 = expire_unentitled d db2"
    by (rule prepared_Inr [OF assms])
  obtain g1 where g1: "passes g1 db (reclaim d now (dead_letter d now db))"
    "\<And>q. waiting d (g1 q) \<longleftrightarrow> qu_device q = d \<and> (qu_status q = Q_PENDING \<or> stale d now q \<and> qu_attempts q < 50)"
    using reclaim_passes [of db d now] by blast
  obtain g2 where g2: "passes g2 (reclaim d now (dead_letter d now db)) db2"
    "\<And>q. waiting d (g2 q) \<longleftrightarrow> waiting d q \<and> \<not> past_ttl P now q"
    using expire_ttl_passes [OF db2(1)] by blast
  obtain g3 where g3: "passes g3 db2 db3" "\<And>q. waiting d (g3 q) \<longleftrightarrow> waiting d q \<and> unrestricted d db2 q"
    unfolding db2(2) using expire_unentitled_passes [of db2 d] by blast
  have p12: "passes (g2 \<circ> g1) db db2" by (rule passes_comp [OF g1(1) g2(1)])
  have "past_ttl P now (g1 q) = past_ttl P now q" "unrestricted d db2 (g2 (g1 q)) = unrestricted d db q" for q
    using g1(1) p12 by (auto simp: passes_def intro!: payload_only(4) unrestricted_payload)
  then have "waiting d ((g3 \<circ> (g2 \<circ> g1)) q) \<longleftrightarrow> deliverable P now d db q" for q
    unfolding deliverable_def o_def g3(2) g2(2) g1(2) by blast
  with passes_comp [OF p12 g3(1)] show thesis using that by blast
qed

definition poll_batch :: "pg_casts \<Rightarrow> time \<Rightarrow> uuid \<Rightarrow> nat \<Rightarrow> edge_db \<Rightarrow> queue_row list" where
  "poll_batch P now d n db = take n (sort_key qu_created_at (filter (deliverable P now d db) (eb_queue db)))"

lemma poll_batch_sub: "q \<in> set (poll_batch P now d n db) \<Longrightarrow> q \<in> set (eb_queue db) \<and> deliverable P now d db q"
  by (auto simp: poll_batch_def dest: in_set_takeD)

lemma claimable_batch:
  assumes "passes g db db3" "\<And>q. waiting d (g q) \<longleftrightarrow> deliverable P now d db q"
  shows "claimable d n db3 = map qu_id (poll_batch P now d n db)"
proof -
  have q: "eb_queue db3 = map g (eb_queue db)" "\<And>q. qu_created_at (g q) = qu_created_at q" "\<And>q. qu_id (g q) = qu_id q"
    using assms(1) by (simp_all add: passes_def)
  have "filter (waiting d) (map g xs) = map g (filter (deliverable P now d db) xs)" for xs
    by (induction xs) (simp_all add: assms(2))
  then show ?thesis
    unfolding claimable_def poll_batch_def q(1) by (simp add: sort_key_map q(2,3) take_map o_def)
qed

lemma poll_exact:
  assumes inv: "queue_inv db" and "poll P now d m v db = (Inr rows, db')"
  shows "distinct (map qu_id rows)"
    and "qu_id ` set rows = qu_id ` set (poll_batch P now d (max_signals m) db)"
    and "r \<in> set rows \<Longrightarrow> \<exists>q\<in>set (poll_batch P now d (max_signals m) db). qu_id r = qu_id q \<and>
      qu_signal r = qu_signal q \<and> qu_payload r = qu_payload q \<and> qu_status r = Q_IN_FLIGHT \<and>
      qu_attempts r = qu_attempts q + 1"
proof -
  let ?db1 = "record_version d v now db" let ?batch = "poll_batch P now d (max_signals m) db"
  have same: "poll_batch P now d n ?db1 = poll_batch P now d n db" for n
  proof -
    have "deliverable P now d ?db1 = deliverable P now d db"
      by (rule ext) (simp add: deliverable_def unrestricted_def cong: option.case_cong)
    then show ?thesis by (simp add: poll_batch_def)
  qed
  obtain db3 where db3: "prepared P now d ?db1 = Inr db3" "rows = fst (claim d (max_signals m) now db3)"
    using assms(2) by (cases rule: poll_cases [of P now d v db m]) auto
  obtain g where g: "passes g ?db1 db3" "\<And>q. waiting d (g q) \<longleftrightarrow> deliverable P now d ?db1 q"
    using prepared_passes [OF db3(1)] by blast
  have ids: "claimable d (max_signals m) db3 = map qu_id ?batch" by (simp add: claimable_batch [OF g] same)
  have queue3: "eb_queue db3 = map g (eb_queue db)" using g(1) by (simp add: passes_def)
  have keep: "qu_id (g q) = qu_id q" "qu_signal (g q) = qu_signal q" "qu_payload (g q) = qu_payload q"
    "qu_attempts (g q) = qu_attempts q" for q using g(1) by (simp_all add: passes_def)
  have rows: "rows = map (\<lambda>q. claim_row now (g q)) (filter (\<lambda>q. qu_id q \<in> qu_id ` set ?batch) (eb_queue db))"
    by (simp add: db3(2) claim_def Let_def ids queue3 filter_map o_def keep(1))
  have key: "distinct (map qu_id (eb_queue db))" using inv by (simp add: queue_inv_def)
  show "distinct (map qu_id rows)" unfolding rows by (simp add: o_def keep(1) distinct_map_filter key)
  show "qu_id ` set rows = qu_id ` set ?batch"
  proof -
    have "qu_id ` set rows = qu_id ` {q \<in> set (eb_queue db). qu_id q \<in> qu_id ` set ?batch}"
      unfolding rows by (simp add: image_image keep(1))
    also have "\<dots> = qu_id ` set ?batch" using poll_batch_sub [of _ P now d "max_signals m" db] by blast
    finally show ?thesis .
  qed
  assume "r \<in> set rows"
  then obtain q b where q: "q \<in> set (eb_queue db)" "r = claim_row now (g q)" "b \<in> set ?batch" "qu_id q = qu_id b"
    unfolding rows by auto
  have "b = q" using poll_batch_sub [OF q(3)] q(1,4) by (intro key_unique [OF key]) simp_all
  then have "q \<in> set ?batch" using q(3) by (simp only:)
  then show "\<exists>q\<in>set ?batch. qu_id r = qu_id q \<and> qu_signal r = qu_signal q \<and> qu_payload r = qu_payload q \<and>
      qu_status r = Q_IN_FLIGHT \<and> qu_attempts r = qu_attempts q + 1"
    unfolding q(2) by (rule bexI [rotated]) (simp add: keep claim_row_def)
qed

lemma max_signals_bounds: "1 \<le> max_signals m" "max_signals m \<le> 20"
  by (auto simp: max_signals_def Let_def split: option.splits)

text \<open>The verification only records the nonce.\<close>

lemma verify_edge_frame:
  assumes "verify_edge E now h db = (Inr d, db1)"
  shows "xh_device h = Some d \<and> deliverable P t d' db1 = deliverable P t d' db \<and> eb_queue db1 = eb_queue db"
proof -
  obtain p where p: "fst (verifyRequestSignature E now p (eb_license db)) = Valid" "xh_device h = Some d"
    "db1 = db\<lparr>eb_license := snd (verifyRequestSignature E now p (eb_license db))\<rparr>"
    using assms by (auto simp: verify_edge_def split: option.splits prod.splits verdict.splits) (metis fst_conv snd_conv)
  then have "db1 = db\<lparr>eb_license := store_nonce now p (eb_license db)\<rparr>" using verify_valid [OF p(1)] by auto
  moreover have "not_entitled (store_nonce now p l) = not_entitled l" for l
    by (simp add: fun_eq_iff not_entitled_def store_nonce_def cong: option.case_cong)
  moreover have "devices (store_nonce now p l) = devices l" for l by (simp add: store_nonce_def)
  ultimately show ?thesis
    using p(2) by (simp add: fun_eq_iff deliverable_def unrestricted_def cong: option.case_cong)
qed

lemma pollSignals_exact:
  assumes "queue_inv db" and "pollSignals E P now h m v db = (Inr rows, db')"
    and "batch = poll_batch P now (the (xh_device h)) (max_signals m) db"
  shows "1 \<le> max_signals m \<and> max_signals m \<le> 20 \<and> distinct (map qu_id rows) \<and> qu_id ` set rows = qu_id ` set batch \<and>
    (\<forall>r\<in>set rows. \<exists>q\<in>set batch. qu_id r = qu_id q \<and> qu_signal r = qu_signal q \<and> qu_payload r = qu_payload q \<and>
       qu_status r = Q_IN_FLIGHT \<and> qu_attempts r = qu_attempts q + 1)"
proof -
  obtain d db1 where v: "verify_edge E now h db = (Inr d, db1)" "poll P now d m v db1 = (Inr rows, db')"
    using assms(2) by (auto simp: pollSignals_def split: prod.splits sum.splits)
  have frame: "xh_device h = Some d" "deliverable P now d db1 = deliverable P now d db" "eb_queue db1 = eb_queue db"
    using verify_edge_frame [OF v(1)] by blast+
  then have "queue_inv db1" "batch = poll_batch P now d (max_signals m) db1"
    using assms(1,3) by (simp_all add: queue_inv_def poll_batch_def)
  with poll_exact [OF _ v(2)] show ?thesis by (simp add: max_signals_bounds del: One_nat_def)
qed

section \<open>Examples\<close>

definition example_queue_row :: "nat \<Rightarrow> time \<Rightarrow> string \<Rightarrow> queue_row" where
  "example_queue_row i t s = \<lparr>qu_id = i, qu_device = 7, qu_signal = ''sig'', qu_payload = [(''StrategyID'', s)],
     qu_status = Q_PENDING, qu_attempts = 0, qu_error = None, qu_created_at = t, qu_in_flight_at = None,
     qu_acked_at = None, qu_result = None\<rparr>"

definition example_edge :: edge_db where
  "example_edge = \<lparr>eb_license = example_device_db,
     eb_queue = [example_queue_row 1 3 ''STANDARD_SCALPING'', example_queue_row 2 2 ''ATEN'',
       example_queue_row 3 1 ''STANDARD_SCALPING''],
     eb_states = [], eb_errors = [], eb_account_types = []\<rparr>"

definition example_casts :: pg_casts where
  "example_casts = \<lparr>pg_ts = (\<lambda>s. None), pg_inet = (\<lambda>s. True)\<rparr>"

definition example_headers :: "string \<Rightarrow> string \<Rightarrow> edge_headers" where
  "example_headers ts n = \<lparr>xh_device = Some 7, xh_timestamp = Some ts, xh_nonce = Some n, xh_signature = Some ''ab'',
     xh_route = ''/api/v1/devices/edge-poll'', xh_body = []\<rparr>"

lemma example_edge_inv: "queue_inv example_edge"
  by (simp add: queue_inv_def capped_def example_edge_def example_queue_row_def)

section \<open>Limits of the entitlement filter\<close>

text \<open>
  The filter looks for the strategy as a pattern in the text of the list: a part of an allowed name
  passes, and so does every payload that spells its key \<^verbatim>\<open>strategy_id\<close>, which the outer condition accepts.
\<close>

lemma partial_strategy_passes:
  "\<not> list_excludes [''STANDARD_SCALPING''] (example_queue_row 1 0 ''SCALPING'')"
  "field ''StrategyID'' q = None \<Longrightarrow> \<not> list_excludes xs q"
  by (code_simp, simp add: list_excludes_def)

text \<open>A device that cannot be resolved is not filtered at all.\<close>

lemma unresolved_device_unfiltered:
  "first_row (\<lambda>r. dv_id r = d) (devices (eb_license db)) = None \<Longrightarrow> expire_unentitled d db = db"
  by (simp add: expire_unentitled_def)

section \<open>Properties\<close>

text \<open>
  C26. A signed poll delivers exactly the oldest deliverable signals of the device that signed it: those
  that wait for it or went stale in flight before the attempt cap, are not past their time to live and are
  covered by the license, up to the batch size, which is between one and twenty whatever the body asks
  for. Each is delivered once per poll, with its own payload, and counted as one more attempt.
\<close>

theorem poll_delivers_exactly:
  assumes "queue_inv db" and "pollSignals E P now h m v db = (Inr rows, db')"
    and "batch = poll_batch P now (the (xh_device h)) (max_signals m) db"
  shows "1 \<le> max_signals m \<and> max_signals m \<le> 20 \<and> distinct (map qu_id rows) \<and> qu_id ` set rows = qu_id ` set batch \<and>
    (\<forall>r\<in>set rows. \<exists>q\<in>set batch. qu_id r = qu_id q \<and> qu_signal r = qu_signal q \<and> qu_payload r = qu_payload q \<and>
       qu_status r = Q_IN_FLIGHT \<and> qu_attempts r = qu_attempts q + 1)"
  using pollSignals_exact [OF assms] .

theorem poll_delivers_exactly_witness:
  "(case fst (pollSignals example_env example_casts 6 (example_headers ''5'' ''n'') (Some ''1'') None example_edge) of
      Inr rows \<Rightarrow> distinct (map qu_id rows) \<and> qu_id ` set rows = {3} | Inl _ \<Rightarrow> False)"
proof -
  let ?p = "pollSignals example_env example_casts 6 (example_headers ''5'' ''n'') (Some ''1'') None example_edge"
  have "ok (fst ?p)" by code_simp
  then obtain rows where r: "fst ?p = Inr rows" by (auto simp: ok_iff)
  then have "?p = (Inr rows, snd ?p)" by (metis prod.collapse)
  from poll_delivers_exactly [OF example_edge_inv this refl]
  have "distinct (map qu_id rows) \<and> qu_id ` set rows = qu_id ` set (poll_batch example_casts 6 7 (max_signals (Some ''1'')) example_edge)"
    by (simp add: example_headers_def)
  moreover have "map qu_id (poll_batch example_casts 6 7 (max_signals (Some ''1'')) example_edge) = [3]" by code_simp
  then have "qu_id ` set (poll_batch example_casts 6 7 (max_signals (Some ''1'')) example_edge) = {3}"
    by (metis image_set list.simps(15) empty_set)
  ultimately show ?thesis using r by simp
qed

text \<open>
  C27. A signal that is acknowledged, expired or dead-lettered is never delivered again, whatever requests
  follow; every signal keeps its device and payload and moves only along the edges of its life cycle, in
  which an acknowledged signal stays acknowledged.
\<close>

theorem closed_signals_stay_closed:
  assumes "queue_inv db" and "q \<in> set (eb_queue db)" and "\<forall>req\<in>set reqs. \<not> enqueues (qu_id q) req"
    and "db' = run_requests (exec_edge E P) reqs db"
  shows "(\<forall>q'\<in>set (eb_queue db'). qu_id q' = qu_id q \<longrightarrow> qu_device q' = qu_device q \<and> qu_payload q' = qu_payload q \<and>
      queue_path (qu_status q) (qu_status q') \<and> (qu_status q = Q_ACKED \<longrightarrow> qu_status q' = Q_ACKED)) \<and>
    (closed_status (qu_status q) \<longrightarrow>
      (case fst (pollSignals E P now h m v db') of Inr rows \<Rightarrow> qu_id q \<notin> qu_id ` set rows | Inl _ \<Rightarrow> True))"
proof -
  have run: "queue_inv db'" "follows (qu_id q) db db'"
    using signal_lifecycle.run_sel_leq [OF assms(3)] assms(1,4) by blast+
  have path: "qu_device q' = qu_device q \<and> qu_payload q' = qu_payload q \<and> queue_path (qu_status q) (qu_status q')"
    if q': "q' \<in> set (eb_queue db')" "qu_id q' = qu_id q" for q'
  proof -
    obtain p where p: "p \<in> set (eb_queue db)" "qu_id p = qu_id q" "qu_device q' = qu_device p" "qu_payload q' = qu_payload p"
      "queue_path (qu_status p) (qu_status q')"
      using run(2) q' unfolding follows_def by blast
    have "p = q" using key_unique [OF _ p(1) assms(2) p(2)] assms(1) by (simp add: queue_inv_def)
    with p show ?thesis by blast
  qed
  have "qu_id q \<notin> qu_id ` set rows"
    if closed: "closed_status (qu_status q)" and p: "pollSignals E P now h m v db' = (Inr rows, db'')" for rows db''
  proof
    assume "qu_id q \<in> qu_id ` set rows"
    then obtain q' where q': "q' \<in> set (poll_batch P now (the (xh_device h)) (max_signals m) db')" "qu_id q' = qu_id q"
      using pollSignals_exact [OF run(1) p refl] by auto
    then have "closed_status (qu_status q')"
      using path [of q'] poll_batch_sub [OF q'(1)] queue_path_closed closed by blast
    moreover have "\<not> closed_status (qu_status q')"
      using poll_batch_sub [OF q'(1)] by (auto simp: deliverable_def stale_def closed_status_def)
    ultimately show False by blast
  qed
  then have "case fst (pollSignals E P now h m v db') of Inr rows \<Rightarrow> qu_id q \<notin> qu_id ` set rows | Inl _ \<Rightarrow> True"
    if "closed_status (qu_status q)"
    using that by (cases "pollSignals E P now h m v db'") (auto split: sum.split)
  moreover have "qu_status q' = Q_ACKED" if "queue_path Q_ACKED (qu_status q')" for q'
    using queue_path_closed [OF that] by (simp add: closed_status_def)
  ultimately show ?thesis using path by metis
qed

theorem closed_signals_stay_closed_witness:
  "3 \<notin> qu_id ` {q \<in> set (eb_queue (run_requests (exec_edge example_env example_casts) [(9, Sweep)]
        (snd (edgeAck example_env 6 (example_headers ''5'' ''n'') (Some 3) ''{}'' example_edge)))). qu_status q \<noteq> Q_ACKED}"
proof -
  let ?db = "snd (edgeAck example_env 6 (example_headers ''5'' ''n'') (Some 3) ''{}'' example_edge)"
  let ?db' = "run_requests (exec_edge example_env example_casts) [(9, Sweep)] ?db"
  have "queue_inv ?db"
    using exec_edge_inv [OF example_edge_inv, of example_env example_casts "(6, EdgeAck (example_headers ''5'' ''n'') (Some 3) ''{}'')"]
    by simp
  moreover have "list_ex (\<lambda>q. qu_id q = 3 \<and> qu_status q = Q_ACKED) (eb_queue ?db)" by code_simp
  then obtain q where q: "q \<in> set (eb_queue ?db)" "qu_id q = 3" "qu_status q = Q_ACKED" by (auto simp: list_ex_iff)
  moreover have "\<forall>req\<in>set [(9, Sweep)]. \<not> enqueues (qu_id q) req" by simp
  ultimately have "\<forall>q'\<in>set (eb_queue ?db'). qu_id q' = 3 \<longrightarrow> qu_status q' = Q_ACKED"
    using closed_signals_stay_closed [of ?db q "[(9, Sweep)]" ?db' example_env example_casts] by simp
  then show ?thesis by auto
qed

text \<open>
  No signal is handed out more than fifty times: over any sequence of requests the attempts of every
  row stay within the cap, and a row that has reached it is never pending again.
\<close>

theorem delivery_attempts_bounded:
  assumes "queue_inv db" and "q \<in> set (eb_queue (run_requests (exec_edge E P) reqs db))"
  shows "qu_attempts q \<le> 50 \<and> (qu_attempts q = 50 \<longrightarrow> qu_status q \<noteq> Q_PENDING)"
proof -
  have "capped q" using delivery_attempts.run_inv [OF assms(1), of E P reqs] assms(2) by (simp add: queue_inv_def)
  then show ?thesis by (auto simp: capped_def)
qed

theorem delivery_attempts_bounded_witness:
  "list_all (\<lambda>q. qu_attempts q \<le> 50) (eb_queue (run_requests (exec_edge example_env example_casts)
      [(6, PollSignals (example_headers ''5'' ''n'') None None), (40000, PollSignals (example_headers ''39999'' ''k'') None None)]
      example_edge))"
  unfolding list_all_iff using delivery_attempts_bounded [OF example_edge_inv] by blast

end
