(* ===== verification/Auth.thy ===== *)
theory Auth
  imports LicenseTables Codecs ReferralTables
begin

text \<open>
  The accounts of the users, \<^verbatim>\<open>control/src/modules/auth/auth.service.ts\<close>: registration with consents and
  referral attribution, login with lockout and second factor, one-time codes, sessions with rotating
  refresh tokens, remembered devices, enrolment of an authenticator, and the change and reset of
  passwords. Password hashing, the authenticator's codes, SHA-256 and the signing of tokens are
  parameters; the random values of a call are arguments. Only the refresh and the reset run in a
  transaction; login events are written outside of it and stay.
\<close>

section \<open>Rows\<close>

record onboarding =
  ob_address1 :: "string option"
  ob_address2 :: "string option"
  ob_city :: "string option"
  ob_region :: "string option"
  ob_postal :: "string option"
  ob_country :: "string option"
  ob_mobile :: "string option"
  ob_whatsapp :: "string option"
  ob_telegram :: "string option"
  ob_instagram :: "string option"
  ob_facebook :: "string option"
  ob_broker :: "string option"
  ob_source :: "string option"

record user_row =
  us_id :: uuid
  us_email :: string
  us_password :: string
  us_name :: "string option"
  us_status :: string
  us_failed :: nat
  us_locked :: "time option"
  us_last_login :: "time option"
  us_deleted :: "time option"
  us_profile :: onboarding
  us_marketing :: "bool \<times> bool \<times> bool"
  us_consent :: "(string \<times> time) option"
  us_created_at :: time
  us_updated_at :: time

record session_row =
  ss_id :: uuid
  ss_user :: uuid
  ss_hash :: string
  ss_family :: "uuid option"
  ss_expires_at :: time
  ss_revoked_at :: "time option"
  ss_created_at :: time

record mfa_row =
  mf_id :: uuid
  mf_user :: uuid
  mf_type :: string
  mf_secret :: string
  mf_codes :: "string list option"
  mf_enabled :: bool
  mf_primary :: bool

record login_event_row =
  ev_user :: "uuid option"
  ev_type :: string
  ev_meta :: "(string \<times> string) list"
  ev_created_at :: time

record trusted_row =
  td_id :: uuid
  td_user :: uuid
  td_hash :: string
  td_expires_at :: time
  td_revoked_at :: "time option"
  td_created_at :: time

record audit_row =
  au_actor_type :: string
  au_actor :: "uuid option"
  au_action :: string
  au_entity :: "uuid option"
  au_reason :: "string option"
  au_value :: "(string \<times> string) list"
  au_created_at :: time

record referral_code_row =
  rc_user :: uuid
  rc_code :: string
  rc_active :: bool

record auth_db =
  users :: "user_row list"
  sessions :: "session_row list"
  mfa_methods :: "mfa_row list"
  login_events :: "login_event_row list"
  trusted_devices :: "trusted_row list"
  audit_events :: "audit_row list"
  client_events :: "(uuid \<times> string \<times> bool) list"
  memberships :: "(uuid \<times> uuid option) list"
  roles :: "(uuid \<times> string) list"
  role_permissions :: "(uuid \<times> uuid) list"
  permissions :: "(uuid \<times> string) list"
  referral_codes :: "referral_code_row list"
  sponsor_links :: "relationship_row list"
  license_states :: "(uuid \<times> string) list"
  sent_mails :: "(string \<times> string) list"

section \<open>Environment\<close>

record jwt_payload =
  jp_sub :: uuid
  jp_email :: "string option"
  jp_role :: "string option"
  jp_permissions :: "string list option"
  jp_mfa :: "bool option"
  jp_purpose :: "string option"
  jp_jti :: "string option"

text \<open>
  \<open>a_bcrypt salt text\<close> is the salted hash, \<open>a_compare\<close> the comparison; \<open>a_otp now code secret\<close> verifies a
  one-time code; \<open>a_sign\<close> and \<open>a_verify\<close> are the token functions with the secret of the server.
\<close>

record auth_env =
  a_bcrypt :: "string \<Rightarrow> string \<Rightarrow> string"
  a_compare :: "string \<Rightarrow> string \<Rightarrow> bool"
  a_sha :: "string \<Rightarrow> string"
  a_otp :: "time \<Rightarrow> string \<Rightarrow> string \<Rightarrow> bool"
  a_keyuri :: "string \<Rightarrow> string \<Rightarrow> string"
  a_sign :: "jwt_payload \<Rightarrow> time \<Rightarrow> time \<Rightarrow> string"
  a_verify :: "time \<Rightarrow> string \<Rightarrow> jwt_payload option"
  a_uuid :: "uuid \<Rightarrow> string"

record auth_fresh =
  af_user :: uuid
  af_salt :: string
  af_session :: uuid
  af_family :: uuid
  af_refresh :: string
  af_challenge :: string
  af_trusted :: string
  af_trusted_id :: uuid
  af_mfa :: uuid
  af_secret :: string
  af_codes :: "(string \<times> string) list"
  af_jti :: string

section \<open>Constants\<close>

definition MAX_OTP_ATTEMPTS :: nat where "MAX_OTP_ATTEMPTS = 5"
definition OTP_CHALLENGE_EXPIRY_MIN :: int where "OTP_CHALLENGE_EXPIRY_MIN = 10"
definition MAX_LOGIN_FAILURES :: nat where "MAX_LOGIN_FAILURES = 5"
definition LOCKOUT_MIN :: int where "LOCKOUT_MIN = 15"
definition ACCESS_TOKEN_EXPIRY :: time where "ACCESS_TOKEN_EXPIRY = hours 12"
definition REFRESH_TOKEN_EXPIRY_DAYS :: int where "REFRESH_TOKEN_EXPIRY_DAYS = 7"
definition RESET_TOKEN_EXPIRY_MIN :: int where "RESET_TOKEN_EXPIRY_MIN = 30"
definition TRUSTED_DEVICE_DAYS :: int where "TRUSTED_DEVICE_DAYS = 30"

definition PRIVILEGED_ROLES :: "string list" where
  "PRIVILEGED_ROLES = [''ADMIN'', ''SUPER_ADMIN'', ''OPERATOR'', ''RISK_MANAGER'', ''TRADING_OPERATOR'']"

lemmas auth_constants = MAX_OTP_ATTEMPTS_def OTP_CHALLENGE_EXPIRY_MIN_def MAX_LOGIN_FAILURES_def LOCKOUT_MIN_def
  REFRESH_TOKEN_EXPIRY_DAYS_def RESET_TOKEN_EXPIRY_MIN_def TRUSTED_DEVICE_DAYS_def

section \<open>Events and tokens\<close>

definition lower_char :: "char \<Rightarrow> char" where
  "lower_char c = (let n = of_char c :: nat in if 65 \<le> n \<and> n \<le> 90 then char_of (n + 32) else c)"

definition js_lower :: "string \<Rightarrow> string" where
  "js_lower s = map lower_char s"

definition sanitizeMetadata :: "(string \<times> string) list \<Rightarrow> (string \<times> string) list" where
  "sanitizeMetadata m = filter (\<lambda>(k, v). js_lower k \<notin>
     set [''password'', ''token'', ''secret'', ''hash'', ''refreshToken'', ''accessToken'']) m"

text \<open>Both inserts are best effort; the first fails for a user that does not exist.\<close>

definition logLoginEvent :: "time \<Rightarrow> uuid option \<Rightarrow> string \<Rightarrow> (string \<times> string) list \<Rightarrow> auth_db \<Rightarrow> auth_db" where
  "logLoginEvent now u typ m db = db
     \<lparr>login_events := (if (case u of None \<Rightarrow> True | Some i \<Rightarrow> exists_row (\<lambda>r. us_id r = i) (users db))
        then login_events db @ [\<lparr>ev_user = u, ev_type = typ, ev_meta = m, ev_created_at = now\<rparr>]
        else login_events db),
      audit_events := audit_events db @
        [\<lparr>au_actor_type = (case u of None \<Rightarrow> ''ANONYMOUS'' | Some _ \<Rightarrow> ''USER''), au_actor = u, au_action = typ,
          au_entity = None, au_reason = None, au_value = sanitizeMetadata m, au_created_at = now\<rparr>]\<rparr>"

definition log_audit :: "time \<Rightarrow> string \<Rightarrow> uuid \<Rightarrow> string \<Rightarrow> string \<Rightarrow> (string \<times> string) list \<Rightarrow> auth_db \<Rightarrow> auth_db" where
  "log_audit now actor u action reason val db = db\<lparr>audit_events := audit_events db @
     [\<lparr>au_actor_type = actor, au_actor = Some u, au_action = action, au_entity = Some u, au_reason = Some reason,
       au_value = val, au_created_at = now\<rparr>]\<rparr>"

definition hashToken :: "auth_env \<Rightarrow> string \<Rightarrow> string" where
  "hashToken E t = a_sha E t"

definition role_rank :: "string \<Rightarrow> nat" where
  "role_rank r =
     (if r = ''SUPER_ADMIN'' then 1 else if r = ''ADMIN'' then 2 else if r = ''RISK_MANAGER'' then 3
      else if r = ''TRADING_OPERATOR'' then 4 else if r = ''SUPPORT'' then 5 else if r = ''ANALYST'' then 6
      else if r = ''AUDITOR'' then 7 else 8)"

definition roles_of :: "uuid \<Rightarrow> auth_db \<Rightarrow> string list" where
  "roles_of u db = [n. (m, r) \<leftarrow> memberships db, m = u, (i, n) \<leftarrow> roles db, r = Some i]"

definition permissions_of :: "uuid \<Rightarrow> auth_db \<Rightarrow> string list" where
  "permissions_of u db = remdups [n. (r, p) \<leftarrow> role_permissions db, (i, _) \<leftarrow> roles db, i = r,
     (m, k) \<leftarrow> memberships db, k = Some i \<and> m = u, (j, n) \<leftarrow> permissions db, j = p]"

definition totp_enabled :: "uuid \<Rightarrow> mfa_row \<Rightarrow> bool" where
  "totp_enabled u m \<longleftrightarrow> mf_user m = u \<and> mf_type m = ''TOTP'' \<and> mf_enabled m"

definition access_claims :: "uuid \<Rightarrow> string \<Rightarrow> auth_db \<Rightarrow> jwt_payload" where
  "access_claims u email db =
     (let role = (case sort_key role_rank (roles_of u db) of [] \<Rightarrow> ''USER'' | r # _ \<Rightarrow> r) in
      \<lparr>jp_sub = u, jp_email = Some email, jp_role = Some role, jp_permissions = Some (permissions_of u db),
       jp_mfa = Some (role \<in> set PRIVILEGED_ROLES \<and> \<not> exists_row (totp_enabled u) (mfa_methods db)),
       jp_purpose = Some ''access'', jp_jti = None\<rparr>)"

definition generateTokens :: "auth_env \<Rightarrow> time \<Rightarrow> auth_fresh \<Rightarrow> uuid \<Rightarrow> string \<Rightarrow> auth_db \<Rightarrow> string \<times> string" where
  "generateTokens E now fr u email db =
     (a_sign E (access_claims u email db) ACCESS_TOKEN_EXPIRY now, af_refresh fr)"

text \<open>The refresh token hash is unique, and so is the identifier.\<close>

definition insert_session :: "session_row \<Rightarrow> auth_db \<Rightarrow> auth_db result" where
  "insert_session s db =
     (if exists_row (\<lambda>r. ss_id r = ss_id s \<or> ss_hash r = ss_hash s) (sessions db) then Inl (SqlError ''23505'')
      else Inr (db\<lparr>sessions := sessions db @ [s]\<rparr>))"

definition new_session :: "auth_env \<Rightarrow> time \<Rightarrow> auth_fresh \<Rightarrow> uuid \<Rightarrow> uuid \<Rightarrow> session_row" where
  "new_session E now fr u fam =
     \<lparr>ss_id = af_session fr, ss_user = u, ss_hash = hashToken E (af_refresh fr), ss_family = Some fam,
      ss_expires_at = now + days REFRESH_TOKEN_EXPIRY_DAYS, ss_revoked_at = None, ss_created_at = now\<rparr>"

definition createSession ::
  "auth_env \<Rightarrow> time \<Rightarrow> auth_fresh \<Rightarrow> uuid \<Rightarrow> string \<Rightarrow> auth_db \<Rightarrow> ((string \<times> string) \<times> auth_db) result" where
  "createSession E now fr u email db =
     map_sum id (\<lambda>db1. (generateTokens E now fr u email db, db1))
       (insert_session (new_session E now fr u (af_family fr)) db)"

section \<open>Registration\<close>

record register_dto =
  rd_email :: string
  rd_password :: string
  rd_name :: "string option"
  rd_referral :: "string option"
  rd_profile :: onboarding
  rd_terms :: bool
  rd_privacy :: bool
  rd_processing :: bool
  rd_marketing :: "bool \<times> bool \<times> bool"

record auth_response =
  re_access :: string
  re_user :: uuid
  re_email :: string
  re_name :: "string option"
  re_enrol :: "bool option"
  re_refresh :: string
  re_trusted :: "string option"

definition display_name :: "register_dto \<Rightarrow> string" where
  "display_name d = or_string (rd_name d) (hd (js_split CHR ''@'' (rd_email d)))"

definition new_user :: "auth_env \<Rightarrow> time \<Rightarrow> auth_fresh \<Rightarrow> register_dto \<Rightarrow> user_row" where
  "new_user E now fr d =
     \<lparr>us_id = af_user fr, us_email = rd_email d, us_password = a_bcrypt E (af_salt fr) (rd_password d),
      us_name = Some (display_name d), us_status = ''PENDING'', us_failed = 0, us_locked = None,
      us_last_login = None, us_deleted = None, us_profile = rd_profile d, us_marketing = (False, False, False),
      us_consent = None, us_created_at = now, us_updated_at = now\<rparr>"

definition attribute_referral :: "register_dto \<Rightarrow> uuid \<Rightarrow> auth_db \<Rightarrow> auth_db result" where
  "attribute_referral d u db =
     (case Option.bind (or_null (rd_referral d)) (\<lambda>c. first_row (\<lambda>r. rc_code r = c \<and> rc_active r) (referral_codes db)) of
        None \<Rightarrow> Inr db
      | Some r \<Rightarrow>
          if rc_user r = u then Inl (BadRequest ''Cannot use your own referral code'')
          else if exists_row (\<lambda>l. rel_child l = u) (sponsor_links db) then Inr db
          else Inr (db\<lparr>sponsor_links := sponsor_links db @ [\<lparr>rel_child = u, rel_parent = rc_user r, rel_level = 1\<rparr>]\<rparr>))"

definition referral_code :: "auth_env \<Rightarrow> uuid \<Rightarrow> string" where
  "referral_code E u = ''PAT-'' @ take 32 (js_upper (filter (\<lambda>c. c \<noteq> CHR ''-'') (a_uuid E u)))"

definition insert_referral_code :: "auth_env \<Rightarrow> uuid \<Rightarrow> auth_db \<Rightarrow> auth_db" where
  "insert_referral_code E u db =
     (if exists_row (\<lambda>r. rc_code r = referral_code E u) (referral_codes db) then db
      else db\<lparr>referral_codes := referral_codes db @ [\<lparr>rc_user = u, rc_code = referral_code E u, rc_active = True\<rparr>]\<rparr>)"

definition consentVersion :: string where "consentVersion = ''2026-08-25''"

definition consents :: "register_dto \<Rightarrow> (string \<times> bool) list" where
  "consents d = (case rd_marketing d of (mail, sms, phone) \<Rightarrow>
     [(''AGREE_TO_TERMS'', True), (''ACKNOWLEDGE_PRIVACY_POLICY'', True), (''ACKNOWLEDGE_DATA_PROCESSING'', True),
      (''OPT_IN_EMAIL_MARKETING'', mail), (''OPT_IN_SMS_MARKETING'', sms), (''OPT_IN_PHONE_MARKETING'', phone)])"

definition record_consents :: "time \<Rightarrow> register_dto \<Rightarrow> uuid \<Rightarrow> auth_db \<Rightarrow> auth_db" where
  "record_consents now d u db = db
     \<lparr>client_events := client_events db @ map (\<lambda>(t, a). (u, t, a)) (consents d),
      users := update_rows (\<lambda>r. us_id r = u)
        (\<lambda>r. r\<lparr>us_marketing := rd_marketing d, us_consent := Some (consentVersion, now), us_updated_at := now\<rparr>) (users db)\<rparr>"

definition missing_consent :: "register_dto \<Rightarrow> http_error option" where
  "missing_consent d =
     (if \<not> rd_terms d then Some (BadRequest ''You must agree to the Terms of Use and Privacy Policy'')
      else if \<not> rd_privacy d then Some (BadRequest ''You must acknowledge the Privacy Policy'')
      else if \<not> rd_processing d then
        Some (BadRequest ''You must acknowledge the Data Processing and Security Agreement'')
      else None)"

definition register :: "auth_env \<Rightarrow> time \<Rightarrow> auth_fresh \<Rightarrow> register_dto \<Rightarrow> (auth_db, auth_response) handler" where
  "register E now fr d db =
     (case missing_consent d of
        Some e \<Rightarrow> (Inl e, db)
      | None \<Rightarrow>
          if exists_row (\<lambda>u. us_email u = rd_email d) (users db) then (Inl (Conflict ''Email already registered''), db)
          else if exists_row (\<lambda>u. us_id u = af_user fr) (users db) then (Inl (SqlError ''23505''), db)
          else
            (let u = af_user fr;
                 db1 = log_audit now ''system'' u ''iam.user.registered_pending_approval'' ''Awaiting admin approval''
                   [(''status'', ''PENDING'')] (db\<lparr>users := users db @ [new_user E now fr d]\<rparr>) in
             case attribute_referral d u db1 of
               Inl e \<Rightarrow> (Inl e, db1)
             | Inr db2 \<Rightarrow>
                 (let db3 = record_consents now d u (insert_referral_code E u db2) in
                  case createSession E now fr u (rd_email d) db3 of
                    Inl e \<Rightarrow> (Inl e, db3)
                  | Inr ((acc, ref), db4) \<Rightarrow>
                      (Inr \<lparr>re_access = acc, re_user = u, re_email = rd_email d, re_name = Some (display_name d),
                         re_enrol = None, re_refresh = ref, re_trusted = None\<rparr>, db4))))"

section \<open>Remembered devices\<close>

definition insert_trusted :: "auth_env \<Rightarrow> time \<Rightarrow> auth_fresh \<Rightarrow> uuid \<Rightarrow> auth_db \<Rightarrow> auth_db result" where
  "insert_trusted E now fr u db =
     (if exists_row (\<lambda>t. td_id t = af_trusted_id fr \<or> td_hash t = a_sha E (af_trusted fr)) (trusted_devices db)
      then Inl (SqlError ''23505'')
      else Inr (db\<lparr>trusted_devices := trusted_devices db @
        [\<lparr>td_id = af_trusted_id fr, td_user = u, td_hash = a_sha E (af_trusted fr),
          td_expires_at = now + days TRUSTED_DEVICE_DAYS, td_revoked_at = None, td_created_at = now\<rparr>]\<rparr>))"

definition registerTrustedDevice ::
  "auth_env \<Rightarrow> time \<Rightarrow> auth_fresh \<Rightarrow> uuid \<Rightarrow> auth_db \<Rightarrow> (string \<times> auth_db) result" where
  "registerTrustedDevice E now fr u db = map_sum id (\<lambda>db1. (af_trusted fr, db1)) (insert_trusted E now fr u db)"

definition trusted_live :: "uuid \<Rightarrow> string \<Rightarrow> time \<Rightarrow> trusted_row \<Rightarrow> bool" where
  "trusted_live u h now t \<longleftrightarrow> td_user t = u \<and> td_hash t = h \<and> td_revoked_at t = None \<and> td_expires_at t > now"

text \<open>The presented token is revoked before the replacement is inserted, without a transaction.\<close>

definition consumeTrustedDevice ::
  "auth_env \<Rightarrow> time \<Rightarrow> auth_fresh \<Rightarrow> uuid \<Rightarrow> string \<Rightarrow> (auth_db, string option) handler" where
  "consumeTrustedDevice E now fr u raw db =
     (if length raw < 32 then (Inr None, db)
      else
        (case first_row (trusted_live u (a_sha E raw) now) (trusted_devices db) of
           None \<Rightarrow> (Inr None, db)
         | Some t \<Rightarrow>
             (let db1 = db\<lparr>trusted_devices := update_rows (\<lambda>r. td_id r = td_id t)
                    (\<lambda>r. r\<lparr>td_revoked_at := Some now\<rparr>) (trusted_devices db)\<rparr> in
              case registerTrustedDevice E now fr u db1 of
                Inl e \<Rightarrow> (Inl e, db1)
              | Inr (raw', db2) \<Rightarrow> (Inr (Some raw'), db2))))"

section \<open>Login\<close>

record login_dto =
  ld_email :: string
  ld_password :: string
  ld_mfa :: "string option"

datatype login_result = LoggedIn auth_response | MfaRequired string

definition fail_password :: "time \<Rightarrow> user_row \<Rightarrow> auth_db \<Rightarrow> auth_db" where
  "fail_password now u db =
     (let n = us_failed u + 1 in
      logLoginEvent now (Some (us_id u)) ''LOGIN_FAILED'' [(''reason'', ''invalid_password'')]
        (db\<lparr>users := update_rows (\<lambda>r. us_id r = us_id u)
           (\<lambda>r. r\<lparr>us_failed := n, us_locked := (if n \<ge> MAX_LOGIN_FAILURES then Some (now + minutes LOCKOUT_MIN) else None)\<rparr>)
           (users db)\<rparr>))"

definition record_login :: "time \<Rightarrow> uuid \<Rightarrow> auth_db \<Rightarrow> auth_db" where
  "record_login now u db = db\<lparr>users := update_rows (\<lambda>r. us_id r = u)
     (\<lambda>r. r\<lparr>us_failed := 0, us_locked := None, us_last_login := Some now\<rparr>) (users db)\<rparr>"

definition login_response :: "user_row \<Rightarrow> bool \<Rightarrow> string \<times> string \<Rightarrow> string option \<Rightarrow> auth_response" where
  "login_response u enrol tok trusted =
     \<lparr>re_access = fst tok, re_user = us_id u, re_email = us_email u, re_name = us_name u, re_enrol = Some enrol,
      re_refresh = snd tok, re_trusted = trusted\<rparr>"

text \<open>After the second factor: the counters are reset and a session is opened.\<close>

definition finish_login ::
  "auth_env \<Rightarrow> time \<Rightarrow> auth_fresh \<Rightarrow> user_row \<Rightarrow> bool \<Rightarrow> (auth_db, login_result) handler" where
  "finish_login E now fr u enrol db =
     (let db1 = logLoginEvent now (Some (us_id u)) ''LOGIN_SUCCESS'' [] (record_login now (us_id u) db) in
      case createSession E now fr (us_id u) (us_email u) db1 of
        Inl e \<Rightarrow> (Inl e, db1)
      | Inr (tok, db2) \<Rightarrow> (Inr (LoggedIn (login_response u enrol tok None)), db2))"

definition challenge :: "time \<Rightarrow> auth_fresh \<Rightarrow> user_row \<Rightarrow> (auth_db, login_result) handler" where
  "challenge now fr u db =
     (Inr (MfaRequired (af_challenge fr)),
      db\<lparr>login_events := login_events db @ [\<lparr>ev_user = Some (us_id u), ev_type = ''MFA_CHALLENGE'',
        ev_meta = [(''challengeId'', af_challenge fr), (''method'', ''TOTP'')], ev_created_at = now\<rparr>]\<rparr>)"

definition trusted_login ::
  "auth_env \<Rightarrow> time \<Rightarrow> auth_fresh \<Rightarrow> user_row \<Rightarrow> bool \<Rightarrow> string \<Rightarrow> string option \<Rightarrow> (auth_db, login_result) handler" where
  "trusted_login E now fr u enrol role trusted db =
     (case or_null trusted of
        None \<Rightarrow> challenge now fr u db
      | Some raw \<Rightarrow>
          (case consumeTrustedDevice E now fr (us_id u) raw db of
             (Inl e, db1) \<Rightarrow> (Inl e, db1)
           | (Inr None, db1) \<Rightarrow> challenge now fr u db1
           | (Inr (Some raw'), db1) \<Rightarrow>
               (case createSession E now fr (us_id u) (us_email u) db1 of
                  Inl e \<Rightarrow> (Inl e, db1)
                | Inr (tok, db2) \<Rightarrow>
                    (Inr (LoggedIn (login_response u enrol tok (Some raw'))),
                     logLoginEvent now (Some (us_id u)) ''LOGIN_SUCCESS''
                       [(''role'', role), (''mfa'', ''trusted_device'')] db2))))"

definition check_factor ::
  "auth_env \<Rightarrow> time \<Rightarrow> auth_fresh \<Rightarrow> user_row \<Rightarrow> bool \<Rightarrow> string \<Rightarrow> mfa_row option \<Rightarrow> string option \<Rightarrow> string option \<Rightarrow>
   (auth_db, login_result) handler" where
  "check_factor E now fr u enrol role mfa code trusted db =
     (case mfa of
        None \<Rightarrow> finish_login E now fr u enrol db
      | Some m \<Rightarrow>
          (case or_null code of
             None \<Rightarrow> trusted_login E now fr u enrol role trusted db
           | Some c \<Rightarrow>
               if a_otp E now c (mf_secret m)
               then finish_login E now fr u enrol
                 (logLoginEvent now (Some (us_id u)) ''MFA_SUCCESS'' [(''inline'', ''true'')] db)
               else (Inl (Unauthorized ''Invalid MFA code''),
                 logLoginEvent now (Some (us_id u)) ''MFA_FAILED'' [(''reason'', ''invalid_inline_code'')] db)))"

text \<open>A privileged account without an authenticator gets in, with a notice to enrol one.\<close>

definition second_factor ::
  "auth_env \<Rightarrow> time \<Rightarrow> auth_fresh \<Rightarrow> user_row \<Rightarrow> string option \<Rightarrow> string option \<Rightarrow> (auth_db, login_result) handler" where
  "second_factor E now fr u code trusted db =
     (let mfa = first_row (totp_enabled (us_id u)) (mfa_methods db);
          role = (case roles_of (us_id u) db of [] \<Rightarrow> ''USER'' | r # _ \<Rightarrow> r);
          enrol = (role \<in> set PRIVILEGED_ROLES \<and> mfa = None) in
      check_factor E now fr u enrol role mfa code trusted
        (if enrol then logLoginEvent now (Some (us_id u)) ''LOGIN_MFA_ENROLLMENT_REQUIRED'' [(''role'', role)] db
         else db))"

definition login ::
  "auth_env \<Rightarrow> time \<Rightarrow> auth_fresh \<Rightarrow> login_dto \<Rightarrow> string option \<Rightarrow> (auth_db, login_result) handler" where
  "login E now fr d trusted db =
     (case first_row (\<lambda>u. us_email u = ld_email d) (users db) of
        None \<Rightarrow> (Inl (Unauthorized ''Invalid credentials''), db)
      | Some u \<Rightarrow>
          if (case us_locked u of Some t \<Rightarrow> t > now | None \<Rightarrow> False)
          then (Inl (Unauthorized ''Account temporarily locked. Try again later.''), db)
          else if us_status u \<noteq> ''ACTIVE''
          then (Inl (Unauthorized ''Account is not active. Contact support.''), db)
          else if \<not> a_compare E (ld_password d) (us_password u)
          then (Inl (Unauthorized (if us_failed u + 1 \<ge> MAX_LOGIN_FAILURES
              then ''Account locked due to too many failed attempts.'' else ''Invalid credentials'')),
            fail_password now u db)
          else second_factor E now fr u (ld_mfa d) trusted db)"

section \<open>One-time codes\<close>

record otp_dto =
  od_challenge :: string
  od_code :: string
  od_trust :: bool

record otp_response =
  ot_auth :: auth_response
  ot_license :: bool
  ot_device :: bool

definition challenge_event :: "string \<Rightarrow> auth_db \<Rightarrow> login_event_row option" where
  "challenge_event c db = latest ev_created_at
     (\<lambda>e. ev_type e = ''MFA_CHALLENGE'' \<and> map_of (ev_meta e) ''challengeId'' = Some c) (login_events db)"

definition otp_attempts :: "login_event_row \<Rightarrow> auth_db \<Rightarrow> nat" where
  "otp_attempts ch db = count_rows (\<lambda>e. ev_user e = ev_user ch \<and> ev_user e \<noteq> None \<and> ev_type e = ''MFA_FAILED'' \<and>
     ev_created_at ch \<le> ev_created_at e) (login_events db)"

definition digit_text :: "nat \<Rightarrow> string" where
  "digit_text n = [char_of (48 + n)]"

definition wrong_code_message :: "nat \<Rightarrow> string" where
  "wrong_code_message attempts =
     (let remaining = int MAX_OTP_ATTEMPTS - int attempts - 1 in
      ''Invalid verification code'' @
      (if remaining > 0 then ''. '' @ digit_text (nat remaining) @ '' attempt'' @ (if remaining \<noteq> 1 then ''s'' else '''') @
         '' remaining.'' else ''.''))"

definition accept_otp :: "auth_env \<Rightarrow> time \<Rightarrow> auth_fresh \<Rightarrow> uuid \<Rightarrow> otp_dto \<Rightarrow> (auth_db, otp_response) handler" where
  "accept_otp E now fr u d db =
     (let db1 = record_login now u (logLoginEvent now (Some u) ''MFA_SUCCESS'' [(''challengeId'', od_challenge d)] db) in
      case first_row (\<lambda>r. us_id r = u) (users db1) of
        None \<Rightarrow> (Inl (InternalError ''TypeError''), db1)
      | Some r \<Rightarrow>
          (case createSession E now fr u (us_email r) db1 of
             Inl e \<Rightarrow> (Inl e, db1)
           | Inr (tok, db2) \<Rightarrow>
               (let resp = (\<lambda>t. \<lparr>ot_auth = \<lparr>re_access = fst tok, re_user = u, re_email = us_email r, re_name = us_name r,
                       re_enrol = None, re_refresh = snd tok, re_trusted = t\<rparr>,
                     ot_license = exists_row (\<lambda>(x, s). x = u \<and> s = ''ACTIVE'') (license_states db2),
                     ot_device = od_trust d\<rparr>) in
                if od_trust d then
                  (case registerTrustedDevice E now fr u db2 of
                     Inl e \<Rightarrow> (Inl e, db2)
                   | Inr (raw, db3) \<Rightarrow> (Inr (resp (Some raw)), db3))
                else (Inr (resp None), db2))))"

definition verifyOtp :: "auth_env \<Rightarrow> time \<Rightarrow> auth_fresh \<Rightarrow> otp_dto \<Rightarrow> (auth_db, otp_response) handler" where
  "verifyOtp E now fr d db =
     (case challenge_event (od_challenge d) db of
        None \<Rightarrow> (Inl (Unauthorized ''Invalid or expired challenge''), db)
      | Some ch \<Rightarrow>
          if now - ev_created_at ch > minutes OTP_CHALLENGE_EXPIRY_MIN
          then (Inl (Unauthorized ''Challenge has expired. Please sign in again.''), db)
          else
            (case Option.bind (ev_user ch) (\<lambda>u. map_option (Pair u) (first_row (totp_enabled u) (mfa_methods db))) of
               None \<Rightarrow> (Inl (Unauthorized ''MFA not configured for this account''), db)
             | Some (u, m) \<Rightarrow>
                 if otp_attempts ch db \<ge> MAX_OTP_ATTEMPTS
                 then (Inl (BadRequest ''Too many failed attempts. Challenge invalidated.''), db)
                 else if \<not> a_otp E now (od_code d) (mf_secret m)
                 then (Inl (Unauthorized (wrong_code_message (otp_attempts ch db))),
                   logLoginEvent now (Some u) ''MFA_FAILED'' [(''challengeId'', od_challenge d)] db)
                 else accept_otp E now fr u d db))"

section \<open>Sessions\<close>

definition revoke_session :: "time \<Rightarrow> session_row \<Rightarrow> auth_db \<Rightarrow> auth_db" where
  "revoke_session now s db = db\<lparr>sessions := update_rows (\<lambda>r. ss_id r = ss_id s)
     (\<lambda>r. r\<lparr>ss_revoked_at := Some now\<rparr>) (sessions db)\<rparr>"

definition revoke_sessions :: "time \<Rightarrow> (session_row \<Rightarrow> bool) \<Rightarrow> auth_db \<Rightarrow> auth_db" where
  "revoke_sessions now p db = db\<lparr>sessions := update_rows (\<lambda>r. p r \<and> ss_revoked_at r = None)
     (\<lambda>r. r\<lparr>ss_revoked_at := Some now\<rparr>) (sessions db)\<rparr>"

definition session_reused :: "time \<Rightarrow> session_row \<Rightarrow> auth_env \<Rightarrow> auth_db \<Rightarrow> auth_db" where
  "session_reused now s E db =
     logLoginEvent now (Some (ss_user s)) ''REFRESH_TOKEN_REUSE''
       [(''sessionId'', a_uuid E (ss_id s)), (''tokenFamily'', coalesce_text (map_option (a_uuid E) (ss_family s)) ''null'')]
       (case ss_family s of
          Some f \<Rightarrow> revoke_sessions now (\<lambda>r. ss_family r = Some f) db
        | None \<Rightarrow> db)"

text \<open>
  The refresh commits its revocations before it throws; any other error rolls back. The new session
  continues the family.
\<close>

definition auth_refresh :: "auth_env \<Rightarrow> time \<Rightarrow> auth_fresh \<Rightarrow> string \<Rightarrow> (auth_db, string \<times> string) handler" where
  "auth_refresh E now fr raw db =
     (case first_row (\<lambda>s. ss_hash s = hashToken E raw \<and> exists_row (\<lambda>u. us_id u = ss_user s) (users db)) (sessions db) of
        None \<Rightarrow> (Inl (Unauthorized ''Invalid refresh token''), db)
      | Some s \<Rightarrow>
          (case first_row (\<lambda>u. us_id u = ss_user s) (users db) of
             None \<Rightarrow> (Inl (Unauthorized ''Invalid refresh token''), db)
           | Some u \<Rightarrow>
               if ss_revoked_at s \<noteq> None then
                 (Inl (Unauthorized ''Session invalidated due to token reuse''), session_reused now s E db)
               else if ss_expires_at s < now then
                 (Inl (Unauthorized ''Session expired''), revoke_session now s db)
               else if us_status u \<noteq> ''ACTIVE'' then
                 (Inl (Unauthorized ''Account is not active''),
                  logLoginEvent now (Some (ss_user s)) ''REFRESH_REJECTED''
                    [(''reason'', ''account_inactive''), (''status'', us_status u)] (revoke_session now s db))
               else
                 (case insert_session (new_session E now fr (ss_user s) (coalesce_text (ss_family s) (af_family fr)))
                         (revoke_session now s db) of
                    Inl e \<Rightarrow> (Inl e, db)
                  | Inr db1 \<Rightarrow>
                      (Inr (generateTokens E now fr (ss_user s) (us_email u) db),
                       logLoginEvent now (Some (ss_user s)) ''REFRESH_SUCCESS'' [] db1))))"

text \<open>An absent user identifier is a null parameter, which matches no row.\<close>

definition auth_logout :: "auth_env \<Rightarrow> time \<Rightarrow> uuid option \<Rightarrow> string option \<Rightarrow> auth_db \<Rightarrow> auth_db" where
  "auth_logout E now u raw db =
     logLoginEvent now u ''LOGOUT'' []
       (case or_null raw of
          Some t \<Rightarrow> revoke_sessions now (\<lambda>r. Some (ss_user r) = u \<and> ss_hash r = hashToken E t) db
        | None \<Rightarrow> revoke_sessions now (\<lambda>r. Some (ss_user r) = u) db)"

record profile =
  pf_user :: user_row
  pf_mfa :: bool
  pf_enrol :: bool

definition getProfile :: "uuid \<Rightarrow> auth_db \<Rightarrow> profile result" where
  "getProfile u db =
     (case first_row (\<lambda>r. us_id r = u) (users db) of
        None \<Rightarrow> Inl (NotFound ''User not found'')
      | Some r \<Rightarrow>
          (let mfa = exists_row (totp_enabled u) (mfa_methods db) in
           Inr \<lparr>pf_user = r, pf_mfa = mfa,
             pf_enrol = (\<not> mfa \<and> exists_row (\<lambda>n. n \<in> set PRIVILEGED_ROLES) (roles_of u db))\<rparr>))"

section \<open>Authenticator\<close>

definition generateRecoveryCodes :: "nat \<Rightarrow> (string \<times> string) list \<Rightarrow> string list" where
  "generateRecoveryCodes n draws = map (\<lambda>(a, b). js_upper a @ ''-'' @ js_upper b) (take n draws)"

definition totp_of :: "uuid \<Rightarrow> mfa_row \<Rightarrow> bool" where
  "totp_of u m \<longleftrightarrow> mf_user m = u \<and> mf_type m = ''TOTP''"

definition setupMfa :: "auth_env \<Rightarrow> auth_fresh \<Rightarrow> uuid \<Rightarrow> (auth_db, string \<times> string \<times> string list) handler" where
  "setupMfa E fr u db =
     (case first_row (\<lambda>r. us_id r = u) (users db) of
        None \<Rightarrow> (Inl (NotFound ''User not found''), db)
      | Some r \<Rightarrow>
          (let codes = generateRecoveryCodes 10 (af_codes fr) in
           (Inr (af_secret fr, a_keyuri E (us_email r) (af_secret fr), codes),
            db\<lparr>mfa_methods :=
              (if exists_row (totp_of u) (mfa_methods db)
               then update_rows (totp_of u)
                 (\<lambda>m. m\<lparr>mf_secret := af_secret fr, mf_codes := Some codes, mf_enabled := False\<rparr>) (mfa_methods db)
               else mfa_methods db @
                 [\<lparr>mf_id = af_mfa fr, mf_user = u, mf_type = ''TOTP'', mf_secret = af_secret fr, mf_codes = Some codes,
                   mf_enabled = False, mf_primary = False\<rparr>])\<rparr>)))"

definition verifyMfa :: "auth_env \<Rightarrow> time \<Rightarrow> uuid \<Rightarrow> string \<Rightarrow> (auth_db, string list) handler" where
  "verifyMfa E now u code db =
     (case first_row (totp_of u) (mfa_methods db) of
        None \<Rightarrow> (Inl (NotFound ''MFA not set up''), db)
      | Some m \<Rightarrow>
          if \<not> a_otp E now code (mf_secret m) then (Inl (Unauthorized ''Invalid MFA code''), db)
          else (Inr (coalesce_text (mf_codes m) []),
            db\<lparr>mfa_methods := update_rows (totp_of u) (\<lambda>m. m\<lparr>mf_enabled := True\<rparr>) (mfa_methods db)\<rparr>))"

definition disableMfa :: "auth_env \<Rightarrow> time \<Rightarrow> uuid \<Rightarrow> string \<Rightarrow> (auth_db, unit) handler" where
  "disableMfa E now u code db =
     (case first_row (totp_of u) (mfa_methods db) of
        None \<Rightarrow> (Inl (NotFound ''MFA not set up''), db)
      | Some m \<Rightarrow>
          if \<not> a_otp E now code (mf_secret m) then (Inl (Unauthorized ''Invalid MFA code''), db)
          else (Inr (), log_audit now ''user'' u ''iam.mfa.disabled'' ''User-initiated disable with valid TOTP step-up''
            [(''mfaEnabled'', ''false'')]
            (db\<lparr>mfa_methods := update_rows (totp_of u)
               (\<lambda>m. m\<lparr>mf_enabled := False, mf_codes := None, mf_primary := False\<rparr>) (mfa_methods db)\<rparr>)))"

section \<open>Passwords\<close>

definition reset_claims :: "uuid \<Rightarrow> string \<Rightarrow> jwt_payload" where
  "reset_claims u jti = \<lparr>jp_sub = u, jp_email = None, jp_role = None, jp_permissions = None, jp_mfa = None,
     jp_purpose = Some ''password_reset'', jp_jti = Some jti\<rparr>"

text \<open>The answer is the same whether the account exists or not; \<open>mail\<close> is the outcome of the delivery.\<close>

definition forgotPassword :: "auth_env \<Rightarrow> time \<Rightarrow> auth_fresh \<Rightarrow> bool \<Rightarrow> string \<Rightarrow> auth_db \<Rightarrow> string \<times> auth_db" where
  "forgotPassword E now fr mail email db =
     (''If an account exists for this email, password reset instructions have been sent.'',
      (case first_row (\<lambda>u. us_email u = email \<and> us_status u = ''ACTIVE'') (users db) of
         None \<Rightarrow> db
       | Some u \<Rightarrow>
           if mail then
             logLoginEvent now (Some (us_id u)) ''PASSWORD_RESET_REQUESTED'' []
               (db\<lparr>sent_mails := sent_mails db @
                 [(email, a_sign E (reset_claims (us_id u) (af_jti fr)) (minutes RESET_TOKEN_EXPIRY_MIN) now)]\<rparr>)
           else db))"

definition reset_done :: "uuid \<Rightarrow> string \<Rightarrow> login_event_row \<Rightarrow> bool" where
  "reset_done u jti e \<longleftrightarrow> ev_user e = Some u \<and> ev_type e = ''PASSWORD_RESET_COMPLETED'' \<and>
     map_of (ev_meta e) ''jti'' = Some jti"

definition set_password :: "auth_env \<Rightarrow> time \<Rightarrow> auth_fresh \<Rightarrow> uuid \<Rightarrow> string \<Rightarrow> auth_db \<Rightarrow> auth_db" where
  "set_password E now fr u pw db = db\<lparr>users := update_rows (\<lambda>r. us_id r = u)
     (\<lambda>r. r\<lparr>us_password := a_bcrypt E (af_salt fr) pw, us_updated_at := now\<rparr>) (users db)\<rparr>"

definition apply_reset :: "auth_env \<Rightarrow> time \<Rightarrow> auth_fresh \<Rightarrow> uuid \<Rightarrow> string \<Rightarrow> string \<Rightarrow> (auth_db, unit) handler" where
  "apply_reset E now fr u jti pw = transaction (\<lambda>db.
     if exists_row (reset_done u jti) (login_events db)
     then (Inl (BadRequest ''This reset link has already been used. Please request a new one.''), db)
     else
       (case first_row (\<lambda>r. us_id r = u) (users db) of
          None \<Rightarrow> (Inl (BadRequest ''Invalid reset token''), db)
        | Some r \<Rightarrow>
            if us_status r \<noteq> ''ACTIVE'' then (Inl (BadRequest ''Account is not active. Contact support.''), db)
            else
              (let db1 = revoke_sessions now (\<lambda>s. ss_user s = u) (set_password E now fr u pw db) in
               (Inr (), db1\<lparr>login_events := login_events db1 @
                  [\<lparr>ev_user = Some u, ev_type = ''PASSWORD_RESET_COMPLETED'', ev_meta = [(''jti'', jti)],
                    ev_created_at = now\<rparr>]\<rparr>))))"

text \<open>A token without \<^verbatim>\<open>jti\<close> makes the hash of it throw, outside of every write.\<close>

definition resetPassword :: "auth_env \<Rightarrow> time \<Rightarrow> auth_fresh \<Rightarrow> string \<Rightarrow> string \<Rightarrow> (auth_db, unit) handler" where
  "resetPassword E now fr token pw db =
     (case a_verify E now token of
        None \<Rightarrow> (Inl (BadRequest ''Invalid or expired reset token''), db)
      | Some p \<Rightarrow>
          if jp_purpose p \<noteq> Some ''password_reset'' then (Inl (BadRequest ''Invalid reset token''), db)
          else
            (case jp_jti p of
               None \<Rightarrow> (Inl (InternalError ''TypeError''), db)
             | Some jti \<Rightarrow> apply_reset E now fr (jp_sub p) jti pw db))"

definition changePassword ::
  "auth_env \<Rightarrow> time \<Rightarrow> auth_fresh \<Rightarrow> uuid \<Rightarrow> string option \<Rightarrow> string option \<Rightarrow> (auth_db, unit) handler" where
  "changePassword E now fr u cur new db =
     (if length (or_string new []) < 8 then (Inl (BadRequest ''Password must be at least 8 characters''), db)
      else
        (case or_null cur of
           None \<Rightarrow> (Inl (BadRequest ''Current password required''), db)
         | Some c \<Rightarrow>
             (case first_row (\<lambda>r. us_id r = u) (users db) of
                None \<Rightarrow> (Inl (Unauthorized ''user_not_found''), db)
              | Some r \<Rightarrow>
                  if \<not> a_compare E c (us_password r) then (Inl (Unauthorized ''Current password is incorrect''), db)
                  else if a_compare E (or_string new []) (us_password r)
                  then (Inl (BadRequest ''New password must differ from current password''), db)
                  else
                    (let db1 = set_password E now fr u (or_string new []) db in
                     (Inr (), log_audit now ''system'' u ''iam.password_changed'' ''Settings password change'' []
                        (db1\<lparr>sessions := filter (\<lambda>s. ss_user s \<noteq> u) (sessions db1)\<rparr>))))))"

section \<open>Cookies\<close>

record cookie_config =
  cc_node_env :: "string option"
  cc_name :: "string option"
  cc_path :: "string option"
  cc_same_site :: "string option"
  cc_domain :: "string option"

record cookie_options =
  co_name :: string
  co_value :: string
  co_http_only :: bool
  co_secure :: bool
  co_same_site :: string
  co_path :: string
  co_max_age :: int
  co_domain :: "string option"

definition getRefreshCookieOptions :: "cookie_config \<Rightarrow> cookie_options" where
  "getRefreshCookieOptions c =
     \<lparr>co_name = coalesce_text (cc_name c) ''pat_refresh_token'', co_value = [], co_http_only = True,
      co_secure = (cc_node_env c = Some ''production''), co_same_site = coalesce_text (cc_same_site c) ''lax'',
      co_path = coalesce_text (cc_path c) ''/api/v1/auth'', co_max_age = REFRESH_TOKEN_EXPIRY_DAYS * 24 * 60 * 60,
      co_domain = or_null (cc_domain c)\<rparr>"

definition getClearCookieOptions :: "cookie_config \<Rightarrow> string \<times> string \<times> string option" where
  "getClearCookieOptions c =
     (let o1 = getRefreshCookieOptions c in (co_name o1, co_path o1, co_domain o1))"

definition getTrustedCookieOptions :: "cookie_config \<Rightarrow> string \<Rightarrow> cookie_options" where
  "getTrustedCookieOptions c token =
     \<lparr>co_name = ''pat_trusted_device'', co_value = token, co_http_only = True,
      co_secure = (cc_node_env c = Some ''production''), co_same_site = ''lax'', co_path = ''/api/v1/auth'',
      co_max_age = TRUSTED_DEVICE_DAYS * 24 * 60 * 60, co_domain = None\<rparr>"

section \<open>The service\<close>

datatype account_request =
    Register auth_fresh register_dto
  | Login auth_fresh login_dto "string option"
  | VerifyOtp auth_fresh otp_dto
  | RefreshSession auth_fresh string
  | Logout "uuid option" "string option"
  | SetupMfa auth_fresh uuid
  | VerifyMfa uuid string
  | DisableMfa uuid string
  | ForgotPassword auth_fresh bool string
  | ResetPassword auth_fresh string string
  | ChangePassword auth_fresh uuid "string option" "string option"

fun exec_account :: "auth_env \<Rightarrow> time \<times> account_request \<Rightarrow> auth_db \<Rightarrow> auth_db" where
  "exec_account E (now, Register fr d) db = snd (register E now fr d db)"
| "exec_account E (now, Login fr d t) db = snd (login E now fr d t db)"
| "exec_account E (now, VerifyOtp fr d) db = snd (verifyOtp E now fr d db)"
| "exec_account E (now, RefreshSession fr raw) db = snd (auth_refresh E now fr raw db)"
| "exec_account E (now, Logout u raw) db = auth_logout E now u raw db"
| "exec_account E (now, SetupMfa fr u) db = snd (setupMfa E fr u db)"
| "exec_account E (now, VerifyMfa u c) db = snd (verifyMfa E now u c db)"
| "exec_account E (now, DisableMfa u c) db = snd (disableMfa E now u c db)"
| "exec_account E (now, ForgotPassword fr mail email) db = snd (forgotPassword E now fr mail email db)"
| "exec_account E (now, ResetPassword fr tok pw) db = snd (resetPassword E now fr tok pw db)"
| "exec_account E (now, ChangePassword fr u cur new) db = snd (changePassword E now fr u cur new db)"

section \<open>What each operation touches\<close>

lemma log_frames [simp]:
  "users (logLoginEvent now u ty m db) = users db" "sessions (logLoginEvent now u ty m db) = sessions db"
  "mfa_methods (logLoginEvent now u ty m db) = mfa_methods db"
  "trusted_devices (logLoginEvent now u ty m db) = trusted_devices db"
  by (simp_all add: logLoginEvent_def)

lemma audit_frames [simp]:
  "users (log_audit now a u ac r v db) = users db" "sessions (log_audit now a u ac r v db) = sessions db"
  "trusted_devices (log_audit now a u ac r v db) = trusted_devices db"
  "login_events (log_audit now a u ac r v db) = login_events db"
  by (simp_all add: log_audit_def)

lemma record_frames [simp]:
  "sessions (record_login now u db) = sessions db" "login_events (record_login now u db) = login_events db"
  "trusted_devices (record_login now u db) = trusted_devices db"
  "sessions (record_consents now d u db) = sessions db" "login_events (record_consents now d u db) = login_events db"
  "trusted_devices (record_consents now d u db) = trusted_devices db"
  "sessions (insert_referral_code E u db) = sessions db" "login_events (insert_referral_code E u db) = login_events db"
  "trusted_devices (insert_referral_code E u db) = trusted_devices db" "users (insert_referral_code E u db) = users db"
  "sessions (set_password E now fr u pw db) = sessions db" "login_events (set_password E now fr u pw db) = login_events db"
  "trusted_devices (set_password E now fr u pw db) = trusted_devices db"
  by (simp_all add: record_login_def record_consents_def insert_referral_code_def set_password_def)

lemma revoke_frames [simp]:
  "users (revoke_session now s db) = users db" "login_events (revoke_session now s db) = login_events db"
  "trusted_devices (revoke_session now s db) = trusted_devices db"
  "users (revoke_sessions now p db) = users db" "login_events (revoke_sessions now p db) = login_events db"
  "trusted_devices (revoke_sessions now p db) = trusted_devices db"
  by (simp_all add: revoke_session_def revoke_sessions_def)

lemma fail_frames [simp]:
  "sessions (fail_password now u db) = sessions db" "trusted_devices (fail_password now u db) = trusted_devices db"
  by (simp_all add: fail_password_def Let_def)

lemma insert_session_Inr:
  "insert_session s db = Inr db' \<longleftrightarrow>
   \<not> exists_row (\<lambda>r. ss_id r = ss_id s \<or> ss_hash r = ss_hash s) (sessions db) \<and> db' = db\<lparr>sessions := sessions db @ [s]\<rparr>"
  by (auto simp: insert_session_def)

lemma createSession_Inr:
  "createSession E now fr u em db = Inr (tok, db') \<longleftrightarrow>
   insert_session (new_session E now fr u (af_family fr)) db = Inr db' \<and> tok = generateTokens E now fr u em db"
  by (cases "insert_session (new_session E now fr u (af_family fr)) db") (auto simp: createSession_def)

lemma registerTrusted_Inr:
  "registerTrustedDevice E now fr u db = Inr (raw, db') \<longleftrightarrow> insert_trusted E now fr u db = Inr db' \<and> raw = af_trusted fr"
  by (cases "insert_trusted E now fr u db") (auto simp: registerTrustedDevice_def)

lemma insert_trusted_Inr:
  "insert_trusted E now fr u db = Inr db' \<Longrightarrow>
   db' = db\<lparr>trusted_devices := trusted_devices db @
     [\<lparr>td_id = af_trusted_id fr, td_user = u, td_hash = a_sha E (af_trusted fr),
       td_expires_at = now + days TRUSTED_DEVICE_DAYS, td_revoked_at = None, td_created_at = now\<rparr>]\<rparr>"
  by (simp add: insert_trusted_def split: if_splits)

text \<open>A request opens at most one session, with the token it draws.\<close>

definition opens :: "auth_env \<Rightarrow> time \<Rightarrow> auth_fresh \<Rightarrow> auth_db \<Rightarrow> auth_db \<Rightarrow> bool" where
  "opens E now fr db db' \<longleftrightarrow> sessions db' = sessions db \<or>
     (\<exists>u. sessions db' = sessions db @ [new_session E now fr u (af_family fr)])"

lemma finish_login_opens: "opens E now fr db (snd (finish_login E now fr u enrol db))"
  by (auto simp: opens_def finish_login_def Let_def createSession_Inr insert_session_Inr split: sum.split)

lemma consume_frames:
  "consumeTrustedDevice E now fr u raw db = (res, db') \<Longrightarrow> sessions db' = sessions db \<and> users db' = users db \<and>
     login_events db' = login_events db"
  by (auto simp: consumeTrustedDevice_def Let_def registerTrusted_Inr dest!: insert_trusted_Inr
      split: if_splits option.splits sum.splits)

lemma trusted_login_opens: "opens E now fr db (snd (trusted_login E now fr u enrol role trusted db))"
proof (cases "or_null trusted")
  case None
  then show ?thesis by (simp add: trusted_login_def challenge_def opens_def)
next
  case (Some raw)
  obtain res db1 where c: "consumeTrustedDevice E now fr (us_id u) raw db = (res, db1)" by fastforce
  have "sessions db1 = sessions db" using consume_frames [OF c] by simp
  then show ?thesis
    by (auto simp: trusted_login_def Some c challenge_def opens_def createSession_Inr insert_session_Inr
        split: sum.split option.split)
qed

lemma opens_from: "opens E now fr x db' \<Longrightarrow> sessions x = sessions db \<Longrightarrow> opens E now fr db db'"
  by (simp add: opens_def)

lemma opens_same: "sessions db' = sessions db \<Longrightarrow> opens E now fr db db'"
  by (simp add: opens_def)

lemma check_factor_opens: "opens E now fr db (snd (check_factor E now fr u enrol role mfa code trusted db))"
proof -
  have "opens E now fr db (snd (finish_login E now fr u enrol
      (logLoginEvent now (Some (us_id u)) ''MFA_SUCCESS'' [(''inline'', ''true'')] db)))"
    by (rule opens_from [OF finish_login_opens]) simp
  then show ?thesis
    using finish_login_opens trusted_login_opens by (auto simp: check_factor_def opens_same split: option.split)
qed

lemma second_factor_opens: "opens E now fr db (snd (second_factor E now fr u code trusted db))"
  unfolding second_factor_def Let_def by (rule opens_from [OF check_factor_opens]) simp

lemma login_opens: "opens E now fr db (snd (login E now fr d trusted db))"
  using second_factor_opens [of E now fr db]
  by (auto simp: login_def opens_def split: option.split)

lemma attribute_frames:
  "attribute_referral d u db = Inr db' \<Longrightarrow> sessions db' = sessions db \<and> users db' = users db \<and>
     login_events db' = login_events db \<and> trusted_devices db' = trusted_devices db"
  by (auto simp: attribute_referral_def split: option.splits if_splits)

lemma register_opens: "opens E now fr db (snd (register E now fr d db))"
  by (auto simp: register_def opens_def Let_def createSession_Inr insert_session_Inr dest!: attribute_frames
      split: option.split sum.split prod.split)

lemma accept_otp_opens: "opens E now fr db (snd (accept_otp E now fr u d db))"
  by (auto simp: accept_otp_def opens_def Let_def createSession_Inr insert_session_Inr registerTrusted_Inr
      dest!: insert_trusted_Inr split: option.split sum.split)

lemma verifyOtp_opens: "opens E now fr db (snd (verifyOtp E now fr d db))"
  using accept_otp_opens [of E now fr db]
  by (auto simp: verifyOtp_def opens_def split: option.split)

section \<open>Refresh tokens\<close>

definition session_live :: "string \<Rightarrow> session_row \<Rightarrow> bool" where
  "session_live h s \<longleftrightarrow> ss_hash s = h \<and> ss_revoked_at s = None"

text \<open>No session with this token is open.\<close>

definition session_spent :: "string \<Rightarrow> auth_db \<Rightarrow> bool" where
  "session_spent h db \<longleftrightarrow> \<not> exists_row (session_live h) (sessions db)"

fun drawn_session :: "auth_env \<Rightarrow> time \<times> account_request \<Rightarrow> string option" where
  "drawn_session E (now, Register fr d) = Some (hashToken E (af_refresh fr))"
| "drawn_session E (now, Login fr d t) = Some (hashToken E (af_refresh fr))"
| "drawn_session E (now, VerifyOtp fr d) = Some (hashToken E (af_refresh fr))"
| "drawn_session E (now, RefreshSession fr raw) = Some (hashToken E (af_refresh fr))"
| "drawn_session E _ = None"

text \<open>A session after a request is the one before, possibly revoked, or one with a token in \<open>H\<close>.\<close>

definition descends :: "string set \<Rightarrow> auth_db \<Rightarrow> auth_db \<Rightarrow> bool" where
  "descends H db db' \<longleftrightarrow> (\<forall>s\<in>set (sessions db'). ss_hash s \<in> H \<or>
     (\<exists>s0\<in>set (sessions db). s = s0 \<or> (\<exists>t. s = s0\<lparr>ss_revoked_at := Some t\<rparr>)))"

lemma descends_subset: "set (sessions db') \<subseteq> set (sessions db) \<Longrightarrow> descends H db db'"
  by (auto simp: descends_def)

lemma descends_revoking_insert:
  assumes "sessions db' = update_rows p (\<lambda>r. r\<lparr>ss_revoked_at := Some t\<rparr>) (sessions db) @ new" "\<forall>s\<in>set new. ss_hash s \<in> H"
  shows "descends H db db'"
  unfolding descends_def
proof
  fix s assume "s \<in> set (sessions db')"
  then consider r where "r \<in> set (sessions db)" "s = (if p r then r\<lparr>ss_revoked_at := Some t\<rparr> else r)" | "s \<in> set new"
    using assms(1) by (auto simp: in_update_rows)
  then show "ss_hash s \<in> H \<or> (\<exists>s0\<in>set (sessions db). s = s0 \<or> (\<exists>t. s = s0\<lparr>ss_revoked_at := Some t\<rparr>))"
    by cases (use assms(2) in \<open>auto split: if_splits\<close>)
qed

lemma descends_revoking:
  "sessions db' = update_rows p (\<lambda>r. r\<lparr>ss_revoked_at := Some t\<rparr>) (sessions db) \<Longrightarrow> descends H db db'"
  by (rule descends_revoking_insert [where new = "[]"]) simp_all

lemma descends_opens: "opens E now fr db db' \<Longrightarrow> descends {hashToken E (af_refresh fr)} db db'"
  by (auto simp: opens_def descends_def new_session_def)

lemma auth_refresh_cases [case_names unknown reused expired inactive clash rotated]:
  obtains
    (unknown) e where "auth_refresh E now fr raw db = (Inl e, db)"
      "\<forall>s\<in>set (sessions db). ss_hash s = hashToken E raw \<longrightarrow> \<not> exists_row (\<lambda>u. us_id u = ss_user s) (users db)"
  | (reused) s e where "s \<in> set (sessions db)" "ss_hash s = hashToken E raw" "ss_revoked_at s \<noteq> None"
      "auth_refresh E now fr raw db = (Inl e, session_reused now s E db)"
  | (expired) s e where "s \<in> set (sessions db)" "ss_hash s = hashToken E raw" "ss_revoked_at s = None"
      "auth_refresh E now fr raw db = (Inl e, revoke_session now s db)"
  | (inactive) s m e where "s \<in> set (sessions db)" "ss_hash s = hashToken E raw" "ss_revoked_at s = None"
      "auth_refresh E now fr raw db =
        (Inl e, logLoginEvent now (Some (ss_user s)) ''REFRESH_REJECTED'' m (revoke_session now s db))"
  | (clash) s e where "s \<in> set (sessions db)" "ss_hash s = hashToken E raw" "ss_revoked_at s = None"
      "auth_refresh E now fr raw db = (Inl e, db)"
  | (rotated) s u db1 where "s \<in> set (sessions db)" "ss_hash s = hashToken E raw" "ss_revoked_at s = None"
      "now \<le> ss_expires_at s" "u \<in> set (users db)" "us_id u = ss_user s" "us_status u = ''ACTIVE''"
      "insert_session (new_session E now fr (ss_user s) (coalesce_text (ss_family s) (af_family fr))) (revoke_session now s db) =
        Inr db1"
      "auth_refresh E now fr raw db = (Inr (generateTokens E now fr (ss_user s) (us_email u) db),
        logLoginEvent now (Some (ss_user s)) ''REFRESH_SUCCESS'' [] db1)"
proof -
  let ?p = "\<lambda>s. ss_hash s = hashToken E raw \<and> exists_row (\<lambda>u. us_id u = ss_user s) (users db)"
  show thesis
  proof (cases "first_row ?p (sessions db)")
    case None
    then show thesis using first_row_None [of ?p "sessions db"]
      by (intro unknown) (auto simp: auth_refresh_def)
  next
    case (Some s)
    then have s: "s \<in> set (sessions db)" "ss_hash s = hashToken E raw" "exists_row (\<lambda>u. us_id u = ss_user s) (users db)"
      using first_row_Some [OF Some] by simp_all
    then obtain u where u: "first_row (\<lambda>u. us_id u = ss_user s) (users db) = Some u"
      using first_row_None [of "\<lambda>u. us_id u = ss_user s" "users db"]
      by (cases "first_row (\<lambda>u. us_id u = ss_user s) (users db)") (auto simp: list_ex_iff)
    note u' = first_row_Some [OF u]
    consider "ss_revoked_at s \<noteq> None" | "ss_revoked_at s = None" "ss_expires_at s < now"
      | "ss_revoked_at s = None" "\<not> ss_expires_at s < now" "us_status u \<noteq> ''ACTIVE''"
      | "ss_revoked_at s = None" "\<not> ss_expires_at s < now" "us_status u = ''ACTIVE''" by blast
    then show thesis
    proof cases
      case 1
      then show thesis using s Some u by (intro reused) (auto simp: auth_refresh_def)
    next
      case 2
      then show thesis using s Some u by (intro expired) (auto simp: auth_refresh_def)
    next
      case 3
      then show thesis using s Some u by (intro inactive) (auto simp: auth_refresh_def)
    next
      case 4
      show thesis
      proof (cases "insert_session (new_session E now fr (ss_user s) (coalesce_text (ss_family s) (af_family fr)))
          (revoke_session now s db)")
        case (Inl e)
        then show thesis using 4 s Some u by (intro clash) (auto simp: auth_refresh_def)
      next
        case (Inr db1)
        then show thesis using 4 s Some u u' by (intro rotated) (auto simp: auth_refresh_def)
      qed
    qed
  qed
qed

lemma session_reused_sessions:
  "sessions (session_reused now s E db) =
     update_rows (\<lambda>r. ss_family s \<noteq> None \<and> ss_family r = ss_family s \<and> ss_revoked_at r = None)
       (\<lambda>r. r\<lparr>ss_revoked_at := Some now\<rparr>) (sessions db)"
  by (auto simp: session_reused_def revoke_sessions_def update_rows_def split: option.split)

lemma refresh_descends: "descends {hashToken E (af_refresh fr)} db (snd (auth_refresh E now fr raw db))"
proof (cases rule: auth_refresh_cases [of E now fr raw db])
  case (reused s e)
  then show ?thesis using descends_revoking [OF session_reused_sessions] by simp
next
  case (rotated s u db1)
  from rotated(8) have "sessions db1 = update_rows (\<lambda>r. ss_id r = ss_id s) (\<lambda>r. r\<lparr>ss_revoked_at := Some now\<rparr>) (sessions db) @
      [new_session E now fr (ss_user s) (coalesce_text (ss_family s) (af_family fr))]"
    by (simp add: insert_session_Inr revoke_session_def)
  then have "descends {hashToken E (af_refresh fr)} db db1" by (rule descends_revoking_insert) (simp add: new_session_def)
  then show ?thesis by (simp add: rotated(9) descends_def)
qed (auto simp: revoke_session_def intro: descends_subset descends_revoking)

lemma apply_reset_cases [case_names refused completed]:
  obtains (refused) e where "apply_reset E now fr u jti pw db = (Inl e, db)"
  | (completed) r where "r \<in> set (users db)" "us_id r = u" "us_status r = ''ACTIVE''"
      "\<not> exists_row (reset_done u jti) (login_events db)"
      "apply_reset E now fr u jti pw db = (Inr (),
        (let db1 = revoke_sessions now (\<lambda>s. ss_user s = u) (set_password E now fr u pw db) in
         db1\<lparr>login_events := login_events db1 @ [\<lparr>ev_user = Some u, ev_type = ''PASSWORD_RESET_COMPLETED'',
           ev_meta = [(''jti'', jti)], ev_created_at = now\<rparr>]\<rparr>))"
proof (cases "exists_row (reset_done u jti) (login_events db)")
  case True
  then show thesis by (intro refused) (simp add: apply_reset_def transaction_def)
next
  case False
  show thesis
  proof (cases "first_row (\<lambda>r. us_id r = u) (users db)")
    case None
    with False show thesis by (intro refused) (simp add: apply_reset_def transaction_def)
  next
    case (Some r)
    with False first_row_Some [OF Some] that show thesis
      by (cases "us_status r = ''ACTIVE''") (auto simp: apply_reset_def transaction_def Let_def)
  qed
qed

lemma resetPassword_cases [case_names refused completed]:
  obtains (refused) e where "resetPassword E now fr tok pw db = (Inl e, db)"
  | (completed) p jti r where "a_verify E now tok = Some p" "jp_jti p = Some jti"
      "r \<in> set (users db)" "us_id r = jp_sub p" "us_status r = ''ACTIVE''"
      "\<not> exists_row (reset_done (jp_sub p) jti) (login_events db)"
      "resetPassword E now fr tok pw db = (Inr (),
        (let db1 = revoke_sessions now (\<lambda>s. ss_user s = jp_sub p) (set_password E now fr (jp_sub p) pw db) in
         db1\<lparr>login_events := login_events db1 @ [\<lparr>ev_user = Some (jp_sub p), ev_type = ''PASSWORD_RESET_COMPLETED'',
           ev_meta = [(''jti'', jti)], ev_created_at = now\<rparr>]\<rparr>))"
proof (cases "a_verify E now tok")
  case None
  then show thesis by (intro refused) (simp add: resetPassword_def)
next
  case (Some p)
  show thesis
  proof (cases "jp_purpose p = Some ''password_reset'' \<and> jp_jti p \<noteq> None")
    case True
    then obtain jti where j: "jp_jti p = Some jti" by blast
    then have eq: "resetPassword E now fr tok pw db = apply_reset E now fr (jp_sub p) jti pw db"
      using True Some by (simp add: resetPassword_def)
    show thesis
      by (cases rule: apply_reset_cases [of E now fr "jp_sub p" jti pw db])
        (auto simp: eq Some j intro: refused completed)
  next
    case False
    with Some have "\<exists>e. resetPassword E now fr tok pw db = (Inl e, db)" by (auto simp: resetPassword_def split: option.split)
    then show thesis using refused by blast
  qed
qed

lemma changePassword_cases [case_names refused completed]:
  obtains (refused) e where "changePassword E now fr u cur new db = (Inl e, db)"
  | (completed) r c where "r \<in> set (users db)" "us_id r = u" "or_null cur = Some c" "a_compare E c (us_password r)"
      "changePassword E now fr u cur new db = (Inr (),
        (let db1 = set_password E now fr u (or_string new []) db in
         log_audit now ''system'' u ''iam.password_changed'' ''Settings password change'' []
           (db1\<lparr>sessions := filter (\<lambda>s. ss_user s \<noteq> u) (sessions db1)\<rparr>)))"
proof (cases "first_row (\<lambda>r. us_id r = u) (users db)")
  case None
  then have "\<exists>e. changePassword E now fr u cur new db = (Inl e, db)" by (auto simp: changePassword_def split: option.split)
  then show thesis using refused by blast
next
  case (Some r)
  note r = first_row_Some [OF Some]
  show thesis
  proof (cases "or_null cur")
    case c: (Some c)
    let ?bad = "length (or_string new []) < 8 \<or> \<not> a_compare E c (us_password r) \<or> a_compare E (or_string new []) (us_password r)"
    show thesis
    proof (cases ?bad)
      case True
      with Some c have "\<exists>e. changePassword E now fr u cur new db = (Inl e, db)" by (auto simp: changePassword_def)
      then show thesis using refused by blast
    next
      case False
      with Some c r show thesis by (intro completed [of r c]) (auto simp: changePassword_def Let_def)
    qed
  next
    case None
    then have "\<exists>e. changePassword E now fr u cur new db = (Inl e, db)" by (auto simp: changePassword_def)
    then show thesis using refused by blast
  qed
qed

lemma exec_account_descends: "descends {h. drawn_session E req = Some h} db (exec_account E req db)"
proof (cases "(E, req, db)" rule: exec_account.cases)
  case (1 E' now fr d db')
  with descends_opens [OF register_opens] show ?thesis by simp
next
  case (2 E' now fr d t db')
  with descends_opens [OF login_opens] show ?thesis by simp
next
  case (3 E' now fr d db')
  with descends_opens [OF verifyOtp_opens] show ?thesis by simp
next
  case (4 E' now fr raw db')
  with refresh_descends show ?thesis by simp
next
  case (5 E' now u raw db')
  then show ?thesis
    by (cases "or_null raw") (auto simp: auth_logout_def revoke_sessions_def intro!: descends_revoking)
next
  case (10 E' now fr tok pw db')
  have "descends H db (snd (resetPassword E now fr tok pw db))" for H
  proof (cases rule: resetPassword_cases [of E now fr tok pw db])
    case (completed p jti r)
    then show ?thesis by (simp add: Let_def) (rule descends_revoking, simp add: revoke_sessions_def)
  qed (simp add: descends_subset)
  with 10 show ?thesis by simp
next
  case (11 E' now fr u cur new db')
  have "descends H db (snd (changePassword E now fr u cur new db))" for H
    by (cases rule: changePassword_cases [of E now fr u cur new db]) (auto simp: Let_def intro!: descends_subset)
  with 11 show ?thesis by simp
qed (auto simp: setupMfa_def verifyMfa_def disableMfa_def forgotPassword_def Let_def intro!: descends_subset
  split: option.split)

text \<open>The sessions with a token, all revoked and of one family.\<close>

definition retired :: "string \<Rightarrow> uuid option \<Rightarrow> auth_db \<Rightarrow> bool" where
  "retired h f db \<longleftrightarrow> (\<forall>s\<in>set (sessions db). ss_hash s = h \<longrightarrow> ss_revoked_at s \<noteq> None \<and> ss_family s = f)"

lemma exec_account_spent:
  assumes "session_spent h db" "drawn_session E req \<noteq> Some h"
  shows "session_spent h (exec_account E req db)"
  using exec_account_descends [of E req db] assms
  by (fastforce simp: descends_def session_spent_def session_live_def list_ex_iff)

lemma exec_account_retired:
  assumes "retired h f db" "drawn_session E req \<noteq> Some h"
  shows "retired h f (exec_account E req db)"
  using exec_account_descends [of E req db] assms by (fastforce simp: descends_def retired_def)

interpretation session_rotation:
  selective_service "exec_account E" "\<lambda>db db'. session_spent h db \<longrightarrow> session_spent h db'" "\<lambda>req. drawn_session E req \<noteq> Some h" for E h
  by unfold_locales (auto intro: exec_account_spent)

interpretation session_families:
  selective_service "exec_account E" "\<lambda>db db'. retired h f db \<longrightarrow> retired h f db'" "\<lambda>req. drawn_session E req \<noteq> Some h" for E h f
  by unfold_locales (auto intro: exec_account_retired)

lemma spent_session_refused:
  assumes "session_spent (hashToken E raw) db"
  shows "\<not> ok (fst (auth_refresh E now fr raw db))"
proof (cases rule: auth_refresh_cases [of E now fr raw db])
  case (rotated s u db1)
  with assms show ?thesis by (auto simp: session_spent_def session_live_def list_ex_iff)
qed simp_all

section \<open>Lockout\<close>

definition user_keys :: "auth_db \<Rightarrow> bool" where
  "user_keys db \<longleftrightarrow> distinct (map us_id (users db)) \<and> distinct (map us_email (users db))"

definition locked_until :: "string \<Rightarrow> time \<Rightarrow> auth_db \<Rightarrow> bool" where
  "locked_until e t db \<longleftrightarrow> user_keys db \<and>
     (\<exists>r\<in>set (users db). us_email r = e \<and> (\<exists>l. us_locked r = Some l \<and> t \<le> l))"

lemma user_keys_update:
  assumes "user_keys db" "users db' = update_rows p f (users db)" "\<And>r. us_id (f r) = us_id r" "\<And>r. us_email (f r) = us_email r"
  shows "user_keys db'"
  using assms by (simp add: user_keys_def map_update_rows_frame)

lemma locked_update:
  assumes "locked_until e t db" "users db' = update_rows p f (users db)"
    and "\<And>r. us_id (f r) = us_id r" "\<And>r. us_email (f r) = us_email r"
    and "\<And>r. r \<in> set (users db) \<Longrightarrow> us_email r = e \<Longrightarrow> p r \<Longrightarrow> us_locked (f r) = us_locked r"
  shows "locked_until e t db'"
proof -
  obtain r l where r: "r \<in> set (users db)" "us_email r = e" "us_locked r = Some l" "t \<le> l"
    using assms(1) by (auto simp: locked_until_def)
  let ?r = "if p r then f r else r"
  have "?r \<in> set (users db')" unfolding assms(2) using r(1) by (auto simp: in_update_rows)
  moreover have "us_email ?r = e" "us_locked ?r = Some l" using r assms(4,5) by auto
  moreover have "user_keys db'"
    using assms(1) by (intro user_keys_update [OF _ assms(2-4)]) (simp add: locked_until_def)
  ultimately show ?thesis unfolding locked_until_def using r(4) by blast
qed

lemma locked_same: "locked_until e t db \<Longrightarrow> users db' = users db \<Longrightarrow> locked_until e t db'"
  by (simp add: locked_until_def user_keys_def)

text \<open>What a login does to the users.\<close>

definition touches :: "user_row \<Rightarrow> auth_db \<Rightarrow> auth_db \<Rightarrow> bool" where
  "touches u db db' \<longleftrightarrow> users db' = users db \<or>
     (\<exists>f. users db' = update_rows (\<lambda>r. us_id r = us_id u) f (users db) \<and>
        (\<forall>r. us_id (f r) = us_id r \<and> us_email (f r) = us_email r \<and> us_password (f r) = us_password r \<and>
             us_status (f r) = us_status r))"

lemma touches_update:
  assumes "users db' = update_rows (\<lambda>r. us_id r = us_id u) f (users db)"
    and "\<And>r. us_id (f r) = us_id r \<and> us_email (f r) = us_email r \<and> us_password (f r) = us_password r \<and>
      us_status (f r) = us_status r"
  shows "touches u db db'"
  unfolding touches_def using assms by blast

lemma fail_password_users:
  "users (fail_password now u db) = update_rows (\<lambda>r. us_id r = us_id u)
     (\<lambda>r. r\<lparr>us_failed := us_failed u + 1,
       us_locked := (if us_failed u + 1 \<ge> MAX_LOGIN_FAILURES then Some (now + minutes LOCKOUT_MIN) else None)\<rparr>) (users db)"
  by (simp add: fail_password_def Let_def)

lemma fail_password_touches: "touches u db (fail_password now u db)"
  by (rule touches_update [OF fail_password_users]) simp

lemma record_login_users:
  "users (record_login now i db) = update_rows (\<lambda>r. us_id r = i)
     (\<lambda>r. r\<lparr>us_failed := 0, us_locked := None, us_last_login := Some now\<rparr>) (users db)"
  by (simp add: record_login_def)

lemma record_login_touches: "touches u db (record_login now (us_id u) db)"
  by (rule touches_update [OF record_login_users]) simp

lemma touches_same: "touches u x db' \<Longrightarrow> users x = users db \<Longrightarrow> touches u db db'"
  by (simp add: touches_def)

lemma touches_after: "touches u db x \<Longrightarrow> users db' = users x \<Longrightarrow> touches u db db'"
  by (simp add: touches_def)

lemma finish_login_touches: "touches u db (snd (finish_login E now fr u enrol db))"
  by (rule touches_after [OF record_login_touches [of u db now]])
    (auto simp: finish_login_def Let_def createSession_Inr insert_session_Inr split: sum.split)

lemma trusted_login_users: "users (snd (trusted_login E now fr u enrol role trusted db)) = users db"
proof (cases "or_null trusted")
  case (Some raw)
  obtain res db1 where c: "consumeTrustedDevice E now fr (us_id u) raw db = (res, db1)" by fastforce
  have "users db1 = users db" using consume_frames [OF c] by simp
  then show ?thesis
    by (auto simp: trusted_login_def Some c challenge_def createSession_Inr insert_session_Inr split: sum.split option.split)
qed (simp add: trusted_login_def challenge_def)

lemma second_factor_touches: "touches u db (snd (second_factor E now fr u code trusted db))"
proof -
  have "touches u db (snd (check_factor E now fr u enrol role mfa code trusted db))" for enrol role mfa db
    using finish_login_touches touches_same [OF finish_login_touches]
    by (auto simp: check_factor_def trusted_login_users touches_def split: option.split)
  then show ?thesis unfolding second_factor_def Let_def by (rule touches_same) simp
qed

text \<open>The user a login is for, and the moment from which the lock no longer holds.\<close>

definition unlocked :: "time \<Rightarrow> user_row \<Rightarrow> bool" where
  "unlocked now u \<longleftrightarrow> \<not> (case us_locked u of Some t \<Rightarrow> t > now | None \<Rightarrow> False)"

lemma login_cases [case_names unknown refused wrong passed]:
  obtains (unknown) e where "first_row (\<lambda>u. us_email u = ld_email d) (users db) = None" "login E now fr d tr db = (Inl e, db)"
  | (refused) u e where "first_row (\<lambda>u. us_email u = ld_email d) (users db) = Some u"
      "\<not> unlocked now u \<or> us_status u \<noteq> ''ACTIVE''" "login E now fr d tr db = (Inl e, db)"
  | (wrong) u e where "first_row (\<lambda>u. us_email u = ld_email d) (users db) = Some u" "unlocked now u" "us_status u = ''ACTIVE''"
      "\<not> a_compare E (ld_password d) (us_password u)" "login E now fr d tr db = (Inl e, fail_password now u db)"
  | (passed) u where "first_row (\<lambda>u. us_email u = ld_email d) (users db) = Some u" "unlocked now u" "us_status u = ''ACTIVE''"
      "a_compare E (ld_password d) (us_password u)" "login E now fr d tr db = second_factor E now fr u (ld_mfa d) tr db"
proof (cases "first_row (\<lambda>u. us_email u = ld_email d) (users db)")
  case None
  then show thesis by (intro unknown) (simp_all add: login_def)
next
  case (Some u)
  consider "\<not> unlocked now u \<or> us_status u \<noteq> ''ACTIVE''"
    | "unlocked now u" "us_status u = ''ACTIVE''" "\<not> a_compare E (ld_password d) (us_password u)"
    | "unlocked now u" "us_status u = ''ACTIVE''" "a_compare E (ld_password d) (us_password u)" by blast
  then show thesis
  proof cases
    case 1
    with Some have "\<exists>e. login E now fr d tr db = (Inl e, db)" by (auto simp: login_def unlocked_def)
    with 1 Some show thesis using refused by blast
  next
    case 2
    with Some show thesis by (intro wrong [of u]) (simp_all add: login_def unlocked_def)
  next
    case 3
    with Some show thesis by (intro passed [of u]) (simp_all add: login_def unlocked_def)
  qed
qed

lemma login_locked:
  assumes "locked_until e t db" "now < t"
  shows "locked_until e t (snd (login E now fr d tr db))"
    and "ld_email d = e \<Longrightarrow> \<exists>err. login E now fr d tr db = (Inl err, db)"
proof -
  obtain r l where r: "r \<in> set (users db)" "us_email r = e" "us_locked r = Some l" "t \<le> l"
    and keys: "distinct (map us_id (users db))" "distinct (map us_email (users db))"
    using assms(1) by (auto simp: locked_until_def user_keys_def)
  have not_r: "us_email u \<noteq> e" if u: "u \<in> set (users db)" "unlocked now u" for u
  proof
    assume "us_email u = e"
    then have "u = r" using u(1) r(1,2) by (intro key_unique [OF keys(2)]) simp_all
    with u(2) r(3,4) assms(2) show False by (simp add: unlocked_def)
  qed
  have step: "locked_until e t db'" if u: "u \<in> set (users db)" "unlocked now u" and "touches u db db'" for u db'
    using that(3) unfolding touches_def
  proof
    assume "\<exists>f. users db' = update_rows (\<lambda>r. us_id r = us_id u) f (users db) \<and> (\<forall>r. us_id (f r) = us_id r \<and>
        us_email (f r) = us_email r \<and> us_password (f r) = us_password r \<and> us_status (f r) = us_status r)"
    then obtain f where f: "users db' = update_rows (\<lambda>r. us_id r = us_id u) f (users db)"
      "\<And>r. us_id (f r) = us_id r" "\<And>r. us_email (f r) = us_email r" by blast
    show ?thesis
    proof (rule locked_update [OF assms(1) f])
      fix x assume "x \<in> set (users db)" "us_email x = e" "us_id x = us_id u"
      then have "x = u" using u(1) by (intro key_unique [OF keys(1)]) simp_all
      with not_r [OF u] \<open>us_email x = e\<close> show "us_locked (f x) = us_locked x" by simp
    qed
  qed (rule locked_same [OF assms(1)])
  show "locked_until e t (snd (login E now fr d tr db))"
  proof (cases rule: login_cases [of d db E now fr tr])
    case (wrong u err)
    then show ?thesis using step [OF _ _ fail_password_touches] first_row_Some [OF wrong(1)] by simp
  next
    case (passed u)
    then show ?thesis using step [OF _ _ second_factor_touches] first_row_Some [OF passed(1)] by simp
  qed (use assms(1) in simp_all)
  show "\<exists>err. login E now fr d tr db = (Inl err, db)" if "ld_email d = e"
    by (cases rule: login_cases [of d db E now fr tr]) (use that not_r in \<open>auto dest!: first_row_Some\<close>)
qed

fun keeps_locks :: "time \<Rightarrow> time \<times> account_request \<Rightarrow> bool" where
  "keeps_locks t (now, VerifyOtp fr d) = False"
| "keeps_locks t (now, _) = (now < t)"

lemma register_locked:
  assumes "locked_until e t db"
  shows "locked_until e t (snd (register E now fr d db))"
proof (cases "missing_consent d = None \<and> \<not> exists_row (\<lambda>u. us_email u = rd_email d) (users db) \<and>
    \<not> exists_row (\<lambda>u. us_id u = af_user fr) (users db)")
  case True
  let ?db1 = "log_audit now ''system'' (af_user fr) ''iam.user.registered_pending_approval'' ''Awaiting admin approval''
      [(''status'', ''PENDING'')] (db\<lparr>users := users db @ [new_user E now fr d]\<rparr>)"
  have u1: "users ?db1 = users db @ [new_user E now fr d]" by simp
  have "user_keys ?db1"
    using assms True by (auto simp: locked_until_def user_keys_def u1 list_ex_iff new_user_def)
  then have l1: "locked_until e t ?db1" using assms by (auto simp: locked_until_def u1)
  show ?thesis
  proof (cases "attribute_referral d (af_user fr) ?db1")
    case (Inl err)
    with True l1 show ?thesis by (simp add: register_def Let_def)
  next
    case (Inr db2)
    then have "users db2 = users ?db1" using attribute_frames [OF Inr] by simp
    then have l2: "locked_until e t (record_consents now d (af_user fr) (insert_referral_code E (af_user fr) db2))"
      by (intro locked_update [OF l1, of _ "\<lambda>r. us_id r = af_user fr"
          "\<lambda>r. r\<lparr>us_marketing := rd_marketing d, us_consent := Some (consentVersion, now), us_updated_at := now\<rparr>"])
        (simp_all add: record_consents_def)
    have "users (snd (register E now fr d db)) =
        users (record_consents now d (af_user fr) (insert_referral_code E (af_user fr) db2))"
      using True Inr by (auto simp: register_def Let_def createSession_Inr insert_session_Inr split: sum.split prod.split)
    then show ?thesis by (rule locked_same [OF l2])
  qed
next
  case False
  then have "snd (register E now fr d db) = db" by (auto simp: register_def split: option.split)
  with assms show ?thesis by simp
qed

lemma refresh_users: "users (snd (auth_refresh E now fr raw db)) = users db"
proof (cases rule: auth_refresh_cases [of E now fr raw db])
  case (reused s e)
  then show ?thesis by (simp add: session_reused_def split: option.split)
next
  case (rotated s u db1)
  then show ?thesis by (auto simp: insert_session_Inr)
qed simp_all

lemma set_password_locked: "locked_until e t db \<Longrightarrow> locked_until e t (set_password E now fr u pw db)"
  by (rule locked_update [where p = "\<lambda>r. us_id r = u"
      and f = "\<lambda>r. r\<lparr>us_password := a_bcrypt E (af_salt fr) pw, us_updated_at := now\<rparr>"]) (simp_all add: set_password_def)

lemma exec_account_locked:
  assumes l: "locked_until e t db" and k: "keeps_locks t req"
  shows "locked_until e t (exec_account E req db)"
proof (cases "(E, req, db)" rule: exec_account.cases)
  case (1 E' now fr d db')
  with l register_locked show ?thesis by simp
next
  case (2 E' now fr d tr db')
  with l k login_locked(1) show ?thesis by simp
next
  case (4 E' now fr raw db')
  with locked_same [OF l refresh_users [of E now fr raw db]] show ?thesis by simp
next
  case (5 E' now u raw db')
  then show ?thesis using locked_same [OF l] by (simp add: auth_logout_def split: option.split)
next
  case (10 E' now fr tok pw db')
  have "locked_until e t (snd (resetPassword E now fr tok pw db))"
  proof (cases rule: resetPassword_cases [of E now fr tok pw db])
    case (completed p jti r)
    show ?thesis
      by (rule locked_same [OF set_password_locked [OF l, of E now fr "jp_sub p" pw]]) (simp add: completed(7) Let_def)
  qed (simp add: l)
  with 10 show ?thesis by simp
next
  case (11 E' now fr u cur new db')
  have "locked_until e t (snd (changePassword E now fr u cur new db))"
  proof (cases rule: changePassword_cases [of E now fr u cur new db])
    case (completed r c)
    show ?thesis
      by (rule locked_same [OF set_password_locked [OF l, of E now fr u "or_string new []"]]) (simp add: completed(5) Let_def)
  qed (simp add: l)
  with 11 show ?thesis by simp
qed (use k in \<open>auto simp: setupMfa_def verifyMfa_def disableMfa_def forgotPassword_def Let_def
  intro!: locked_same [OF l] split: option.split\<close>)

interpretation account_locks:
  selective_service "exec_account E" "\<lambda>db db'. locked_until e t db \<longrightarrow> locked_until e t db'" "keeps_locks t" for E e t
  by unfold_locales (auto intro: exec_account_locked)

text \<open>Five wrong passwords in a row lock the account for a quarter of an hour after the last.\<close>

type_synonym login_attempt = "time \<times> auth_fresh \<times> login_dto \<times> string option"

definition attempt :: "login_attempt \<Rightarrow> time \<times> account_request" where
  "attempt a = (case a of (now, fr, d, tr) \<Rightarrow> (now, Login fr d tr))"

definition wrong_attempt :: "auth_env \<Rightarrow> user_row \<Rightarrow> login_attempt \<Rightarrow> bool" where
  "wrong_attempt E u a \<longleftrightarrow> (case a of (now, fr, d, tr) \<Rightarrow> ld_email d = us_email u \<and> \<not> a_compare E (ld_password d) (us_password u))"

lemma wrong_attempt_step:
  assumes "user_keys db" "u \<in> set (users db)" "us_status u = ''ACTIVE''" "us_locked u = None" "wrong_attempt E u a"
  shows "\<exists>u'. user_keys (exec_account E (attempt a) db) \<and> u' \<in> set (users (exec_account E (attempt a) db)) \<and>
    us_email u' = us_email u \<and> us_status u' = ''ACTIVE'' \<and> us_password u' = us_password u \<and> us_failed u' = us_failed u + 1 \<and>
    us_locked u' = (if us_failed u + 1 \<ge> 5 then Some (fst a + minutes 15) else None)"
proof -
  obtain now fr d tr where a: "a = (now, fr, d, tr)" by (cases a)
  have "first_row (\<lambda>x. us_email x = us_email u) (users db) = Some u"
    using assms(1,2) by (intro first_row_unique) (simp_all add: user_keys_def)
  then have eq: "exec_account E (attempt a) db = fail_password now u db"
    using assms(3-5) by (simp add: a attempt_def wrong_attempt_def login_def)
  let ?f = "\<lambda>r. r\<lparr>us_failed := us_failed u + 1,
      us_locked := (if us_failed u + 1 \<ge> MAX_LOGIN_FAILURES then Some (now + minutes LOCKOUT_MIN) else None)\<rparr>"
  have "?f u \<in> set (users (fail_password now u db))"
    unfolding fail_password_users by (rule update_rows_hit [OF assms(2)]) simp
  moreover have "user_keys (fail_password now u db)"
    by (rule user_keys_update [OF assms(1) fail_password_users]) simp_all
  ultimately show ?thesis
    unfolding eq by (intro exI [of _ "?f u"]) (simp add: assms(3) a MAX_LOGIN_FAILURES_def LOCKOUT_MIN_def)
qed

lemma attempts_lock:
  assumes "user_keys db" "u \<in> set (users db)" "us_status u = ''ACTIVE''" "us_locked u = None"
    and "\<forall>a\<in>set as. wrong_attempt E u a" "as \<noteq> []" "us_failed u + length as = 5"
  shows "locked_until (us_email u) (fst (last as) + minutes 15) (run_requests (exec_account E) (map attempt as) db)"
  using assms
proof (induction as arbitrary: db u)
  case (Cons a as)
  let ?db = "exec_account E (attempt a) db"
  obtain u' where u': "user_keys ?db" "u' \<in> set (users ?db)" "us_email u' = us_email u" "us_status u' = ''ACTIVE''"
    "us_password u' = us_password u" "us_failed u' = us_failed u + 1"
    "us_locked u' = (if us_failed u + 1 \<ge> 5 then Some (fst a + minutes 15) else None)"
    using wrong_attempt_step [of db u E a] Cons.prems by auto
  show ?case
  proof (cases "as = []")
    case True
    then have "us_locked u' = Some (fst a + minutes 15)" using u'(7) Cons.prems(7) by simp
    with u'(1-3) True show ?thesis by (auto simp: locked_until_def)
  next
    case False
    then have "us_locked u' = None" using u'(7) Cons.prems(7) by (cases as) simp_all
    moreover have "\<forall>x\<in>set as. wrong_attempt E u' x" using Cons.prems(5) u'(3,5) by (auto simp: wrong_attempt_def)
    ultimately have "locked_until (us_email u') (fst (last as) + minutes 15) (run_requests (exec_account E) (map attempt as) ?db)"
      using False u' Cons.prems(7) by (intro Cons.IH) simp_all
    with False u'(3) show ?thesis by simp
  qed
qed simp

section \<open>Login events\<close>

text \<open>The events are a log: a request appends some, which satisfy \<open>B\<close>.\<close>

definition logs :: "(login_event_row \<Rightarrow> bool) \<Rightarrow> auth_db \<Rightarrow> auth_db \<Rightarrow> bool" where
  "logs B db db' \<longleftrightarrow> (\<exists>es. login_events db' = login_events db @ es \<and> (\<forall>e\<in>set es. B e))"

lemma logs_same: "login_events db' = login_events db \<Longrightarrow> logs B db db'"
  by (simp add: logs_def)

lemma logs_trans: "logs B db x \<Longrightarrow> logs B x db' \<Longrightarrow> logs B db db'"
  unfolding logs_def by (metis append.assoc Un_iff set_append)

lemma logs_event:
  "B \<lparr>ev_user = u, ev_type = ty, ev_meta = m, ev_created_at = now\<rparr> \<Longrightarrow> logs B db (logLoginEvent now u ty m db)"
  by (auto simp: logs_def logLoginEvent_def)

lemma logs_after: "logs B db x \<Longrightarrow> login_events db' = login_events x \<Longrightarrow> logs B db db'"
  by (simp add: logs_def)

lemma logs_before: "logs B x db' \<Longrightarrow> login_events x = login_events db \<Longrightarrow> logs B db db'"
  by (simp add: logs_def)

lemma logs_mono: "logs B db db' \<Longrightarrow> (\<And>e. B e \<Longrightarrow> C e) \<Longrightarrow> logs C db db'"
  by (auto simp: logs_def)

abbreviation ev_challenge :: "login_event_row \<Rightarrow> string option" where
  "ev_challenge e \<equiv> map_of (ev_meta e) ''challengeId''"

text \<open>Which events a request may add, as far as challenges are concerned.\<close>

fun event_ok :: "time \<times> account_request \<Rightarrow> login_event_row \<Rightarrow> bool" where
  "event_ok (now, Login fr d tr) e \<longleftrightarrow> (ev_type e = ''MFA_CHALLENGE'' \<longrightarrow> ev_challenge e = Some (af_challenge fr)) \<and>
     (ev_type e = ''MFA_FAILED'' \<longrightarrow> ev_challenge e = None)"
| "event_ok (now, VerifyOtp fr d) e \<longleftrightarrow> ev_type e \<noteq> ''MFA_CHALLENGE'' \<and>
     (ev_type e = ''MFA_FAILED'' \<longrightarrow> ev_challenge e = Some (od_challenge d))"
| "event_ok _ e \<longleftrightarrow> ev_type e \<noteq> ''MFA_CHALLENGE'' \<and> ev_type e \<noteq> ''MFA_FAILED''"

lemma finish_login_logs:
  assumes "\<And>m u ty. ty \<notin> {''MFA_CHALLENGE'', ''MFA_FAILED''} \<Longrightarrow> B \<lparr>ev_user = u, ev_type = ty, ev_meta = m, ev_created_at = now\<rparr>"
  shows "logs B db (snd (finish_login E now fr u enrol db))"
proof -
  have "logs B db (logLoginEvent now (Some (us_id u)) ''LOGIN_SUCCESS'' [] (record_login now (us_id u) db))"
    by (rule logs_before [OF logs_event]) (simp_all add: assms)
  then show ?thesis
    by (rule logs_after)
      (auto simp: finish_login_def Let_def createSession_Inr insert_session_Inr split: sum.split)
qed

lemma trusted_login_logs: "logs (event_ok (now, Login fr d tr)) db (snd (trusted_login E now fr u enrol role trusted db))"
proof -
  have ch: "logs (event_ok (now, Login fr d tr)) x (snd (challenge now fr u x))" for x
    by (simp add: challenge_def logs_def)
  show ?thesis
  proof (cases "or_null trusted")
    case None
    then show ?thesis by (simp add: trusted_login_def ch)
  next
    case (Some raw)
    obtain res db1 where c: "consumeTrustedDevice E now fr (us_id u) raw db = (res, db1)" by fastforce
    have same: "login_events db1 = login_events db" using consume_frames [OF c] by simp
    have ev: "logs (event_ok (now, Login fr d tr)) db (logLoginEvent now (Some (us_id u)) ''LOGIN_SUCCESS'' m x)"
      if "login_events x = login_events db" for m x
      by (rule logs_before [OF logs_event that]) simp
    show ?thesis
      using ch [THEN logs_before, OF same] ev same
      by (auto simp: trusted_login_def Some c createSession_Inr insert_session_Inr logs_same split: sum.split option.split)
  qed
qed

lemma login_logs: "logs (event_ok (now, Login fr d tr)) db (snd (login E now fr d tr db))"
proof -
  let ?B = "event_ok (now, Login fr d tr)"
  have fin: "logs ?B x (snd (finish_login E now fr u enrol x))" for x u enrol by (rule finish_login_logs) auto
  have chk: "logs ?B x (snd (check_factor E now fr u enrol role mfa code trusted x))" for x u enrol role mfa code trusted
  proof -
    have "logs ?B x (snd (finish_login E now fr u enrol
        (logLoginEvent now (Some (us_id u)) ''MFA_SUCCESS'' [(''inline'', ''true'')] x)))"
      by (rule logs_trans [OF logs_event fin]) simp
    moreover have "logs ?B x (logLoginEvent now (Some (us_id u)) ''MFA_FAILED'' [(''reason'', ''invalid_inline_code'')] x)"
      by (rule logs_event) simp
    ultimately show ?thesis by (auto simp: check_factor_def fin trusted_login_logs split: option.split)
  qed
  have sec: "logs ?B x (snd (second_factor E now fr u code trusted x))" for x u code trusted
  proof -
    have "logs ?B x (logLoginEvent now (Some (us_id u)) ''LOGIN_MFA_ENROLLMENT_REQUIRED'' m x)" for m by (rule logs_event) simp
    from logs_trans [OF this chk] chk show ?thesis by (simp add: second_factor_def Let_def)
  qed
  have "logs ?B db (fail_password now u db)" for u
    unfolding fail_password_def Let_def by (rule logs_before [OF logs_event]) simp_all
  with sec show ?thesis by (auto simp: login_def logs_same split: option.split)
qed

lemma accept_otp_logs:
  assumes "\<And>m u. B \<lparr>ev_user = u, ev_type = ''MFA_SUCCESS'', ev_meta = m, ev_created_at = now\<rparr>"
  shows "logs B db (snd (accept_otp E now fr u d db))"
proof -
  have "logs B db (record_login now u (logLoginEvent now (Some u) ''MFA_SUCCESS'' [(''challengeId'', od_challenge d)] db))"
    by (rule logs_after [OF logs_event]) (simp_all add: assms)
  then show ?thesis
    by (rule logs_after) (auto simp: accept_otp_def Let_def createSession_Inr insert_session_Inr registerTrusted_Inr
        dest!: insert_trusted_Inr split: option.split sum.split)
qed

lemma verifyOtp_logs: "logs (event_ok (now, VerifyOtp fr d)) db (snd (verifyOtp E now fr d db))"
proof -
  have "logs (event_ok (now, VerifyOtp fr d)) db (snd (accept_otp E now fr u d db))" for u by (rule accept_otp_logs) simp
  moreover have "logs (event_ok (now, VerifyOtp fr d)) db
      (logLoginEvent now (Some u) ''MFA_FAILED'' [(''challengeId'', od_challenge d)] db)" for u by (rule logs_event) simp
  ultimately show ?thesis by (auto simp: verifyOtp_def logs_same split: option.split)
qed

lemma register_logs: "logs B db (snd (register E now fr d db))"
  by (rule logs_same) (auto simp: register_def Let_def createSession_Inr insert_session_Inr dest!: attribute_frames
      split: option.split sum.split prod.split)

lemma refresh_logs:
  assumes "\<And>m u ty. ty \<notin> {''MFA_CHALLENGE'', ''MFA_FAILED''} \<Longrightarrow> B \<lparr>ev_user = u, ev_type = ty, ev_meta = m, ev_created_at = now\<rparr>"
  shows "logs B db (snd (auth_refresh E now fr raw db))"
proof -
  have ev: "logs B db (logLoginEvent now u ty m x)"
    if "login_events x = login_events db" "ty \<notin> {''MFA_CHALLENGE'', ''MFA_FAILED''}" for u ty m x
    by (rule logs_before [OF logs_event that(1)]) (rule assms [OF that(2)])
  show ?thesis
    by (cases rule: auth_refresh_cases [of E now fr raw db])
      (auto simp: session_reused_def insert_session_Inr logs_same intro!: ev split: option.split)
qed

lemma exec_account_logs: "logs (event_ok req) db (exec_account E req db)"
proof (cases "(E, req, db)" rule: exec_account.cases)
  case (2 E' now fr d tr db')
  then show ?thesis using login_logs by simp
next
  case (3 E' now fr d db')
  then show ?thesis using verifyOtp_logs by simp
next
  case (4 E' now fr raw db')
  then show ?thesis using refresh_logs [of "event_ok req" now db E fr raw] by simp
next
  case (5 E' now u raw db')
  have "logs (event_ok req) db (auth_logout E now u raw db)"
    unfolding auth_logout_def by (rule logs_before [OF logs_event]) (use 5 in \<open>simp_all split: option.split\<close>)
  with 5 show ?thesis by simp
next
  case (9 E' now fr mail email db')
  have "logs (event_ok req) db (logLoginEvent now u ''PASSWORD_RESET_REQUESTED'' [] (db\<lparr>sent_mails := ms\<rparr>))" for u ms
    by (rule logs_before [OF logs_event]) (use 9 in simp_all)
  with 9 show ?thesis by (auto simp: forgotPassword_def logs_same split: option.split)
next
  case (10 E' now fr tok pw db')
  have "logs (event_ok req) db (snd (resetPassword E now fr tok pw db))"
    by (cases rule: resetPassword_cases [of E now fr tok pw db])
      (use 10 in \<open>simp_all add: logs_same, simp add: logs_def Let_def\<close>)
  with 10 show ?thesis by simp
next
  case (11 E' now fr u cur new db')
  have "login_events (snd (changePassword E now fr u cur new db)) = login_events db"
    by (cases rule: changePassword_cases [of E now fr u cur new db]) (simp_all add: Let_def)
  with 11 show ?thesis by (simp add: logs_same)
qed (auto simp: register_logs setupMfa_def verifyMfa_def disableMfa_def Let_def intro!: logs_same split: option.split)

end
