(* ===== verification/Guards.thy ===== *)
theory Guards
  imports Auth
begin

text \<open>
  The guards in front of the endpoints: \<^verbatim>\<open>common/guards/jwt-auth.guard.ts\<close> (bearer token or cookie, with the
  revalidation of administrators against the database), \<^verbatim>\<open>admin.guard.ts\<close> and \<^verbatim>\<open>roles.guard.ts\<close> (roles and
  permissions declared on a handler or its class). A guard answers the user of the request or an error.
\<close>

record http_request =
  hr_authorization :: "string option"
  hr_cookies :: "(string \<times> string) list"
  hr_origin :: "string option"
  hr_referer :: "string option"

record guard_config =
  gc_access_cookie :: "string option"
  gc_secret :: "string option"

text \<open>The pool is optional, and a query on it may fail.\<close>

datatype pool = NoPool | PoolDown | Pool auth_db

section \<open>JwtAuthGuard\<close>

definition access_cookie_name :: "guard_config \<Rightarrow> string" where
  "access_cookie_name c = coalesce_text (gc_access_cookie c) ''pat_access_token''"

definition bearer_prefix :: "string \<Rightarrow> bool" where
  "bearer_prefix s \<longleftrightarrow> take 7 s = ''Bearer ''"

definition request_token :: "guard_config \<Rightarrow> http_request \<Rightarrow> string option" where
  "request_token c req =
     or_null (case hr_authorization req of
        Some a \<Rightarrow> if bearer_prefix a then Some (drop 7 a) else map_of (hr_cookies req) (access_cookie_name c)
      | None \<Rightarrow> map_of (hr_cookies req) (access_cookie_name c))"

definition validatePrivilegedUser :: "pool \<Rightarrow> jwt_payload \<Rightarrow> unit result" where
  "validatePrivilegedUser P p =
     (case P of
        NoPool \<Rightarrow> Inl (Unauthorized ''Privileged session validation unavailable'')
      | PoolDown \<Rightarrow> Inl (Unauthorized ''Privileged session could not be validated'')
      | Pool db \<Rightarrow>
          (case first_row (\<lambda>u. us_id u = jp_sub p \<and> us_deleted u = None) (users db) of
             None \<Rightarrow> Inl (Unauthorized ''Account not found'')
           | Some u \<Rightarrow>
               if us_status u \<noteq> ''ACTIVE'' then Inl (Unauthorized ''Account is not active'')
               else if coalesce_text (jp_role p) ''undefined'' \<notin> set (filter (\<lambda>n. n \<noteq> []) (roles_of (jp_sub p) db))
               then Inl (Forbidden ''Privileged role no longer held'')
               else Inr ()))"

definition revalidated_role :: "jwt_payload \<Rightarrow> bool" where
  "revalidated_role p \<longleftrightarrow> jp_role p = Some ''ADMIN'' \<or> jp_role p = Some ''SUPER_ADMIN''"

definition jwt_canActivate :: "auth_env \<Rightarrow> guard_config \<Rightarrow> pool \<Rightarrow> time \<Rightarrow> http_request \<Rightarrow> jwt_payload result" where
  "jwt_canActivate E c P now req =
     (case request_token c req of
        None \<Rightarrow> Inl (Unauthorized ''Missing bearer token'')
      | Some tok \<Rightarrow>
          (case or_null (gc_secret c) of
             None \<Rightarrow> Inl (Unauthorized ''JWT_SECRET not configured'')
           | Some _ \<Rightarrow>
               (case a_verify E now tok of
                  None \<Rightarrow> Inl (Unauthorized ''Invalid token'')
                | Some p \<Rightarrow>
                    if or_null (jp_purpose p) \<notin> {None, Some ''access''} then Inl (Unauthorized ''Invalid token type'')
                    else if revalidated_role p then map_sum id (\<lambda>_. p) (validatePrivilegedUser P p)
                    else Inr p)))"

text \<open>The advisory log line for a privileged account without an authenticator.\<close>

definition mfa_advisory :: "jwt_payload \<Rightarrow> bool" where
  "mfa_advisory p \<longleftrightarrow> jp_mfa p = Some True \<and> coalesce_text (jp_role p) ''undefined'' \<in> set PRIVILEGED_ROLES"

section \<open>AdminGuard, RolesGuard, PermissionGuard\<close>

definition admin_canActivate :: "jwt_payload option \<Rightarrow> unit result" where
  "admin_canActivate user =
     (case user of
        None \<Rightarrow> Inl (Forbidden ''Authentication required'')
      | Some p \<Rightarrow> if jp_role p \<noteq> Some ''ADMIN'' \<and> jp_role p \<noteq> Some ''SUPER_ADMIN''
                  then Inl (Forbidden ''Admin access required'') else Inr ())"

datatype Role = USER | SUPPORT | ANALYST | AUDITOR | TRADING_OPERATOR | RISK_MANAGER | ADMIN | SUPER_ADMIN

fun role_text :: "Role \<Rightarrow> string" where
  "role_text USER = ''USER''"
| "role_text SUPPORT = ''SUPPORT''"
| "role_text ANALYST = ''ANALYST''"
| "role_text AUDITOR = ''AUDITOR''"
| "role_text TRADING_OPERATOR = ''TRADING_OPERATOR''"
| "role_text RISK_MANAGER = ''RISK_MANAGER''"
| "role_text ADMIN = ''ADMIN''"
| "role_text SUPER_ADMIN = ''SUPER_ADMIN''"

datatype Permission = PAYOUT_APPROVE | PAYOUT_RECONCILE | COMMISSION_ADJUST | COMMISSION_REVERSE | LICENSE_MANAGE |
  BILLING_MANAGE | USER_MANAGE | RISK_MANAGE

fun permission_text :: "Permission \<Rightarrow> string" where
  "permission_text PAYOUT_APPROVE = ''payout:approve''"
| "permission_text PAYOUT_RECONCILE = ''payout:reconcile''"
| "permission_text COMMISSION_ADJUST = ''commission:adjust''"
| "permission_text COMMISSION_REVERSE = ''commission:reverse''"
| "permission_text LICENSE_MANAGE = ''license:manage''"
| "permission_text BILLING_MANAGE = ''billing:manage''"
| "permission_text USER_MANAGE = ''user:manage''"
| "permission_text RISK_MANAGE = ''risk:modify''"

text \<open>The metadata of the handler overrides that of the class; none and an empty list let everyone pass.\<close>

definition getAllAndOverride :: "'a list option \<Rightarrow> 'a list option \<Rightarrow> 'a list" where
  "getAllAndOverride handler cls = (case handler of Some xs \<Rightarrow> xs | None \<Rightarrow> coalesce_text cls [])"

definition roles_canActivate :: "Role list option \<Rightarrow> Role list option \<Rightarrow> jwt_payload option \<Rightarrow> unit result" where
  "roles_canActivate handler cls user =
     (let required = getAllAndOverride handler cls in
      if required = [] then Inr ()
      else
        (case user of
           None \<Rightarrow> Inl (Forbidden ''Authentication required'')
         | Some p \<Rightarrow>
             if coalesce_text (jp_role p) (role_text USER) \<notin> set (map role_text required)
             then Inl (Forbidden (''Required role: '' @ js_join '' | '' (map role_text required)))
             else Inr ()))"

definition missing_permissions :: "Permission list \<Rightarrow> string list \<Rightarrow> Permission list" where
  "missing_permissions required perms =
     filter (\<lambda>p. \<not> exists_row (\<lambda>u. js_lower u = js_lower (permission_text p)) perms) required"

definition permission_canActivate ::
  "Permission list option \<Rightarrow> Permission list option \<Rightarrow> jwt_payload option \<Rightarrow> unit result" where
  "permission_canActivate handler cls user =
     (let required = getAllAndOverride handler cls in
      if required = [] then Inr ()
      else
        (case user of
           None \<Rightarrow> Inl (Forbidden ''Authentication required'')
         | Some p \<Rightarrow>
             (let missing = missing_permissions required (coalesce_text (jp_permissions p) []) in
              if missing \<noteq> [] then Inl (Forbidden (''Missing permission: '' @ js_join '' '' (map permission_text missing)))
              else Inr ())))"

text \<open>
  The two stacks of the controllers: the token, then the roles and the permissions that the route or its
  class declares; and the token, then the administrator's guard.
\<close>

definition roles_gate ::
  "auth_env \<Rightarrow> guard_config \<Rightarrow> pool \<Rightarrow> time \<Rightarrow> Role list option \<Rightarrow> Role list option \<Rightarrow> Permission list option \<Rightarrow>
   http_request \<Rightarrow> jwt_payload result" where
  "roles_gate E c P now handler cls perms req =
     (case jwt_canActivate E c P now req of
        Inl e \<Rightarrow> Inl e
      | Inr p \<Rightarrow>
          (case roles_canActivate handler cls (Some p) of
             Inl e \<Rightarrow> Inl e
           | Inr _ \<Rightarrow> map_sum id (\<lambda>_. p) (permission_canActivate perms None (Some p))))"

definition admin_gate :: "auth_env \<Rightarrow> guard_config \<Rightarrow> pool \<Rightarrow> time \<Rightarrow> http_request \<Rightarrow> jwt_payload result" where
  "admin_gate E c P now req =
     (case jwt_canActivate E c P now req of
        Inl e \<Rightarrow> Inl e
      | Inr p \<Rightarrow> map_sum id (\<lambda>_. p) (admin_canActivate (Some p)))"

section \<open>Lemmas\<close>

lemma jwt_canActivate_Inr:
  assumes "jwt_canActivate E c P now req = Inr p"
  shows "\<exists>tok. request_token c req = Some tok \<and> a_verify E now tok = Some p \<and>
      or_null (jp_purpose p) \<in> {None, Some ''access''} \<and> (revalidated_role p \<longrightarrow> validatePrivilegedUser P p = Inr ())"
proof -
  have "map_sum id (\<lambda>_. q) r = Inr q' \<longleftrightarrow> r = Inr () \<and> q' = q" for q q' :: jwt_payload and r :: "unit result"
    by (cases r) auto
  then show ?thesis
    using assms by (auto simp: jwt_canActivate_def split: option.splits if_splits)
qed

lemma validatePrivileged_Inr:
  assumes "validatePrivilegedUser P p = Inr ()"
  shows "\<exists>db u. P = Pool db \<and> u \<in> set (users db) \<and> us_id u = jp_sub p \<and> us_deleted u = None \<and> us_status u = ''ACTIVE'' \<and>
    coalesce_text (jp_role p) ''undefined'' \<in> set (roles_of (jp_sub p) db)"
  using assms by (auto simp: validatePrivilegedUser_def split: pool.splits option.splits if_splits dest!: first_row_Some)

lemma admin_canActivate_Inr: "admin_canActivate (Some p) = Inr () \<longleftrightarrow> revalidated_role p"
  by (auto simp: admin_canActivate_def revalidated_role_def)

lemma missing_permissions_Nil:
  "missing_permissions required perms = [] \<longleftrightarrow>
   (\<forall>p\<in>set required. \<exists>u\<in>set perms. js_lower u = js_lower (permission_text p))"
  by (auto simp: missing_permissions_def filter_empty_conv list_ex_iff)

lemma map_unit_Inr: "map_sum id (\<lambda>_. q) r = Inr q' \<longleftrightarrow> r = Inr () \<and> q' = q" for r :: "unit result"
  by (cases r) auto

lemma admin_gate_Inr:
  "admin_gate E c P now req = Inr p \<longleftrightarrow> jwt_canActivate E c P now req = Inr p \<and> revalidated_role p"
  by (cases "jwt_canActivate E c P now req") (auto simp: admin_gate_def map_unit_Inr admin_canActivate_Inr)

lemma roles_gate_Inr:
  "roles_gate E c P now handler cls perms req = Inr p \<longleftrightarrow> jwt_canActivate E c P now req = Inr p \<and>
     roles_canActivate handler cls (Some p) = Inr () \<and> permission_canActivate perms None (Some p) = Inr ()"
proof (cases "jwt_canActivate E c P now req")
  case (Inr q)
  then show ?thesis
    by (cases "roles_canActivate handler cls (Some q)") (auto simp: roles_gate_def map_unit_Inr)
qed (simp add: roles_gate_def)

lemma roles_canActivate_admins:
  "getAllAndOverride handler cls = [ADMIN, SUPER_ADMIN] \<Longrightarrow>
   roles_canActivate handler cls (Some p) = Inr () \<longleftrightarrow> revalidated_role p"
  by (cases "jp_role p") (auto simp: roles_canActivate_def revalidated_role_def coalesce_text_def)

lemma permission_canActivate_Inr:
  "permission_canActivate perms None (Some p) = Inr () \<longleftrightarrow>
   missing_permissions (coalesce_text perms []) (coalesce_text (jp_permissions p) []) = []"
  by (cases perms) (auto simp: permission_canActivate_def getAllAndOverride_def Let_def missing_permissions_def coalesce_text_def)

text \<open>An account that may act as an administrator at this moment.\<close>

definition active_admin :: "pool \<Rightarrow> jwt_payload \<Rightarrow> bool" where
  "active_admin P p \<longleftrightarrow> (\<exists>db u r. P = Pool db \<and> u \<in> set (users db) \<and> us_id u = jp_sub p \<and> us_deleted u = None \<and>
     us_status u = ''ACTIVE'' \<and> jp_role p = Some r \<and> r \<in> {''ADMIN'', ''SUPER_ADMIN''} \<and> r \<in> set (roles_of (jp_sub p) db))"

lemma jwt_active_admin:
  assumes "jwt_canActivate E c P now req = Inr p" "revalidated_role p"
  shows "active_admin P p"
proof -
  have "validatePrivilegedUser P p = Inr ()" using jwt_canActivate_Inr [OF assms(1)] assms(2) by blast
  from validatePrivileged_Inr [OF this] assms(2) show ?thesis
    unfolding active_admin_def revalidated_role_def coalesce_text_def by fastforce
qed

text \<open>A token without a purpose, such as one for another channel, is accepted as a user's.\<close>

lemma purposeless_token_accepted:
  assumes "request_token c req = Some tok" "gc_secret c = Some s" "s \<noteq> []" "a_verify E now tok = Some p"
    and "jp_purpose p = None" "\<not> revalidated_role p"
  shows "jwt_canActivate E c P now req = Inr p"
  using assms by (simp add: jwt_canActivate_def or_null_def)

section \<open>Properties\<close>

definition example_admin_db :: auth_db where
  "example_admin_db = \<lparr>users = [\<lparr>us_id = 1, us_email = ''a'', us_password = ''x'', us_name = None, us_status = ''ACTIVE'',
       us_failed = 0, us_locked = None, us_last_login = None, us_deleted = None,
       us_profile = \<lparr>ob_address1 = None, ob_address2 = None, ob_city = None, ob_region = None, ob_postal = None,
         ob_country = None, ob_mobile = None, ob_whatsapp = None, ob_telegram = None, ob_instagram = None, ob_facebook = None,
         ob_broker = None, ob_source = None\<rparr>,
       us_marketing = (False, False, False), us_consent = None, us_created_at = 0, us_updated_at = 0\<rparr>],
     sessions = [], mfa_methods = [], login_events = [], trusted_devices = [], audit_events = [], client_events = [],
     memberships = [(1, Some 2)], roles = [(2, ''ADMIN'')], role_permissions = [(2, 3), (2, 4)],
     permissions = [(3, ''Risk:Modify''), (4, ''payout:approve'')],
     referral_codes = [], sponsor_links = [], license_states = [], sent_mails = []\<rparr>"

definition example_admin_env :: auth_env where
  "example_admin_env = \<lparr>a_bcrypt = (\<lambda>s t. t), a_compare = (=), a_sha = (\<lambda>t. t), a_otp = (\<lambda>now c s. c = s),
     a_keyuri = (\<lambda>e s. e), a_sign = (\<lambda>p l now. ''jwt''),
     a_verify = (\<lambda>now t. if t = ''jwt'' then Some (access_claims 1 ''a'' example_admin_db) else None), a_uuid = (\<lambda>i. ''id'')\<rparr>"

definition example_admin_request :: http_request where
  "example_admin_request = \<lparr>hr_authorization = Some ''Bearer jwt'', hr_cookies = [], hr_origin = None, hr_referer = None\<rparr>"



end
