(* ===== verification/Accounts.thy ===== *)
theory Accounts
  imports Auth
begin

text \<open>
  What the accounts of \<^verbatim>\<open>auth.service.ts\<close> guarantee over sequences of requests: which evidence opens a session,
  how long a lockout lasts, how often a one-time code can be guessed, what the reuse of a refresh token
  and the reset of a password end.
\<close>

section \<open>The evidence for a session\<close>

definition opens_for :: "auth_env \<Rightarrow> time \<Rightarrow> auth_fresh \<Rightarrow> uuid \<Rightarrow> auth_db \<Rightarrow> login_result result \<times> auth_db \<Rightarrow> bool" where
  "opens_for E now fr i db p \<longleftrightarrow>
     (case p of
        (Inr (LoggedIn r), db') \<Rightarrow> re_user r = i \<and> sessions db' = sessions db @ [new_session E now fr i (af_family fr)]
      | (_, db') \<Rightarrow> sessions db' = sessions db)"

lemma finish_login_opens_for: "opens_for E now fr (us_id u) db (finish_login E now fr u enrol db)"
  by (auto simp: opens_for_def finish_login_def Let_def createSession_Inr insert_session_Inr login_response_def
      split: sum.split)

lemma opens_for_same: "opens_for E now fr i x p \<Longrightarrow> sessions x = sessions db \<Longrightarrow> opens_for E now fr i db p"
  by (cases p) (auto simp: opens_for_def split: sum.splits login_result.splits)

lemma trusted_login_opens_for: "opens_for E now fr (us_id u) db (trusted_login E now fr u enrol role tr db)"
proof (cases "or_null tr")
  case None
  then show ?thesis by (simp add: trusted_login_def challenge_def opens_for_def)
next
  case (Some raw)
  obtain res db1 where c: "consumeTrustedDevice E now fr (us_id u) raw db = (res, db1)" by fastforce
  have "sessions db1 = sessions db" using consume_frames [OF c] by simp
  then show ?thesis
    by (auto simp: trusted_login_def Some c challenge_def opens_for_def createSession_Inr insert_session_Inr
        login_response_def split: sum.split option.split)
qed

lemma second_factor_opens_for: "opens_for E now fr (us_id u) db (second_factor E now fr u code tr db)"
proof -
  have "opens_for E now fr (us_id u) x (check_factor E now fr u enrol role mfa code tr x)" for enrol role mfa x
    using finish_login_opens_for opens_for_same [OF finish_login_opens_for] trusted_login_opens_for
    by (auto simp: check_factor_def opens_for_def split: option.split)
  then show ?thesis unfolding second_factor_def Let_def by (rule opens_for_same) simp
qed

text \<open>
  The second factor of a user with an authenticator: a valid code, or a remembered device whose row is
  used up by the login.
\<close>

definition factor_shown :: "auth_env \<Rightarrow> time \<Rightarrow> uuid \<Rightarrow> string option \<Rightarrow> string option \<Rightarrow> auth_db \<Rightarrow> auth_db \<Rightarrow> bool" where
  "factor_shown E now i code tr db db' \<longleftrightarrow>
     (case first_row (totp_enabled i) (mfa_methods db) of
        None \<Rightarrow> True
      | Some m \<Rightarrow> (\<exists>c. code = Some c \<and> a_otp E now c (mf_secret m)) \<or>
          (\<exists>raw. tr = Some raw \<and> (\<exists>t\<in>set (trusted_devices db). trusted_live i (a_sha E raw) now t \<and>
             (\<exists>t'\<in>set (trusted_devices db'). td_id t' = td_id t \<and> td_revoked_at t' = Some now))))"

lemma consume_evidence:
  assumes "consumeTrustedDevice E now fr i raw db = (Inr (Some raw'), db')"
  shows "\<exists>t\<in>set (trusted_devices db). trusted_live i (a_sha E raw) now t \<and>
    (\<exists>t'\<in>set (trusted_devices db'). td_id t' = td_id t \<and> td_revoked_at t' = Some now)"
proof -
  obtain t where t: "first_row (trusted_live i (a_sha E raw) now) (trusted_devices db) = Some t"
    using assms by (auto simp: consumeTrustedDevice_def split: if_splits option.splits)
  let ?f = "\<lambda>r. r\<lparr>td_revoked_at := Some now\<rparr>"
  have "?f t \<in> set (update_rows (\<lambda>r. td_id r = td_id t) ?f (trusted_devices db))"
    by (rule update_rows_hit) (use first_row_Some [OF t] in simp_all)
  then have "?f t \<in> set (trusted_devices db')"
    using assms t by (auto simp: consumeTrustedDevice_def Let_def registerTrusted_Inr dest!: insert_trusted_Inr
        split: if_splits sum.splits)
  moreover have "td_id (?f t) = td_id t \<and> td_revoked_at (?f t) = Some now" by simp
  ultimately show ?thesis using first_row_Some [OF t] by blast
qed

lemma trusted_login_evidence:
  assumes "trusted_login E now fr u enrol role tr db = (Inr (LoggedIn r), db')"
  shows "\<exists>raw. tr = Some raw \<and> (\<exists>t\<in>set (trusted_devices db). trusted_live (us_id u) (a_sha E raw) now t \<and>
    (\<exists>t'\<in>set (trusted_devices db'). td_id t' = td_id t \<and> td_revoked_at t' = Some now))"
proof -
  obtain raw where raw: "or_null tr = Some raw"
    using assms by (auto simp: trusted_login_def challenge_def split: option.splits)
  obtain raw' db1 where c: "consumeTrustedDevice E now fr (us_id u) raw db = (Inr (Some raw'), db1)"
    using assms raw by (auto simp: trusted_login_def challenge_def split: sum.splits option.splits prod.splits)
  have "trusted_devices db' = trusted_devices db1"
    using assms raw c by (auto simp: trusted_login_def createSession_Inr insert_session_Inr split: sum.splits)
  with consume_evidence [OF c] raw show ?thesis by (cases tr) (auto simp: or_null_def split: if_splits)
qed

lemma second_factor_evidence:
  assumes "second_factor E now fr u code tr db = (Inr (LoggedIn r), db')"
  shows "factor_shown E now (us_id u) code tr db db'"
proof (cases "first_row (totp_enabled (us_id u)) (mfa_methods db)")
  case None
  then show ?thesis by (simp add: factor_shown_def)
next
  case (Some m)
  let ?role = "case roles_of (us_id u) db of [] \<Rightarrow> ''USER'' | r # _ \<Rightarrow> r"
  have chk: "check_factor E now fr u False ?role (Some m) code tr db = (Inr (LoggedIn r), db')"
    using assms Some by (simp add: second_factor_def Let_def)
  show ?thesis
  proof (cases "or_null code")
    case None
    then have "trusted_login E now fr u False ?role tr db = (Inr (LoggedIn r), db')"
      using chk by (simp add: check_factor_def)
    from trusted_login_evidence [OF this] Some show ?thesis by (simp add: factor_shown_def)
  next
    case c: (Some c)
    then have "a_otp E now c (mf_secret m)" using chk by (simp add: check_factor_def split: if_splits)
    moreover have "code = Some c" using c by (cases code) (auto simp: or_null_def split: if_splits)
    ultimately show ?thesis using Some by (simp add: factor_shown_def)
  qed
qed

lemma login_evidence:
  "case login E now fr d tr db of
     (Inr (LoggedIn r), db') \<Rightarrow>
       sessions db' = sessions db @ [new_session E now fr (re_user r) (af_family fr)] \<and>
       (\<exists>u\<in>set (users db). us_id u = re_user r \<and> us_email u = ld_email d \<and> us_status u = ''ACTIVE'' \<and> unlocked now u \<and>
          a_compare E (ld_password d) (us_password u) \<and> factor_shown E now (us_id u) (ld_mfa d) tr db db')
   | (_, db') \<Rightarrow> sessions db' = sessions db"
proof (cases rule: login_cases [of d db E now fr tr])
  case (passed u)
  obtain res db' where sf: "second_factor E now fr u (ld_mfa d) tr db = (res, db')" by fastforce
  have o: "opens_for E now fr (us_id u) db (res, db')" using second_factor_opens_for [of E now fr u db] sf by metis
  show ?thesis
  proof (cases "\<exists>r. res = Inr (LoggedIn r)")
    case True
    then obtain r where r: "res = Inr (LoggedIn r)" ..
    with sf have "factor_shown E now (us_id u) (ld_mfa d) tr db db'" using second_factor_evidence by blast
    with passed first_row_Some [OF passed(1)] o r show ?thesis by (auto simp: sf opens_for_def)
  next
    case False
    with o show ?thesis by (auto simp: passed(5) sf opens_for_def split: sum.splits login_result.splits)
  qed
qed simp_all

section \<open>Guessing a one-time code\<close>

definition is_challenge :: "string \<Rightarrow> login_event_row \<Rightarrow> bool" where
  "is_challenge c e \<longleftrightarrow> ev_type e = ''MFA_CHALLENGE'' \<and> ev_challenge e = Some c"

definition failed_guess :: "string \<Rightarrow> login_event_row \<Rightarrow> bool" where
  "failed_guess c e \<longleftrightarrow> ev_type e = ''MFA_FAILED'' \<and> ev_challenge e = Some c"

fun drawn_challenge :: "time \<times> account_request \<Rightarrow> string option" where
  "drawn_challenge (now, Login fr d tr) = Some (af_challenge fr)"
| "drawn_challenge _ = None"

text \<open>One challenge, and at most five failed guesses of it, each by its user and not before it.\<close>

definition guess_inv :: "string \<Rightarrow> login_event_row \<Rightarrow> auth_db \<Rightarrow> bool" where
  "guess_inv c ch db \<longleftrightarrow> filter (is_challenge c) (login_events db) = [ch] \<and> ev_user ch \<noteq> None \<and>
     (\<forall>e\<in>set (login_events db). failed_guess c e \<longrightarrow> ev_user e = ev_user ch \<and> ev_created_at ch \<le> ev_created_at e) \<and>
     count_rows (failed_guess c) (login_events db) \<le> MAX_OTP_ATTEMPTS"

lemma guess_challenge: "guess_inv c ch db \<Longrightarrow> challenge_event c db = Some ch"
  unfolding challenge_event_def by (rule latest_only) (simp add: guess_inv_def is_challenge_def [abs_def])

lemma count_rows_mono: "\<forall>r\<in>set t. p r \<longrightarrow> q r \<Longrightarrow> count_rows p t \<le> count_rows q t"
  by (induction t) auto

lemma guess_counted: "guess_inv c ch db \<Longrightarrow> count_rows (failed_guess c) (login_events db) \<le> otp_attempts ch db"
  unfolding otp_attempts_def by (rule count_rows_mono) (auto simp: guess_inv_def failed_guess_def)

lemma guess_inv_append:
  assumes "guess_inv c ch db" "login_events db' = login_events db @ es"
    and "\<forall>e\<in>set es. \<not> is_challenge c e \<and> \<not> failed_guess c e"
  shows "guess_inv c ch db'"
  using assms by (auto simp: guess_inv_def filter_empty_conv count_rows_zero)

lemma verifyOtp_guesses:
  assumes "guess_inv c ch db" "od_challenge d = c" "ev_created_at ch \<le> now"
  shows "guess_inv c ch (snd (verifyOtp E now fr d db))"
proof -
  obtain u where u: "ev_user ch = Some u" using assms(1) by (auto simp: guess_inv_def)
  have failed: "guess_inv c ch (logLoginEvent now (Some u) ''MFA_FAILED'' [(''challengeId'', c)] db)"
    if "otp_attempts ch db < MAX_OTP_ATTEMPTS"
    using guess_counted [OF assms(1)] assms(1,3) that u
    by (auto simp: guess_inv_def logLoginEvent_def failed_guess_def is_challenge_def)
  have accepted: "guess_inv c ch (snd (accept_otp E now fr u d db))" for u
  proof -
    have "logs (\<lambda>e. \<not> is_challenge c e \<and> \<not> failed_guess c e) db (snd (accept_otp E now fr u d db))"
      by (rule accept_otp_logs) (simp add: is_challenge_def failed_guess_def)
    then show ?thesis using guess_inv_append [OF assms(1)] by (auto simp: logs_def)
  qed
  show ?thesis
    using failed accepted assms(1) u by (auto simp: verifyOtp_def assms(2) guess_challenge [OF assms(1)] split: option.split)
qed

lemma exec_account_guesses:
  assumes "guess_inv c ch db" "ev_created_at ch \<le> fst req" "drawn_challenge req \<noteq> Some c"
  shows "guess_inv c ch (exec_account E req db)"
proof (cases "\<exists>now fr d. req = (now, VerifyOtp fr d) \<and> od_challenge d = c")
  case True
  then show ?thesis using verifyOtp_guesses [OF assms(1)] assms(2) by auto
next
  case False
  have "\<not> is_challenge c e \<and> \<not> failed_guess c e" if "event_ok req e" for e
    using that False assms(3) by (cases "(req, e)" rule: event_ok.cases) (auto simp: is_challenge_def failed_guess_def)
  then show ?thesis using exec_account_logs [of req db E] guess_inv_append [OF assms(1)] by (auto simp: logs_def)
qed

interpretation code_guesses:
  selective_service "exec_account E" "\<lambda>db db'. guess_inv c ch db \<longrightarrow> guess_inv c ch db'"
    "\<lambda>req. ev_created_at ch \<le> fst req \<and> drawn_challenge req \<noteq> Some c" for E c ch
  by unfold_locales (auto intro: exec_account_guesses)

lemma exhausted_challenge:
  assumes "guess_inv (od_challenge d) ch db" "MAX_OTP_ATTEMPTS \<le> count_rows (failed_guess (od_challenge d)) (login_events db)"
  shows "\<exists>e. verifyOtp E now fr d db = (Inl e, db)"
proof -
  have "MAX_OTP_ATTEMPTS \<le> otp_attempts ch db" using guess_counted [OF assms(1)] assms(2) by simp
  then show ?thesis
    by (auto simp: verifyOtp_def guess_challenge [OF assms(1)] split: option.split)
qed

lemma trusted_login_challenge:
  assumes "trusted_login E now fr u enrol role tr db = (Inr (MfaRequired c), db')"
  shows "c = af_challenge fr \<and> (\<exists>ch. login_events db' = login_events db @ [ch] \<and> is_challenge c ch \<and>
    ev_user ch = Some (us_id u) \<and> ev_created_at ch = now)"
proof -
  obtain x where "login_events x = login_events db" "challenge now fr u x = (Inr (MfaRequired c), db')"
  proof (cases "or_null tr")
    case None
    with assms that show thesis by (simp add: trusted_login_def)
  next
    case (Some raw)
    obtain res db1 where k: "consumeTrustedDevice E now fr (us_id u) raw db = (res, db1)" by fastforce
    with assms Some have "challenge now fr u db1 = (Inr (MfaRequired c), db')"
      by (auto simp: trusted_login_def split: sum.splits option.splits)
    with that consume_frames [OF k] show thesis by blast
  qed
  then show ?thesis by (auto simp: challenge_def is_challenge_def)
qed

lemma login_challenge:
  assumes "login E now fr d tr db = (Inr (MfaRequired c), db')"
  shows "c = af_challenge fr \<and> (\<exists>ch. login_events db' = login_events db @ [ch] \<and> is_challenge c ch \<and>
    ev_user ch \<noteq> None \<and> ev_created_at ch = now)"
proof (cases rule: login_cases [of d db E now fr tr])
  case (passed u)
  have fin: "fst (finish_login E now fr u enrol x) \<noteq> Inr (MfaRequired c)" for enrol x
    by (auto simp: finish_login_def Let_def split: sum.split)
  obtain m where m: "first_row (totp_enabled (us_id u)) (mfa_methods db) = Some m"
    using assms passed(5) fin
    by (cases "first_row (totp_enabled (us_id u)) (mfa_methods db)")
      (auto simp: second_factor_def Let_def check_factor_def dest: arg_cong [where f = fst])
  then obtain role where "trusted_login E now fr u False role tr db = (Inr (MfaRequired c), db')"
    using assms passed(5) fin
    by (cases "or_null (ld_mfa d)")
      (auto simp: second_factor_def Let_def check_factor_def split: if_splits dest: arg_cong [where f = fst])
  from trusted_login_challenge [OF this] show ?thesis by auto
qed (use assms in simp_all)

section \<open>Ended sessions\<close>

lemma refresh_retires:
  assumes "distinct (map ss_hash (sessions db))" "s \<in> set (sessions db)" "ss_hash s = hashToken E raw"
    and "auth_refresh E now fr raw db = (Inr tok, db1)"
  shows "retired (hashToken E raw) (ss_family s) db1"
proof (cases rule: auth_refresh_cases [of E now fr raw db])
  case (rotated x u db2)
  have "x = s" using rotated(1,2) assms(2,3) by (intro key_unique [OF assms(1)]) simp_all
  then have ins: "insert_session (new_session E now fr (ss_user s) (coalesce_text (ss_family s) (af_family fr)))
      (revoke_session now s db) = Inr db2" using rotated(8) by simp
  have fresh: "hashToken E (af_refresh fr) \<noteq> hashToken E raw"
  proof
    assume eq: "hashToken E (af_refresh fr) = hashToken E raw"
    have "s\<lparr>ss_revoked_at := Some now\<rparr> \<in> set (sessions (revoke_session now s db))"
      unfolding revoke_session_def using update_rows_hit [OF assms(2), of "\<lambda>r. ss_id r = ss_id s"] by simp
    with ins eq assms(3) show False by (auto simp: insert_session_Inr list_ex_iff new_session_def)
  qed
  have one: "r = s" if "r \<in> set (sessions db)" "ss_hash r = hashToken E raw" for r
    using that assms(2,3) by (intro key_unique [OF assms(1)]) simp_all
  have "retired (hashToken E raw) (ss_family s) db2"
    using ins fresh by (auto simp: insert_session_Inr retired_def revoke_session_def ball_Un ball_update_rows new_session_def dest: one)
  then show ?thesis using rotated(9) assms(4) by (simp add: retired_def)
qed (use assms(4) in simp_all)

lemma retired_spent: "retired h f db \<Longrightarrow> session_spent h db"
  by (auto simp: retired_def session_spent_def session_live_def list_ex_iff)

lemma reuse_revokes_family:
  assumes "retired (hashToken E raw) (Some f) db"
    and "exists_row (\<lambda>s. ss_hash s = hashToken E raw \<and> exists_row (\<lambda>u. us_id u = ss_user s) (users db)) (sessions db)"
  shows "\<not> exists_row (\<lambda>s. ss_family s = Some f \<and> ss_revoked_at s = None) (sessions (snd (auth_refresh E now fr raw db)))"
proof (cases rule: auth_refresh_cases [of E now fr raw db])
  case (unknown e)
  with assms(2) show ?thesis by (auto simp: list_ex_iff)
next
  case (reused s e)
  then have "ss_family s = Some f" using assms(1) by (simp add: retired_def)
  then show ?thesis by (auto simp: reused(4) session_reused_sessions list_ex_iff set_update_rows)
qed (use assms(1) in \<open>auto simp: retired_def\<close>)

interpretation event_log:
  monotone_service "exec_account E" "\<lambda>db db'. set (login_events db) \<subseteq> set (login_events db')" for E
proof
  fix req db
  show "set (login_events db) \<subseteq> set (login_events (exec_account E req db))"
    using exec_account_logs [of req db E] by (auto simp: logs_def)
qed auto

text \<open>A token is read the same way whenever it is still valid.\<close>

definition one_payload :: "auth_env \<Rightarrow> string \<Rightarrow> jwt_payload \<Rightarrow> bool" where
  "one_payload E tok p \<longleftrightarrow> (\<forall>t. a_verify E t tok = None \<or> a_verify E t tok = Some p)"

lemma one_payload_eq: "one_payload E tok p \<Longrightarrow> a_verify E now tok = Some q \<Longrightarrow> q = p"
  unfolding one_payload_def by (metis option.distinct(1) option.inject)

lemma reset_effects:
  assumes "resetPassword E now fr tok pw db = (Inr (), db1)" "one_payload E tok p"
  obtains jti where "jp_jti p = Some jti" "exists_row (reset_done (jp_sub p) jti) (login_events db1)"
    "sessions db1 = update_rows (\<lambda>s. ss_user s = jp_sub p \<and> ss_revoked_at s = None) (\<lambda>s. s\<lparr>ss_revoked_at := Some now\<rparr>) (sessions db)"
    "users db1 = update_rows (\<lambda>r. us_id r = jp_sub p)
       (\<lambda>r. r\<lparr>us_password := a_bcrypt E (af_salt fr) pw, us_updated_at := now\<rparr>) (users db)"
proof (cases rule: resetPassword_cases [of E now fr tok pw db])
  case (completed q jti r)
  have q: "q = p" by (rule one_payload_eq [OF assms(2) completed(1)])
  from completed(7) assms(1) q show thesis
    by (intro that [of jti])
      (use completed(2) q in \<open>auto simp: Let_def revoke_sessions_def set_password_def reset_done_def list_ex_iff\<close>)
qed (use assms(1) in simp)

lemma used_reset_refused:
  assumes "one_payload E tok p" "jp_jti p = Some jti" "exists_row (reset_done (jp_sub p) jti) (login_events db)"
  shows "\<not> ok (fst (resetPassword E now fr tok pw db))"
proof (cases rule: resetPassword_cases [of E now fr tok pw db])
  case (completed q k r)
  have "q = p" by (rule one_payload_eq [OF assms(1) completed(1)])
  with completed assms(2,3) show ?thesis by simp
qed simp

section \<open>An example account\<close>

definition example_account_env :: auth_env where
  "example_account_env =
     \<lparr>a_bcrypt = (\<lambda>salt t. salt @ t), a_compare = (\<lambda>t h. h = ''x'' @ t), a_sha = (\<lambda>t. t), a_otp = (\<lambda>now c s. c = s),
      a_keyuri = (\<lambda>e s. e @ s), a_sign = (\<lambda>p l now. ''jwt''),
      a_verify = (\<lambda>now t. if t = ''reset'' \<and> now < 2000 then Some (reset_claims 1 ''j'') else None), a_uuid = (\<lambda>i. ''id'')\<rparr>"

definition example_draws :: "nat \<Rightarrow> string \<Rightarrow> auth_fresh" where
  "example_draws i t =
     \<lparr>af_user = 100 + i, af_salt = ''x'', af_session = 200 + i, af_family = 300 + i, af_refresh = t, af_challenge = ''c'' @ t,
      af_trusted = ''t'' @ t, af_trusted_id = 400 + i, af_mfa = 500 + i, af_secret = t, af_codes = [], af_jti = t\<rparr>"

definition example_onboarding :: onboarding where
  "example_onboarding = \<lparr>ob_address1 = None, ob_address2 = None, ob_city = None, ob_region = None, ob_postal = None,
     ob_country = None, ob_mobile = None, ob_whatsapp = None, ob_telegram = None, ob_instagram = None, ob_facebook = None,
     ob_broker = None, ob_source = None\<rparr>"

definition example_user :: user_row where
  "example_user = \<lparr>us_id = 1, us_email = ''a'', us_password = ''xpw'', us_name = None, us_status = ''ACTIVE'', us_failed = 0,
     us_locked = None, us_last_login = None, us_deleted = None, us_profile = example_onboarding,
     us_marketing = (False, False, False), us_consent = None, us_created_at = 0, us_updated_at = 0\<rparr>"

definition example_accounts :: "bool \<Rightarrow> auth_db" where
  "example_accounts totp = \<lparr>users = [example_user], sessions =
       [\<lparr>ss_id = 10, ss_user = 1, ss_hash = ''r0'', ss_family = Some 30, ss_expires_at = 9000, ss_revoked_at = None,
         ss_created_at = 0\<rparr>],
     mfa_methods = (if totp then [\<lparr>mf_id = 5, mf_user = 1, mf_type = ''TOTP'', mf_secret = ''123'', mf_codes = None,
       mf_enabled = True, mf_primary = True\<rparr>] else []),
     login_events = [], trusted_devices = [], audit_events = [], client_events = [], memberships = [], roles = [],
     role_permissions = [], permissions = [], referral_codes = [], sponsor_links = [], license_states = [], sent_mails = []\<rparr>"

definition example_login :: "string \<Rightarrow> login_dto" where
  "example_login pw = \<lparr>ld_email = ''a'', ld_password = pw, ld_mfa = None\<rparr>"

definition example_otp :: "string \<Rightarrow> otp_dto" where
  "example_otp code = \<lparr>od_challenge = ''cr1'', od_code = code, od_trust = False\<rparr>"

section \<open>Properties\<close>

text \<open>
  C28. A login opens a session only for an active account that is not locked, on the right password, and, when an
  authenticator is enabled, on a valid code or a remembered device that this login uses up. Every other
  outcome, a challenge included, leaves the sessions as they were.
\<close>

theorem login_second_factor:
  "case login E now fr d tr db of
     (Inr (LoggedIn r), db') \<Rightarrow>
       sessions db' = sessions db @ [new_session E now fr (re_user r) (af_family fr)] \<and>
       (\<exists>u\<in>set (users db). us_id u = re_user r \<and> us_email u = ld_email d \<and> us_status u = ''ACTIVE'' \<and> unlocked now u \<and>
          a_compare E (ld_password d) (us_password u) \<and> factor_shown E now (us_id u) (ld_mfa d) tr db db')
   | (_, db') \<Rightarrow> sessions db' = sessions db"
  by (rule login_evidence)



text \<open>
  C30. A challenge can be guessed at most five times: over any requests that follow the login which drew it, at
  most five wrong codes are recorded for it, and after the fifth it accepts no code at all, the right one
  included.
\<close>

theorem otp_attempts_bounded:
  assumes "login E t0 fr d tr db = (Inr (MfaRequired c), db1)"
    and "\<forall>e\<in>set (login_events db). ev_challenge e \<noteq> Some c"
    and "\<forall>req\<in>set reqs. t0 \<le> fst req \<and> drawn_challenge req \<noteq> Some c"
    and "db2 = run_requests (exec_account E) reqs db1"
  shows "count_rows (failed_guess c) (login_events db2) \<le> 5 \<and>
    (count_rows (failed_guess c) (login_events db2) = 5 \<longrightarrow>
      (\<forall>now fr' dto. od_challenge dto = c \<longrightarrow> (\<exists>e. verifyOtp E now fr' dto db2 = (Inl e, db2))))"
proof -
  obtain ch where ch: "login_events db1 = login_events db @ [ch]" "is_challenge c ch" "ev_user ch \<noteq> None"
    "ev_created_at ch = t0"
    using login_challenge [OF assms(1)] by blast
  have "\<not> failed_guess c ch" using ch(2) by (simp add: is_challenge_def failed_guess_def)
  moreover have "\<forall>e\<in>set (login_events db). \<not> is_challenge c e \<and> \<not> failed_guess c e"
    using assms(2) by (simp add: is_challenge_def failed_guess_def)
  ultimately have "guess_inv c ch db1"
    using ch by (auto simp: guess_inv_def filter_empty_conv count_rows_zero)
  then have inv: "guess_inv c ch db2"
    using code_guesses.run_sel_leq [of reqs ch c] assms(3,4) ch(4) by blast
  show ?thesis
    using inv exhausted_challenge [of _ ch db2] by (auto simp: guess_inv_def MAX_OTP_ATTEMPTS_def)
qed

theorem otp_attempts_bounded_witness:
  "\<exists>e db2. verifyOtp example_account_env 9 (example_draws 3 ''r3'') (example_otp ''123'')
     (run_requests (exec_account example_account_env) (replicate 5 (8, VerifyOtp (example_draws 2 ''r2'') (example_otp ''999'')))
       (snd (login example_account_env 7 (example_draws 1 ''r1'') (example_login ''pw'') None (example_accounts True)))) = (Inl e, db2)"
proof -
  let ?l = "login example_account_env 7 (example_draws 1 ''r1'') (example_login ''pw'') None (example_accounts True)"
  let ?reqs = "replicate 5 (8, VerifyOtp (example_draws 2 ''r2'') (example_otp ''999''))"
  have "case fst ?l of Inr (MfaRequired c) \<Rightarrow> c = ''cr1'' | _ \<Rightarrow> False" by code_simp
  then have l: "?l = (Inr (MfaRequired ''cr1''), snd ?l)"
    by (cases "fst ?l") (auto simp: prod_eq_iff split: login_result.splits)
  have five: "count_rows (failed_guess ''cr1'') (login_events (run_requests (exec_account example_account_env) ?reqs (snd ?l))) = 5"
    by code_simp
  have "\<forall>e\<in>set (login_events (example_accounts True)). ev_challenge e \<noteq> Some ''cr1''" by (simp add: example_accounts_def)
  then have all: "\<forall>now fr' dto. od_challenge dto = ''cr1'' \<longrightarrow>
      (\<exists>e. verifyOtp example_account_env now fr' dto (run_requests (exec_account example_account_env) ?reqs (snd ?l)) =
        (Inl e, run_requests (exec_account example_account_env) ?reqs (snd ?l)))"
    using otp_attempts_bounded [OF l _ _ refl, of ?reqs] five by simp
  have "od_challenge (example_otp ''123'') = ''cr1''" by (simp add: example_otp_def)
  with all show ?thesis by blast
qed

text \<open>
  C31. A refresh token works once: after a refresh with it, no sequence of requests makes it work again. When it
  is presented again, and its session and account are still stored, every session of its family is revoked,
  those that descend from it included.
\<close>

theorem refresh_reuse_detected:
  assumes "distinct (map ss_hash (sessions db))" and "s \<in> set (sessions db)" and "ss_hash s = hashToken E raw"
    and "ss_family s = Some f" and "auth_refresh E t0 fr0 raw db = (Inr tok, db1)"
    and "\<forall>req\<in>set reqs. drawn_session E req \<noteq> Some (hashToken E raw)"
    and "db2 = run_requests (exec_account E) reqs db1"
  shows "\<not> ok (fst (auth_refresh E now fr raw db2)) \<and>
    (exists_row (\<lambda>s. ss_hash s = hashToken E raw \<and> exists_row (\<lambda>u. us_id u = ss_user s) (users db2)) (sessions db2) \<longrightarrow>
     \<not> exists_row (\<lambda>s. ss_family s = Some f \<and> ss_revoked_at s = None) (sessions (snd (auth_refresh E now fr raw db2))))"
proof -
  have "retired (hashToken E raw) (Some f) db2"
    using session_families.run_sel_leq [OF assms(6)] refresh_retires [OF assms(1-3,5)] unfolding assms(4,7) by blast
  then show ?thesis using spent_session_refused [OF retired_spent] reuse_revokes_family by blast
qed

theorem refresh_reuse_detected_witness:
  "\<not> exists_row (\<lambda>s. ss_family s = Some 30 \<and> ss_revoked_at s = None)
     (sessions (snd (auth_refresh example_account_env 9 (example_draws 3 ''r3'') ''r0''
       (run_requests (exec_account example_account_env) [(8, RefreshSession (example_draws 2 ''r2'') ''r1'')]
         (snd (auth_refresh example_account_env 7 (example_draws 1 ''r1'') ''r0'' (example_accounts False)))))))"
proof -
  let ?E = example_account_env
  let ?a = "auth_refresh ?E 7 (example_draws 1 ''r1'') ''r0'' (example_accounts False)"
  let ?reqs = "[(8, RefreshSession (example_draws 2 ''r2'') ''r1'')]"
  let ?db2 = "run_requests (exec_account ?E) ?reqs (snd ?a)"
  let ?s = "hd (sessions (example_accounts False))"
  have "ok (fst ?a)" by code_simp
  then obtain tok where a: "?a = (Inr tok, snd ?a)" unfolding ok_iff by (metis prod.collapse)
  have stored: "exists_row (\<lambda>s. ss_hash s = hashToken ?E ''r0'' \<and> exists_row (\<lambda>u. us_id u = ss_user s) (users ?db2)) (sessions ?db2)"
    by code_simp
  have "distinct (map ss_hash (sessions (example_accounts False)))" "?s \<in> set (sessions (example_accounts False))"
    "ss_hash ?s = hashToken ?E ''r0''" "ss_family ?s = Some 30"
    by (simp_all add: example_accounts_def hashToken_def example_account_env_def)
  moreover have "\<forall>req\<in>set ?reqs. drawn_session ?E req \<noteq> Some (hashToken ?E ''r0'')"
    by (simp add: example_draws_def hashToken_def example_account_env_def)
  ultimately show ?thesis
    using refresh_reuse_detected [OF _ _ _ _ a _ refl] stored by blast
qed

text \<open>
  C32. A reset of the password stores the hash of the new one and ends every session of the account: no refresh
  token from before works again, whatever requests follow, and the link that was used is refused from
  then on.
\<close>

theorem reset_ends_sessions:
  assumes "resetPassword E t0 fr0 link pw db = (Inr (), db1)" and "one_payload E link p"
    and "distinct (map ss_hash (sessions db))" and "s \<in> set (sessions db)" and "ss_user s = jp_sub p"
    and "ss_hash s = hashToken E raw" and "\<forall>req\<in>set reqs. drawn_session E req \<noteq> Some (hashToken E raw)"
    and "db2 = run_requests (exec_account E) reqs db1"
  shows "(\<forall>u\<in>set (users db1). us_id u = jp_sub p \<longrightarrow> us_password u = a_bcrypt E (af_salt fr0) pw) \<and>
    \<not> ok (fst (auth_refresh E now fr raw db2)) \<and> \<not> ok (fst (resetPassword E now fr link pw' db2))"
proof (rule reset_effects [OF assms(1,2)])
  fix jti
  assume jti: "jp_jti p = Some jti" "exists_row (reset_done (jp_sub p) jti) (login_events db1)"
    and ses: "sessions db1 = update_rows (\<lambda>s. ss_user s = jp_sub p \<and> ss_revoked_at s = None)
      (\<lambda>s. s\<lparr>ss_revoked_at := Some t0\<rparr>) (sessions db)"
    and usr: "users db1 = update_rows (\<lambda>r. us_id r = jp_sub p)
      (\<lambda>r. r\<lparr>us_password := a_bcrypt E (af_salt fr0) pw, us_updated_at := t0\<rparr>) (users db)"
  have "r = s" if "r \<in> set (sessions db)" "ss_hash r = hashToken E raw" for r
    using that assms(4,6) by (intro key_unique [OF assms(3)]) simp_all
  then have "session_spent (hashToken E raw) db1"
    using assms(5) by (auto simp: session_spent_def session_live_def ses list_ex_iff set_update_rows)
  then have "session_spent (hashToken E raw) db2"
    using session_rotation.run_sel_leq [OF assms(7)] unfolding assms(8) by blast
  moreover have "exists_row (reset_done (jp_sub p) jti) (login_events db2)"
    using event_log.run_leq [of db1 E reqs] jti(2) unfolding assms(8) by (auto simp: list_ex_iff)
  moreover have "\<forall>u\<in>set (users db1). us_id u = jp_sub p \<longrightarrow> us_password u = a_bcrypt E (af_salt fr0) pw"
    by (simp add: usr ball_update_rows)
  ultimately show ?thesis using spent_session_refused used_reset_refused [OF assms(2) jti(1)] by blast
qed

theorem reset_ends_sessions_witness:
  "\<not> ok (fst (auth_refresh example_account_env 9 (example_draws 3 ''r3'') ''r0''
     (run_requests (exec_account example_account_env) [(8, RefreshSession (example_draws 2 ''r2'') ''r0'')]
       (snd (resetPassword example_account_env 7 (example_draws 1 ''r1'') ''reset'' ''new'' (example_accounts False))))))"
proof -
  let ?E = example_account_env
  let ?a = "resetPassword ?E 7 (example_draws 1 ''r1'') ''reset'' ''new'' (example_accounts False)"
  let ?reqs = "[(8, RefreshSession (example_draws 2 ''r2'') ''r0'')]"
  let ?s = "hd (sessions (example_accounts False))"
  have "ok (fst ?a)" by code_simp
  then have a: "?a = (Inr (), snd ?a)" unfolding ok_iff by (metis prod.collapse old.unit.exhaust)
  have p: "one_payload ?E ''reset'' (reset_claims 1 ''j'')" by (simp add: one_payload_def example_account_env_def)
  have "distinct (map ss_hash (sessions (example_accounts False)))" "?s \<in> set (sessions (example_accounts False))"
    "ss_user ?s = jp_sub (reset_claims 1 ''j'')" "ss_hash ?s = hashToken ?E ''r0''"
    by (simp_all add: example_accounts_def hashToken_def example_account_env_def reset_claims_def)
  moreover have "\<forall>req\<in>set ?reqs. drawn_session ?E req \<noteq> Some (hashToken ?E ''r0'')"
    by (simp add: example_draws_def hashToken_def example_account_env_def)
  ultimately show ?thesis using reset_ends_sessions [OF a p _ _ _ _ _ refl] by blast
qed

end
