(* ===== verification/Controllers.thy ===== *)
theory Controllers
  imports Payouts Guards Accounts
begin

text \<open>
  The endpoints in front of the services: \<^verbatim>\<open>payouts.controller.ts\<close> and \<^verbatim>\<open>commissions.controller.ts\<close> with the roles
  and permissions of each route, and \<^verbatim>\<open>auth.controller.ts\<close> with its cookies and its check of the origin. A
  call reaches a service only through the guards; the theorems relate runs of HTTP calls to runs of
  service requests.
\<close>

section \<open>Commissions and payouts together\<close>

text \<open>
  The commission service and the payout service work on the same ledger and wallets; requests of both
  reach the database in any order.
\<close>

datatype referral_request =
    CommissionReq timed_commission_request
  | PayoutReq "time \<times> payout_request"

fun exec_referral :: "decimal_ops \<Rightarrow> referral_request \<Rightarrow> referral_db \<Rightarrow> referral_db" where
  "exec_referral D (CommissionReq r) db = exec_commission D r db"
| "exec_referral D (PayoutReq r) db = exec_payout D r db"

interpretation referral_conservation: monotone_service "exec_referral D" conserves for D
proof
  show "conserves db (exec_referral D req db)" for req db
    by (cases req) (simp_all add: exec_conserves exec_payout_conserves)
qed (auto intro: conserves_trans)

section \<open>PayoutsController and CommissionsController\<close>

datatype payout_call =
    PayoutList
  | PayoutRequest payout_dto
  | PayoutStats
  | PayoutApprove uuid
  | PayoutReject uuid string
  | PayoutProcess uuid
  | PayoutReconcile uuid "string option" "decimal option" "decimal option"
  | PayoutRetry uuid
  | PayoutCancel uuid string

datatype commission_call =
    CommissionList
  | CommissionSummary
  | CommissionAdminSummary
  | CommissionRules
  | CommissionClear uuid
  | CommissionAvailable uuid
  | CommissionHold uuid string
  | CommissionRelease uuid string
  | CommissionReverse uuid string "decimal option"
  | CommissionAdjust uuid decimal string
  | CommissionClearEligible
  | CommissionUpdateRule uuid "rat option" "bool option" "time option"

datatype referral_call = PayoutCall payout_call | CommissionCall commission_call

datatype referral_reply =
    PayoutRows "payout_row list"
  | RequestedPayout "payout_row \<times> bool"
  | PayoutRow payout_row
  | StatsOf payout_stats
  | CommissionRows "commission_row list"
  | SummaryOf commission_summary
  | RulesOf "commission_rule_row list"
  | CommissionRow commission_row
  | ReversedCommission "commission_row option"
  | Adjusted "uuid \<times> rat"
  | Cleared "nat \<times> nat"
  | Rule commission_rule_row

text \<open>The \<^verbatim>\<open>@Roles\<close> and \<^verbatim>\<open>@RequirePermissions\<close> of the handlers; the classes declare none.\<close>

definition admins :: "Role list option" where "admins = Some [ADMIN, SUPER_ADMIN]"

fun payout_route :: "payout_call \<Rightarrow> Role list option \<times> Permission list option" where
  "payout_route PayoutList = (None, None)"
| "payout_route (PayoutRequest dto) = (None, None)"
| "payout_route PayoutStats = (admins, Some [PAYOUT_APPROVE])"
| "payout_route (PayoutApprove i) = (admins, Some [PAYOUT_APPROVE])"
| "payout_route (PayoutReject i reason) = (admins, Some [PAYOUT_APPROVE])"
| "payout_route (PayoutProcess i) = (admins, Some [PAYOUT_APPROVE])"
| "payout_route (PayoutReconcile i ref net fee) = (admins, Some [PAYOUT_RECONCILE])"
| "payout_route (PayoutRetry i) = (admins, Some [PAYOUT_APPROVE])"
| "payout_route (PayoutCancel i reason) = (admins, Some [PAYOUT_APPROVE])"

fun commission_route :: "commission_call \<Rightarrow> Role list option \<times> Permission list option" where
  "commission_route CommissionList = (None, None)"
| "commission_route CommissionSummary = (None, None)"
| "commission_route CommissionAdminSummary = (admins, None)"
| "commission_route CommissionRules = (admins, None)"
| "commission_route (CommissionClear i) = (admins, Some [COMMISSION_ADJUST])"
| "commission_route (CommissionAvailable i) = (admins, Some [COMMISSION_ADJUST])"
| "commission_route (CommissionHold i reason) = (admins, Some [COMMISSION_ADJUST])"
| "commission_route (CommissionRelease i reason) = (admins, Some [COMMISSION_ADJUST])"
| "commission_route (CommissionReverse i reason amt) = (admins, Some [COMMISSION_REVERSE])"
| "commission_route (CommissionAdjust i amt reason) = (admins, Some [COMMISSION_ADJUST])"
| "commission_route CommissionClearEligible = (admins, Some [COMMISSION_ADJUST])"
| "commission_route (CommissionUpdateRule i rate act til) = (admins, Some [COMMISSION_ADJUST])"

fun referral_route :: "referral_call \<Rightarrow> Role list option \<times> Permission list option" where
  "referral_route (PayoutCall c) = payout_route c"
| "referral_route (CommissionCall c) = commission_route c"

definition replying :: "('a \<Rightarrow> 'b) \<Rightarrow> 'a result \<times> 's \<Rightarrow> 'b result \<times> 's" where
  "replying f = map_prod (map_sum id f) id"

text \<open>\<open>ids\<close> are the identifiers drawn for the call.\<close>

fun payout_handler ::
  "decimal_ops \<Rightarrow> time \<Rightarrow> (nat \<Rightarrow> uuid) \<Rightarrow> uuid \<Rightarrow> payout_call \<Rightarrow> (referral_db, referral_reply) handler" where
  "payout_handler D now ids u PayoutList db = (Inr (PayoutRows (findPayoutsByUser u db)), db)"
| "payout_handler D now ids u (PayoutRequest dto) db = replying RequestedPayout (requestPayout D now (ids 0) u dto db)"
| "payout_handler D now ids u PayoutStats db = (Inr (StatsOf (getStats db)), db)"
| "payout_handler D now ids u (PayoutApprove i) db = replying PayoutRow (approvePayout now i (Some u) db)"
| "payout_handler D now ids u (PayoutReject i reason) db = replying PayoutRow (rejectPayout now i reason db)"
| "payout_handler D now ids u (PayoutProcess i) db = replying PayoutRow (processPayout now i db)"
| "payout_handler D now ids u (PayoutReconcile i ref net fee) db =
     replying PayoutRow (reconcilePayout D now i ref net fee db)"
| "payout_handler D now ids u (PayoutRetry i) db = replying PayoutRow (retryPayout i db)"
| "payout_handler D now ids u (PayoutCancel i reason) db = replying PayoutRow (cancelPayout now i reason db)"

fun commission_handler ::
  "decimal_ops \<Rightarrow> time \<Rightarrow> uuid \<Rightarrow> commission_call \<Rightarrow> (referral_db, referral_reply) handler" where
  "commission_handler D now u CommissionList db = (Inr (CommissionRows (findByRecipient u db)), db)"
| "commission_handler D now u CommissionSummary db = (Inr (SummaryOf (getSummary u db)), db)"
| "commission_handler D now u CommissionAdminSummary db = (Inr (SummaryOf (getGlobalSummary db)), db)"
| "commission_handler D now u CommissionRules db = (Inr (RulesOf (listRules db)), db)"
| "commission_handler D now u (CommissionClear i) db =
     replying CommissionRow (transitionCommission now i CLEARED (Some u) None db)"
| "commission_handler D now u (CommissionAvailable i) db =
     replying CommissionRow (transitionCommission now i AVAILABLE (Some u) None db)"
| "commission_handler D now u (CommissionHold i reason) db = replying CommissionRow (holdCommission now i reason u db)"
| "commission_handler D now u (CommissionRelease i reason) db = replying CommissionRow (releaseCommission now i u db)"
| "commission_handler D now u (CommissionReverse i reason amt) db =
     replying ReversedCommission (reverseCommission now i reason u amt db)"
| "commission_handler D now u (CommissionAdjust i amt reason) db =
     replying Adjusted (adjustCommission D now i amt reason u db)"
| "commission_handler D now u CommissionClearEligible db = replying Cleared (clearEligible D now db)"
| "commission_handler D now u (CommissionUpdateRule i rate act til) db = replying Rule (updateRule i rate act til db)"

fun referral_handler ::
  "decimal_ops \<Rightarrow> time \<Rightarrow> (nat \<Rightarrow> uuid) \<Rightarrow> uuid \<Rightarrow> referral_call \<Rightarrow> (referral_db, referral_reply) handler" where
  "referral_handler D now ids u (PayoutCall c) db = payout_handler D now ids u c db"
| "referral_handler D now ids u (CommissionCall c) db = commission_handler D now u c db"

definition referral_endpoint ::
  "auth_env \<Rightarrow> guard_config \<Rightarrow> pool \<Rightarrow> decimal_ops \<Rightarrow> time \<Rightarrow> (nat \<Rightarrow> uuid) \<Rightarrow> http_request \<Rightarrow> referral_call \<Rightarrow>
   (referral_db, referral_reply) handler" where
  "referral_endpoint E c P D now ids req call db =
     (case roles_gate E c P now (fst (referral_route call)) None (snd (referral_route call)) req of
        Inl e \<Rightarrow> (Inl e, db)
      | Inr p \<Rightarrow> referral_handler D now ids (jp_sub p) call db)"

text \<open>A call with its time, its fresh identifiers and the accounts as they are then.\<close>

record referral_http =
  rh_now :: time
  rh_ids :: "nat \<Rightarrow> uuid"
  rh_pool :: pool
  rh_request :: http_request
  rh_call :: referral_call

definition exec_referral_http :: "auth_env \<Rightarrow> guard_config \<Rightarrow> decimal_ops \<Rightarrow> referral_http \<Rightarrow> referral_db \<Rightarrow> referral_db" where
  "exec_referral_http E c D h db =
     snd (referral_endpoint E c (rh_pool h) D (rh_now h) (rh_ids h) (rh_request h) (rh_call h) db)"

section \<open>The service request of a call\<close>

fun request_of :: "time \<Rightarrow> (nat \<Rightarrow> uuid) \<Rightarrow> uuid \<Rightarrow> referral_call \<Rightarrow> referral_request option" where
  "request_of now ids u (PayoutCall (PayoutRequest dto)) = Some (PayoutReq (now, RequestPayout (ids 0) u dto))"
| "request_of now ids u (PayoutCall (PayoutApprove i)) = Some (PayoutReq (now, ApprovePayout i (Some u)))"
| "request_of now ids u (PayoutCall (PayoutReject i reason)) = Some (PayoutReq (now, RejectPayout i reason))"
| "request_of now ids u (PayoutCall (PayoutProcess i)) = Some (PayoutReq (now, ProcessPayout i))"
| "request_of now ids u (PayoutCall (PayoutReconcile i ref net fee)) = Some (PayoutReq (now, ReconcilePayout i ref net fee))"
| "request_of now ids u (PayoutCall (PayoutRetry i)) = Some (PayoutReq (now, RetryPayout i))"
| "request_of now ids u (PayoutCall (PayoutCancel i reason)) = Some (PayoutReq (now, CancelPayout i reason))"
| "request_of now ids u (CommissionCall (CommissionClear i)) = Some (CommissionReq (now, ids, Transition i CLEARED u None))"
| "request_of now ids u (CommissionCall (CommissionAvailable i)) = Some (CommissionReq (now, ids, Transition i AVAILABLE u None))"
| "request_of now ids u (CommissionCall (CommissionHold i reason)) = Some (CommissionReq (now, ids, Hold i reason u))"
| "request_of now ids u (CommissionCall (CommissionRelease i reason)) = Some (CommissionReq (now, ids, Release i u))"
| "request_of now ids u (CommissionCall (CommissionReverse i reason amt)) = Some (CommissionReq (now, ids, Reverse i reason u amt))"
| "request_of now ids u (CommissionCall (CommissionAdjust i amt reason)) = Some (CommissionReq (now, ids, Adjust i amt reason u))"
| "request_of now ids u (CommissionCall CommissionClearEligible) = Some (CommissionReq (now, ids, Clear))"
| "request_of now ids u (CommissionCall (CommissionUpdateRule i rate act til)) = Some (CommissionReq (now, ids, UpdateRule i rate act til))"
| "request_of now ids u _ = None"

definition caller :: "auth_env \<Rightarrow> guard_config \<Rightarrow> referral_http \<Rightarrow> jwt_payload option" where
  "caller E c h =
     (case roles_gate E c (rh_pool h) (rh_now h) (fst (referral_route (rh_call h))) None (snd (referral_route (rh_call h)))
        (rh_request h) of
        Inl _ \<Rightarrow> None | Inr p \<Rightarrow> Some p)"

definition admitted :: "auth_env \<Rightarrow> guard_config \<Rightarrow> referral_http \<Rightarrow> referral_request option" where
  "admitted E c h = Option.bind (caller E c h) (\<lambda>p. request_of (rh_now h) (rh_ids h) (jp_sub p) (rh_call h))"

lemma snd_replying [simp]: "snd (replying f x) = snd x"
  by (simp add: replying_def)

lemma referral_handler_exec:
  "snd (referral_handler D now ids u call db) =
   (case request_of now ids u call of None \<Rightarrow> db | Some r \<Rightarrow> exec_referral D r db)"
proof (cases call)
  case (PayoutCall c)
  then show ?thesis by (cases c) simp_all
next
  case (CommissionCall c)
  then show ?thesis by (cases c) simp_all
qed

lemma exec_http_admitted:
  "exec_referral_http E c D h db = (case admitted E c h of None \<Rightarrow> db | Some r \<Rightarrow> exec_referral D r db)"
  by (auto simp: exec_referral_http_def referral_endpoint_def admitted_def caller_def referral_handler_exec split: sum.split)

lemma run_http_admitted:
  "run_requests (exec_referral_http E c D) hs db = run_requests (exec_referral D) (List.map_filter (admitted E c) hs) db"
  by (induction hs arbitrary: db) (simp_all add: exec_http_admitted List.map_filter_simps split: option.split)

text \<open>Every route that changes the ledger, other than a user's own payout request, is for administrators with a permission.\<close>

lemma changing_routes:
  assumes "request_of now ids u call = Some r"
  shows "(\<exists>dto. call = PayoutCall (PayoutRequest dto) \<and> r = PayoutReq (now, RequestPayout (ids 0) u dto)) \<or>
    (fst (referral_route call) = admins \<and> (\<exists>x. snd (referral_route call) = Some [x]))"
proof (cases call)
  case (PayoutCall c)
  then show ?thesis using assms by (cases c) auto
next
  case (CommissionCall c)
  then show ?thesis using assms by (cases c) auto
qed

definition holds_permission :: "jwt_payload \<Rightarrow> Permission \<Rightarrow> bool" where
  "holds_permission p x \<longleftrightarrow> (\<exists>u\<in>set (coalesce_text (jp_permissions p) []). js_lower u = js_lower (permission_text x))"

lemma caller_token:
  assumes "caller E c h = Some p"
  shows "\<exists>tok. request_token c (rh_request h) = Some tok \<and> a_verify E (rh_now h) tok = Some p"
  using assms jwt_canActivate_Inr by (fastforce simp: caller_def roles_gate_Inr split: sum.splits)

lemma caller_admin:
  assumes "caller E c h = Some p" "fst (referral_route (rh_call h)) = admins" "snd (referral_route (rh_call h)) = Some [x]"
  shows "active_admin (rh_pool h) p \<and> holds_permission p x"
proof -
  have g: "roles_gate E c (rh_pool h) (rh_now h) admins None (Some [x]) (rh_request h) = Inr p"
    using assms by (simp add: caller_def split: sum.splits)
  have "getAllAndOverride admins None = [ADMIN, SUPER_ADMIN]" by (simp add: getAllAndOverride_def admins_def)
  then have "active_admin (rh_pool h) p" using g jwt_active_admin roles_canActivate_admins by (auto simp: roles_gate_Inr)
  moreover have "missing_permissions [x] (coalesce_text (jp_permissions p) []) = []"
    using g by (simp add: roles_gate_Inr permission_canActivate_Inr coalesce_text_def)
  ultimately show ?thesis using missing_permissions_Nil [of "[x]"] by (simp add: holds_permission_def)
qed

definition authorised :: "auth_env \<Rightarrow> guard_config \<Rightarrow> referral_http \<Rightarrow> referral_request \<Rightarrow> bool" where
  "authorised E c h r \<longleftrightarrow> (\<exists>p tok. request_token c (rh_request h) = Some tok \<and> a_verify E (rh_now h) tok = Some p \<and>
     ((\<exists>i dto. r = PayoutReq (rh_now h, RequestPayout i (jp_sub p) dto)) \<or>
      (active_admin (rh_pool h) p \<and> (\<exists>x. snd (referral_route (rh_call h)) = Some [x] \<and> holds_permission p x))))"

lemma admitted_authorised:
  assumes "admitted E c h = Some r"
  shows "authorised E c h r"
proof -
  obtain p where p: "caller E c h = Some p" "request_of (rh_now h) (rh_ids h) (jp_sub p) (rh_call h) = Some r"
    using assms by (auto simp: admitted_def bind_eq_Some_conv)
  from changing_routes [OF p(2)] caller_admin [OF p(1)] caller_token [OF p(1)] show ?thesis
    unfolding authorised_def by blast
qed

section \<open>AuthController\<close>

record http_config =
  hc_guard :: guard_config
  hc_cookies :: cookie_config
  hc_domain :: "string option"
  hc_cors :: "string option"

datatype cookie_op = SetCookie cookie_options | ClearCookie string string "string option"

type_synonym 'a answer = "'a result \<times> cookie_op list \<times> auth_db"

definition setRefreshCookie :: "http_config \<Rightarrow> string \<Rightarrow> cookie_op" where
  "setRefreshCookie c tok = SetCookie ((getRefreshCookieOptions (hc_cookies c))\<lparr>co_value := tok\<rparr>)"

definition clearRefreshCookie :: "http_config \<Rightarrow> cookie_op" where
  "clearRefreshCookie c = (case getClearCookieOptions (hc_cookies c) of (name, path, domain) \<Rightarrow> ClearCookie name path domain)"

definition setAccessTokenCookie :: "http_config \<Rightarrow> string \<Rightarrow> cookie_op" where
  "setAccessTokenCookie c tok = SetCookie
     \<lparr>co_name = access_cookie_name (hc_guard c), co_value = tok, co_http_only = True,
      co_secure = (cc_node_env (hc_cookies c) = Some ''production''), co_same_site = ''lax'', co_path = ''/'',
      co_max_age = 60 * 60 * 1000, co_domain = or_null (hc_domain c)\<rparr>"

definition clearAccessTokenCookie :: "http_config \<Rightarrow> cookie_op" where
  "clearAccessTokenCookie c = ClearCookie (access_cookie_name (hc_guard c)) ''/'' (or_null (hc_domain c))"

definition trusted_cookies :: "http_config \<Rightarrow> string option \<Rightarrow> cookie_op list" where
  "trusted_cookies c t =
     (case or_null t of Some tok \<Rightarrow> [SetCookie (getTrustedCookieOptions (hc_cookies c) tok)] | None \<Rightarrow> [])"

text \<open>\<open>url_origin\<close> is \<^verbatim>\<open>new URL(referer).origin\<close>, which throws on a text that is not a URL.\<close>

definition validateOrigin :: "(string \<Rightarrow> string option) \<Rightarrow> http_config \<Rightarrow> http_request \<Rightarrow> bool" where
  "validateOrigin url_origin c req =
     (let allowed = map (\<lambda>s. js_lower (js_trim s))
            (js_split CHR '','' (or_string (hc_cors c) ''http://localhost:3000,http://localhost:4600''));
          origin = js_lower (or_string (hr_origin req) []);
          referer = js_lower (or_string (hr_referer req) []) in
      if origin \<noteq> [] then origin \<in> set allowed
      else if referer \<noteq> [] then (case url_origin referer of None \<Rightarrow> False | Some r \<Rightarrow> js_lower r \<in> set allowed)
      else True)"

definition refresh_cookie :: "http_config \<Rightarrow> http_request \<Rightarrow> string option" where
  "refresh_cookie c req = map_of (hr_cookies req) (coalesce_text (cc_name (hc_cookies c)) ''pat_refresh_token'')"

definition ac_register :: "auth_env \<Rightarrow> http_config \<Rightarrow> time \<Rightarrow> auth_fresh \<Rightarrow> register_dto \<Rightarrow> auth_db \<Rightarrow> auth_response answer" where
  "ac_register E c now fr d db =
     (case register E now fr d db of
        (Inl e, db1) \<Rightarrow> (Inl e, [], db1)
      | (Inr r, db1) \<Rightarrow> (Inr r, [setRefreshCookie c (re_refresh r)], db1))"

definition ac_login ::
  "auth_env \<Rightarrow> http_config \<Rightarrow> time \<Rightarrow> auth_fresh \<Rightarrow> http_request \<Rightarrow> login_dto \<Rightarrow> auth_db \<Rightarrow> login_result answer" where
  "ac_login E c now fr req d db =
     (case login E now fr d (map_of (hr_cookies req) (co_name (getTrustedCookieOptions (hc_cookies c) []))) db of
        (Inl e, db1) \<Rightarrow> (Inl e, [], db1)
      | (Inr (MfaRequired ch), db1) \<Rightarrow> (Inr (MfaRequired ch), [], db1)
      | (Inr (LoggedIn r), db1) \<Rightarrow>
          (Inr (LoggedIn r), [setRefreshCookie c (re_refresh r), setAccessTokenCookie c (re_access r)] @
             trusted_cookies c (re_trusted r), db1))"

definition ac_verifyOtp :: "auth_env \<Rightarrow> http_config \<Rightarrow> time \<Rightarrow> auth_fresh \<Rightarrow> otp_dto \<Rightarrow> auth_db \<Rightarrow> otp_response answer" where
  "ac_verifyOtp E c now fr d db =
     (case verifyOtp E now fr d db of
        (Inl e, db1) \<Rightarrow> (Inl e, [], db1)
      | (Inr o1, db1) \<Rightarrow>
          (let r = ot_auth o1 in
           (Inr o1, [setRefreshCookie c (re_refresh r), setAccessTokenCookie c (re_access r)] @
              trusted_cookies c (re_trusted r), db1)))"

definition ac_refresh ::
  "auth_env \<Rightarrow> (string \<Rightarrow> string option) \<Rightarrow> http_config \<Rightarrow> time \<Rightarrow> auth_fresh \<Rightarrow> http_request \<Rightarrow> auth_db \<Rightarrow> string answer" where
  "ac_refresh E url_origin c now fr req db =
     (if \<not> validateOrigin url_origin c req then (Inl (BadRequest ''Invalid request origin''), [], db)
      else
        (case or_null (refresh_cookie c req) of
           None \<Rightarrow> (Inl (BadRequest ''No refresh token''), [], db)
         | Some raw \<Rightarrow>
             (case auth_refresh E now fr raw db of
                (Inl e, db1) \<Rightarrow> (Inl e, [clearRefreshCookie c], db1)
              | (Inr (acc, ref), db1) \<Rightarrow> (Inr acc, [setRefreshCookie c ref, setAccessTokenCookie c acc], db1))))"

text \<open>The route has no guard, so there is no user in the request.\<close>

definition ac_logout ::
  "auth_env \<Rightarrow> (string \<Rightarrow> string option) \<Rightarrow> http_config \<Rightarrow> time \<Rightarrow> http_request \<Rightarrow> auth_db \<Rightarrow> unit answer" where
  "ac_logout E url_origin c now req db =
     (if \<not> validateOrigin url_origin c req then (Inl (BadRequest ''Invalid request origin''), [], db)
      else (Inr (), [clearRefreshCookie c, clearAccessTokenCookie c], auth_logout E now None (refresh_cookie c req) db))"

definition ac_forgotPassword ::
  "auth_env \<Rightarrow> time \<Rightarrow> auth_fresh \<Rightarrow> bool \<Rightarrow> string \<Rightarrow> auth_db \<Rightarrow> string answer" where
  "ac_forgotPassword E now fr mail email db = (case forgotPassword E now fr mail email db of (m, db1) \<Rightarrow> (Inr m, [], db1))"

definition ac_resetPassword ::
  "auth_env \<Rightarrow> http_config \<Rightarrow> time \<Rightarrow> auth_fresh \<Rightarrow> string \<Rightarrow> string \<Rightarrow> auth_db \<Rightarrow> unit answer" where
  "ac_resetPassword E c now fr tok pw db =
     (case resetPassword E now fr tok pw db of
        (Inl e, db1) \<Rightarrow> (Inl e, [], db1)
      | (Inr _, db1) \<Rightarrow> (Inr (), [clearRefreshCookie c, clearAccessTokenCookie c], db1))"

text \<open>The routes behind the token guard: the handler runs for the subject of the token.\<close>

definition with_user ::
  "auth_env \<Rightarrow> http_config \<Rightarrow> time \<Rightarrow> http_request \<Rightarrow> (uuid \<Rightarrow> (auth_db, 'a) handler) \<Rightarrow> auth_db \<Rightarrow> 'a answer" where
  "with_user E c now req h db =
     (case jwt_canActivate E (hc_guard c) (Pool db) now req of
        Inl e \<Rightarrow> (Inl e, [], db)
      | Inr p \<Rightarrow> (case h (jp_sub p) db of (res, db1) \<Rightarrow> (res, [], db1)))"

definition ac_me :: "auth_env \<Rightarrow> http_config \<Rightarrow> time \<Rightarrow> http_request \<Rightarrow> auth_db \<Rightarrow> profile answer" where
  "ac_me E c now req = with_user E c now req (\<lambda>u db. (getProfile u db, db))"

definition ac_changePassword ::
  "auth_env \<Rightarrow> http_config \<Rightarrow> time \<Rightarrow> auth_fresh \<Rightarrow> http_request \<Rightarrow> string option \<Rightarrow> string option \<Rightarrow> auth_db \<Rightarrow> unit answer" where
  "ac_changePassword E c now fr req cur new = with_user E c now req (\<lambda>u. changePassword E now fr u cur new)"

definition ac_setupMfa ::
  "auth_env \<Rightarrow> http_config \<Rightarrow> time \<Rightarrow> auth_fresh \<Rightarrow> http_request \<Rightarrow> auth_db \<Rightarrow> (string \<times> string \<times> string list) answer" where
  "ac_setupMfa E c now fr req = with_user E c now req (setupMfa E fr)"

definition ac_verifyMfa :: "auth_env \<Rightarrow> http_config \<Rightarrow> time \<Rightarrow> http_request \<Rightarrow> string \<Rightarrow> auth_db \<Rightarrow> string list answer" where
  "ac_verifyMfa E c now req code = with_user E c now req (\<lambda>u. verifyMfa E now u code)"

definition ac_disableMfa :: "auth_env \<Rightarrow> http_config \<Rightarrow> time \<Rightarrow> http_request \<Rightarrow> string \<Rightarrow> auth_db \<Rightarrow> unit answer" where
  "ac_disableMfa E c now req code = with_user E c now req (\<lambda>u. disableMfa E now u code)"

datatype auth_call =
    PostRegister auth_fresh register_dto
  | PostLogin auth_fresh login_dto
  | PostVerifyOtp auth_fresh otp_dto
  | PostRefresh auth_fresh
  | GetMe
  | PostChangePassword auth_fresh "string option" "string option"
  | PostLogout
  | PostMfaSetup auth_fresh
  | PostMfaVerify string
  | PostMfaDisable string
  | PostForgot auth_fresh bool string
  | PostReset auth_fresh string string

text \<open>The cookies of the answer and the accounts after the call.\<close>

fun exec_auth_http ::
  "auth_env \<Rightarrow> (string \<Rightarrow> string option) \<Rightarrow> http_config \<Rightarrow> time \<Rightarrow> http_request \<Rightarrow> auth_call \<Rightarrow> auth_db \<Rightarrow> cookie_op list \<times> auth_db" where
  "exec_auth_http E url c now req (PostRegister fr d) db = snd (ac_register E c now fr d db)"
| "exec_auth_http E url c now req (PostLogin fr d) db = snd (ac_login E c now fr req d db)"
| "exec_auth_http E url c now req (PostVerifyOtp fr d) db = snd (ac_verifyOtp E c now fr d db)"
| "exec_auth_http E url c now req (PostRefresh fr) db = snd (ac_refresh E url c now fr req db)"
| "exec_auth_http E url c now req GetMe db = snd (ac_me E c now req db)"
| "exec_auth_http E url c now req (PostChangePassword fr cur new) db = snd (ac_changePassword E c now fr req cur new db)"
| "exec_auth_http E url c now req PostLogout db = snd (ac_logout E url c now req db)"
| "exec_auth_http E url c now req (PostMfaSetup fr) db = snd (ac_setupMfa E c now fr req db)"
| "exec_auth_http E url c now req (PostMfaVerify code) db = snd (ac_verifyMfa E c now req code db)"
| "exec_auth_http E url c now req (PostMfaDisable code) db = snd (ac_disableMfa E c now req code db)"
| "exec_auth_http E url c now req (PostForgot fr mail email) db = snd (ac_forgotPassword E now fr mail email db)"
| "exec_auth_http E url c now req (PostReset fr tok pw) db = snd (ac_resetPassword E c now fr tok pw db)"

section \<open>Accounts behind their endpoints\<close>

text \<open>The user whose account a request of the service acts on without further evidence.\<close>

fun acts_as :: "account_request \<Rightarrow> uuid option" where
  "acts_as (ChangePassword fr u cur new) = Some u"
| "acts_as (SetupMfa fr u) = Some u"
| "acts_as (VerifyMfa u code) = Some u"
| "acts_as (DisableMfa u code) = Some u"
| "acts_as (Logout u raw) = u"
| "acts_as _ = None"

text \<open>The subject of the access token that the guard accepts.\<close>

definition token_user :: "auth_env \<Rightarrow> http_config \<Rightarrow> time \<Rightarrow> http_request \<Rightarrow> auth_db \<Rightarrow> uuid option" where
  "token_user E c now req db =
     (case jwt_canActivate E (hc_guard c) (Pool db) now req of Inl _ \<Rightarrow> None | Inr p \<Rightarrow> Some (jp_sub p))"

definition account_step :: "auth_env \<Rightarrow> http_config \<Rightarrow> time \<Rightarrow> http_request \<Rightarrow> auth_db \<Rightarrow> auth_db \<Rightarrow> bool" where
  "account_step E c now req db db' \<longleftrightarrow> db' = db \<or>
     (\<exists>r. db' = exec_account E (now, r) db \<and> acts_as r \<in> {None, token_user E c now req db})"

lemma account_stepI:
  "db' = exec_account E (now, r) db \<Longrightarrow> acts_as r = None \<or> acts_as r = token_user E c now req db \<Longrightarrow>
   account_step E c now req db db'"
  by (auto simp: account_step_def)

lemma with_user_step:
  assumes "\<And>u. snd (h u db) = exec_account E (now, r u) db" "\<And>u. acts_as (r u) = Some u"
  shows "account_step E c now req db (snd (snd (with_user E c now req h db)))"
proof (cases "jwt_canActivate E (hc_guard c) (Pool db) now req")
  case (Inl e)
  then show ?thesis by (simp add: with_user_def account_step_def)
next
  case (Inr p)
  then have "snd (snd (with_user E c now req h db)) = exec_account E (now, r (jp_sub p)) db"
    using assms(1) [of "jp_sub p"] by (simp add: with_user_def split: prod.split) (metis snd_conv)
  then show ?thesis by (rule account_stepI) (simp add: assms(2) token_user_def Inr)
qed

lemma ac_service_state:
  "snd (snd (ac_register E c now fr d db)) = snd (register E now fr d db)"
  "snd (snd (ac_login E c now fr req dl db)) =
     snd (login E now fr dl (map_of (hr_cookies req) (co_name (getTrustedCookieOptions (hc_cookies c) []))) db)"
  "snd (snd (ac_verifyOtp E c now fr dv db)) = snd (verifyOtp E now fr dv db)"
  "snd (snd (ac_forgotPassword E now fr mail email db)) = snd (forgotPassword E now fr mail email db)"
  "snd (snd (ac_resetPassword E c now fr tok pw db)) = snd (resetPassword E now fr tok pw db)"
  by (auto simp: ac_register_def ac_login_def ac_verifyOtp_def ac_forgotPassword_def ac_resetPassword_def Let_def
      split: prod.split sum.split login_result.split)

lemma ac_refresh_state:
  "snd (snd (ac_refresh E url c now fr req db)) =
   (case (validateOrigin url c req, or_null (refresh_cookie c req)) of
      (True, Some raw) \<Rightarrow> snd (auth_refresh E now fr raw db) | _ \<Rightarrow> db)"
  by (auto simp: ac_refresh_def split: option.split prod.split sum.split)

lemma exec_auth_http_step: "account_step E c now req db (snd (exec_auth_http E url c now req call db))"
proof (cases call)
  case (PostRefresh fr)
  then show ?thesis
    by (auto simp: ac_refresh_state account_step_def split: option.split bool.split
        intro!: exI [of _ "RefreshSession fr (the (or_null (refresh_cookie c req)))"])
next
  case PostLogout
  then show ?thesis
    by (auto simp: ac_logout_def account_step_def intro!: exI [of _ "Logout None (refresh_cookie c req)"])
next
  case GetMe
  then show ?thesis by (simp add: ac_me_def with_user_def account_step_def split: sum.split)
next
  case (PostChangePassword fr cur new)
  then show ?thesis by (auto simp: ac_changePassword_def intro!: with_user_step [where r = "\<lambda>u. ChangePassword fr u cur new"])
next
  case (PostMfaSetup fr)
  then show ?thesis by (auto simp: ac_setupMfa_def intro!: with_user_step [where r = "\<lambda>u. SetupMfa fr u"])
next
  case (PostMfaVerify code)
  then show ?thesis by (auto simp: ac_verifyMfa_def intro!: with_user_step [where r = "\<lambda>u. VerifyMfa u code"])
next
  case (PostMfaDisable code)
  then show ?thesis by (auto simp: ac_disableMfa_def intro!: with_user_step [where r = "\<lambda>u. DisableMfa u code"])
next
  case (PostRegister fr d)
  then show ?thesis by (intro account_stepI [of _ _ _ "Register fr d"]) (simp_all add: ac_service_state)
next
  case (PostLogin fr d)
  then show ?thesis
    by (intro account_stepI [of _ _ _ "Login fr d (map_of (hr_cookies req) (co_name (getTrustedCookieOptions (hc_cookies c) [])))"])
      (simp_all add: ac_service_state)
next
  case (PostVerifyOtp fr d)
  then show ?thesis by (intro account_stepI [of _ _ _ "VerifyOtp fr d"]) (simp_all add: ac_service_state)
next
  case (PostForgot fr mail email)
  then show ?thesis by (intro account_stepI [of _ _ _ "ForgotPassword fr mail email"]) (simp_all add: ac_service_state)
next
  case (PostReset fr tok pw)
  then show ?thesis by (intro account_stepI [of _ _ _ "ResetPassword fr tok pw"]) (simp_all add: ac_service_state)
qed

text \<open>A refresh cookie carries the token of a session that this call has opened.\<close>

definition opened :: "auth_env \<Rightarrow> time \<Rightarrow> string \<Rightarrow> auth_db \<Rightarrow> auth_db \<Rightarrow> bool" where
  "opened E now tok db db' \<longleftrightarrow> (\<exists>s\<in>set (sessions db'). ss_hash s = hashToken E tok \<and> ss_revoked_at s = None \<and>
     ss_created_at s = now \<and> ss_expires_at s = now + days 7 \<and> \<not> exists_row (\<lambda>r. ss_hash r = hashToken E tok) (sessions db))"

lemma insert_session_opened:
  assumes "insert_session (new_session E now fr u f) x = Inr db1" "sessions db' = sessions db1" "ss_hash ` set (sessions x) = ss_hash ` set (sessions db)"
  shows "opened E now (af_refresh fr) db db'"
proof -
  have "\<forall>r\<in>set (sessions x). ss_hash r \<noteq> hashToken E (af_refresh fr)"
    using assms(1) by (auto simp: insert_session_Inr list_ex_iff new_session_def)
  then have "hashToken E (af_refresh fr) \<notin> ss_hash ` set (sessions db)" unfolding assms(3) [symmetric] by auto
  then have "\<forall>r\<in>set (sessions db). ss_hash r \<noteq> hashToken E (af_refresh fr)" by (metis imageI)
  moreover have "new_session E now fr u f \<in> set (sessions db')" using assms(1,2) by (simp add: insert_session_Inr)
  ultimately show ?thesis
    unfolding opened_def by (intro bexI [of _ "new_session E now fr u f"])
      (auto simp: new_session_def REFRESH_TOKEN_EXPIRY_DAYS_def list_ex_iff)
qed

lemma createSession_opened:
  assumes "createSession E now fr u em x = Inr (tok, db1)" "sessions db' = sessions db1" "sessions x = sessions db"
  shows "snd tok = af_refresh fr \<and> opened E now (af_refresh fr) db db'"
  using assms insert_session_opened [of E now fr u "af_family fr" x db1 db' db]
  by (auto simp: createSession_Inr generateTokens_def)

lemma register_opened:
  assumes "register E now fr d db = (Inr r, db')"
  shows "opened E now (re_refresh r) db db'"
proof -
  let ?db1 = "log_audit now ''system'' (af_user fr) ''iam.user.registered_pending_approval'' ''Awaiting admin approval''
      [(''status'', ''PENDING'')] (db\<lparr>users := users db @ [new_user E now fr d]\<rparr>)"
  obtain db2 where a: "attribute_referral d (af_user fr) ?db1 = Inr db2"
    using assms by (auto simp: register_def Let_def split: option.splits if_splits sum.splits)
  let ?db3 = "record_consents now d (af_user fr) (insert_referral_code E (af_user fr) db2)"
  obtain tok where "createSession E now fr (af_user fr) (rd_email d) ?db3 = Inr (tok, db')" "re_refresh r = snd tok"
    using assms a by (auto simp: register_def Let_def split: option.splits if_splits sum.splits)
  moreover have "sessions ?db3 = sessions db" using attribute_frames [OF a] by simp
  ultimately show ?thesis using createSession_opened [OF _ refl] by metis
qed

lemma finish_login_opened:
  assumes "finish_login E now fr u enrol x = (Inr (LoggedIn r), db')" "sessions x = sessions db"
  shows "opened E now (re_refresh r) db db'"
proof -
  let ?y = "logLoginEvent now (Some (us_id u)) ''LOGIN_SUCCESS'' [] (record_login now (us_id u) x)"
  obtain tok where "createSession E now fr (us_id u) (us_email u) ?y = Inr (tok, db')" "re_refresh r = snd tok"
    using assms(1) by (auto simp: finish_login_def Let_def login_response_def split: sum.splits)
  then show ?thesis using createSession_opened [OF _ refl, of E now fr "us_id u" "us_email u" ?y tok db' db] assms(2) by simp
qed

lemma trusted_login_opened:
  assumes "trusted_login E now fr u enrol role tr db = (Inr (LoggedIn r), db')"
  shows "opened E now (re_refresh r) db db'"
proof -
  obtain raw where raw: "or_null tr = Some raw"
    using assms by (auto simp: trusted_login_def challenge_def split: option.splits)
  obtain raw' db1 where k: "consumeTrustedDevice E now fr (us_id u) raw db = (Inr (Some raw'), db1)"
    using assms raw by (auto simp: trusted_login_def challenge_def split: sum.splits option.splits prod.splits)
  obtain tok db2 where "createSession E now fr (us_id u) (us_email u) db1 = Inr (tok, db2)" "re_refresh r = snd tok"
    "sessions db' = sessions db2"
    using assms raw k by (auto simp: trusted_login_def login_response_def split: sum.splits)
  moreover have "sessions db1 = sessions db" using consume_frames [OF k] by simp
  ultimately show ?thesis using createSession_opened by metis
qed

lemma login_opened:
  assumes "login E now fr d tr db = (Inr (LoggedIn r), db')"
  shows "opened E now (re_refresh r) db db'"
proof (cases rule: login_cases [of d db E now fr tr])
  case (passed u)
  have "opened E now (re_refresh r) db db'"
    if "check_factor E now fr u enrol role mfa (ld_mfa d) tr x = (Inr (LoggedIn r), db')" "sessions x = sessions db" for enrol role mfa x
  proof -
    have "opened E now (re_refresh r) x db'"
      using that(1) by (auto simp: check_factor_def split: option.splits if_splits
          dest: finish_login_opened [of _ _ _ _ _ x _ _ x, OF _ refl] trusted_login_opened
            finish_login_opened [of _ _ _ _ _ "logLoginEvent now (Some (us_id u)) ''MFA_SUCCESS'' [(''inline'', ''true'')] x" _ _ x])
    then show ?thesis using that(2) by (simp add: opened_def)
  qed
  from this [OF passed(5) [unfolded second_factor_def Let_def, symmetric, THEN trans, OF assms]] show ?thesis by simp
qed (use assms in simp_all)

lemma verifyOtp_opened:
  assumes "verifyOtp E now fr d db = (Inr o1, db')"
  shows "opened E now (re_refresh (ot_auth o1)) db db'"
proof -
  obtain u where a: "accept_otp E now fr u d db = (Inr o1, db')"
    using assms by (auto simp: verifyOtp_def split: option.splits if_splits)
  let ?x = "record_login now u (logLoginEvent now (Some u) ''MFA_SUCCESS'' [(''challengeId'', od_challenge d)] db)"
  obtain em tok db2 where "createSession E now fr u em ?x = Inr (tok, db2)" "re_refresh (ot_auth o1) = snd tok"
    "sessions db' = sessions db2"
    using a by (auto simp: accept_otp_def Let_def registerTrusted_Inr split: option.splits sum.splits if_splits dest!: insert_trusted_Inr)
  then show ?thesis using createSession_opened [of E now fr u em ?x tok db2 db' db] by simp
qed

lemma refresh_opened:
  assumes "auth_refresh E now fr raw db = (Inr tok, db')"
  shows "opened E now (snd tok) db db'"
proof (cases rule: auth_refresh_cases [of E now fr raw db])
  case (rotated s u db1)
  have "ss_hash ` set (sessions (revoke_session now s db)) = ss_hash ` set (sessions db)"
    unfolding set_map [symmetric] revoke_session_def by (simp add: map_update_rows_frame del: set_map)
  from insert_session_opened [OF rotated(8) _ this, of db'] rotated(9) assms show ?thesis
    by (simp add: generateTokens_def)
qed (use assms in simp_all)

lemma cookies_differ:
  "setRefreshCookie c tok \<noteq> setAccessTokenCookie c' acc" "setRefreshCookie c tok \<notin> set (trusted_cookies c' t)"
  "setRefreshCookie c tok \<noteq> clearRefreshCookie c'" "setRefreshCookie c tok \<noteq> clearAccessTokenCookie c'"
  "setRefreshCookie c tok = setRefreshCookie c tok' \<longleftrightarrow> tok = tok'"
  by (auto simp: setRefreshCookie_def setAccessTokenCookie_def trusted_cookies_def clearRefreshCookie_def
      clearAccessTokenCookie_def getRefreshCookieOptions_def getTrustedCookieOptions_def getClearCookieOptions_def Let_def
      REFRESH_TOKEN_EXPIRY_DAYS_def TRUSTED_DEVICE_DAYS_def split: option.splits)

lemma exec_auth_http_cookie:
  assumes "exec_auth_http E url c now req call db = (cs, db')" "setRefreshCookie c tok \<in> set cs"
  shows "opened E now tok db db'"
proof (cases call)
  case (PostRegister fr d)
  then show ?thesis using assms register_opened
    by (cases "register E now fr d db") (auto simp: ac_register_def cookies_differ split: sum.splits)
next
  case (PostLogin fr d)
  let ?l = "login E now fr d (map_of (hr_cookies req) (co_name (getTrustedCookieOptions (hc_cookies c) []))) db"
  show ?thesis using PostLogin assms login_opened
    by (cases ?l) (auto simp: ac_login_def cookies_differ split: sum.splits login_result.splits)
next
  case (PostVerifyOtp fr d)
  then show ?thesis using assms verifyOtp_opened
    by (cases "verifyOtp E now fr d db") (auto simp: ac_verifyOtp_def cookies_differ Let_def split: sum.splits)
next
  case (PostRefresh fr)
  then obtain raw where raw: "or_null (refresh_cookie c req) = Some raw" "validateOrigin url c req"
    using assms by (auto simp: ac_refresh_def split: if_splits option.splits)
  show ?thesis using PostRefresh assms raw refresh_opened [of E now fr raw db]
    by (cases "auth_refresh E now fr raw db") (auto simp: ac_refresh_def cookies_differ split: sum.splits)
qed (use assms in \<open>auto simp: ac_me_def ac_changePassword_def ac_logout_def ac_setupMfa_def ac_verifyMfa_def ac_disableMfa_def
  ac_forgotPassword_def ac_resetPassword_def with_user_def cookies_differ split: sum.splits prod.splits if_splits\<close>)

text \<open>Through the endpoint, a logout leaves every session as it is.\<close>

lemma logout_keeps_sessions: "sessions (snd (snd (ac_logout E url c now req db))) = sessions db"
  by (auto simp: ac_logout_def auth_logout_def revoke_sessions_def update_rows_none split: option.split)

section \<open>Properties\<close>

definition example_guards :: guard_config where
  "example_guards = \<lparr>gc_access_cookie = None, gc_secret = Some ''s''\<rparr>"

definition example_approval :: referral_http where
  "example_approval = \<lparr>rh_now = 11, rh_ids = (\<lambda>i. i), rh_pool = Pool example_admin_db, rh_request = example_admin_request,
     rh_call = PayoutCall (PayoutApprove 70)\<rparr>"

definition example_http :: http_config where
  "example_http = \<lparr>hc_guard = example_guards, hc_cookies = \<lparr>cc_node_env = None, cc_name = None, cc_path = None,
     cc_same_site = None, cc_domain = None\<rparr>, hc_domain = None, hc_cors = None\<rparr>"

text \<open>
  C34. Over any calls to the payout and commission endpoints, the ledger and the wallets change exactly as by the
  service requests of the calls that the guards admit. Each of these is either a payout request for the
  subject of the valid token that was shown, or comes from an account that at this moment is an active
  administrator and whose token holds the permission of the route.
\<close>

theorem http_referral_authorised:
  "run_requests (exec_referral_http E c D) hs db = run_requests (exec_referral D) (List.map_filter (admitted E c) hs) db \<and>
   (\<forall>h\<in>set hs. \<forall>r. admitted E c h = Some r \<longrightarrow> authorised E c h r)"
  using run_http_admitted admitted_authorised by blast

theorem http_referral_authorised_witness:
  "admitted example_admin_env example_guards example_approval = Some (PayoutReq (11, ApprovePayout 70 (Some 1))) \<and>
   authorised example_admin_env example_guards example_approval (PayoutReq (11, ApprovePayout 70 (Some 1)))"
proof -
  have "map_option jp_sub (caller example_admin_env example_guards example_approval) = Some 1" by code_simp
  then have "admitted example_admin_env example_guards example_approval = Some (PayoutReq (11, ApprovePayout 70 (Some 1)))"
    by (auto simp: admitted_def example_approval_def)
  then show ?thesis
    using http_referral_authorised [of example_admin_env example_guards _ "[example_approval]"] by simp
qed

text \<open>
  A call to the account endpoints changes the accounts only by one request of the account service, and that
  request acts on no account but the one of the accepted access token. A refresh cookie in the answer
  carries the token of a session that the call has opened, with a fresh token and seven days to live. A
  refresh or a logout from a foreign origin changes nothing.
\<close>

theorem auth_http_sessions:
  assumes "exec_auth_http E url c now req call db = (cs, db')"
  shows "account_step E c now req db db' \<and>
    (\<forall>tok. setRefreshCookie c tok \<in> set cs \<longrightarrow> opened E now tok db db') \<and>
    (\<not> validateOrigin url c req \<and> (call = PostLogout \<or> (\<exists>fr. call = PostRefresh fr)) \<longrightarrow> db' = db)"
proof -
  have "account_step E c now req db db'" using exec_auth_http_step [of E c now req db url call] assms by simp
  moreover have "db' = db" if "\<not> validateOrigin url c req" "call = PostLogout \<or> (\<exists>fr. call = PostRefresh fr)"
    using that assms by (auto simp: ac_logout_def ac_refresh_def)
  ultimately show ?thesis using exec_auth_http_cookie [OF assms] by blast
qed

theorem auth_http_sessions_witness:
  "opened example_account_env 7 ''r1'' (example_accounts False)
     (snd (exec_auth_http example_account_env Some example_http 7
       \<lparr>hr_authorization = None, hr_cookies = [], hr_origin = None, hr_referer = None\<rparr>
       (PostLogin (example_draws 1 ''r1'') (example_login ''pw'')) (example_accounts False)))"
proof -
  let ?x = "exec_auth_http example_account_env Some example_http 7
       \<lparr>hr_authorization = None, hr_cookies = [], hr_origin = None, hr_referer = None\<rparr>
       (PostLogin (example_draws 1 ''r1'') (example_login ''pw'')) (example_accounts False)"
  have "setRefreshCookie example_http ''r1'' \<in> set (fst ?x)" by code_simp
  then show ?thesis using auth_http_sessions [OF prod.collapse [symmetric, of ?x]] by blast
qed

end
