(* ===== verification/GuestPreview.thy ===== *)
theory GuestPreview
  imports Controllers Billing "HOL-Library.Word"
begin

text \<open>
  The guest preview, \<^verbatim>\<open>control/src/modules/guest-preview\<close>: the time-limited token of an anonymous visitor, the
  registration without a password (a consent snapshot and a mailed one-time code), the verification that
  creates the account and opens a session, and the opt-out from marketing mail. The accounts and
  sessions are those of \<open>Auth\<close>; SHA-256 and the tokens are parameters. No operation runs in a transaction.
\<close>

section \<open>Rows\<close>

record consent_snapshot =
  cn_terms :: bool
  cn_risk :: bool
  cn_marketing :: bool
  cn_texts :: "string \<times> string \<times> string"
  cn_version :: string

record registration_row =
  rg_id :: uuid
  rg_email :: string
  rg_hash :: string
  rg_name :: string
  rg_phone :: "string option"
  rg_broker :: "string option"
  rg_consent :: consent_snapshot
  rg_attempts :: nat
  rg_max :: nat
  rg_expires_at :: time
  rg_consumed_at :: "time option"
  rg_created_at :: time

record consent_row =
  cr_user :: uuid
  cr_email :: string
  cr_snapshot :: consent_snapshot
  cr_ip :: "string option"
  cr_agent :: "string option"
  cr_created_at :: time

record unsubscribe_row =
  un_email :: string
  un_at :: time
  un_ip :: "string option"
  un_agent :: "string option"

record guest_db =
  gp_auth :: auth_db
  gp_verified :: "uuid list"
  gp_registrations :: "registration_row list"
  gp_consents :: "consent_row list"
  gp_unsubscribes :: "unsubscribe_row list"
  gp_contacts :: "(uuid \<times> string option \<times> string option) list"

section \<open>Environment\<close>

text \<open>
  The claims of the two tokens of this service. \<open>ge_sign c n now\<close> signs claims for \<open>n\<close> seconds, \<open>ge_verify\<close> gives
  them back with the expiry in seconds; \<open>ge_inet\<close> says whether the database accepts a text as an address;
  \<open>ge_preview\<close> is the configured number of seconds, when it is a number.
\<close>

record guest_claims =
  gc_purpose :: "string option"
  gc_email :: "string option"
  gc_jti :: "string option"

record guest_env =
  ge_auth :: auth_env
  ge_sign :: "guest_claims \<Rightarrow> rat \<Rightarrow> time \<Rightarrow> string"
  ge_verify :: "time \<Rightarrow> string \<Rightarrow> (guest_claims \<times> int option) option"
  ge_inet :: "string \<Rightarrow> bool"
  ge_preview :: "rat option"

text \<open>What a call draws, and whether the mail server takes its mail.\<close>

record guest_fresh =
  gf_registration :: uuid
  gf_draw :: "32 word"
  gf_auth :: auth_fresh
  gf_password :: string
  gf_mail :: bool

record client_meta =
  cm_ip :: "string option"
  cm_agent :: "string option"

section \<open>Constants\<close>

definition GUEST_JWT_PURPOSE :: string where "GUEST_JWT_PURPOSE = ''guest_preview''"
definition GUEST_COOKIE_NAME :: string where "GUEST_COOKIE_NAME = ''pat_guest_session''"
definition OTP_EXPIRY_MIN :: int where "OTP_EXPIRY_MIN = 10"
definition OTP_MAX_ATTEMPTS :: nat where "OTP_MAX_ATTEMPTS = 5"
definition RESEND_COOLDOWN_SEC :: int where "RESEND_COOLDOWN_SEC = 60"
definition CONSENT_VERSION :: string where "CONSENT_VERSION = ''1.0.0''"

definition TERMS_TEXT :: string where
  "TERMS_TEXT = ''I accept the Terms & Conditions and Privacy Policy.''"

definition RISK_TEXT :: string where
  "RISK_TEXT = ''I understand this platform is for informational/educational purposes only and is not investment advice. '' @
     ''Trading CFDs/FX/gold (XAUUSD) carries a high risk of loss.''"

definition MARKETING_TEXT :: string where
  "MARKETING_TEXT = ''I agree to receive marketing communications and offers via email and WhatsApp.''"

lemmas guest_constants = OTP_EXPIRY_MIN_def OTP_MAX_ATTEMPTS_def RESEND_COOLDOWN_SEC_def

section \<open>The preview token\<close>

definition getPreviewSeconds :: "guest_env \<Rightarrow> rat" where
  "getPreviewSeconds G = (case ge_preview G of None \<Rightarrow> 300 | Some n \<Rightarrow> if n < 30 then 300 else min n 3600)"

definition issueGuestSession :: "guest_env \<Rightarrow> string \<Rightarrow> time \<Rightarrow> string \<times> rat \<times> rat" where
  "issueGuestSession G jti now =
     (let n = getPreviewSeconds G in
      (ge_sign G \<lparr>gc_purpose = Some GUEST_JWT_PURPOSE, gc_email = None, gc_jti = Some jti\<rparr> n now, of_int now + n * 1000, n))"

record guest_status =
  gs_locked :: bool
  gs_expires :: "time option"
  gs_remaining :: int

definition locked_status :: guest_status where
  "locked_status = \<lparr>gs_locked = True, gs_expires = None, gs_remaining = 0\<rparr>"

definition getGuestStatus :: "guest_env \<Rightarrow> string option \<Rightarrow> time \<Rightarrow> guest_status" where
  "getGuestStatus G raw now =
     (case or_null raw of
        None \<Rightarrow> locked_status
      | Some t \<Rightarrow>
          (case ge_verify G now t of
             None \<Rightarrow> locked_status
           | Some (c, ex) \<Rightarrow>
               if gc_purpose c \<noteq> Some GUEST_JWT_PURPOSE then locked_status
               else
                 (let expires = seconds (coalesce_text ex 0); remaining = max 0 ((expires - now) div 1000) in
                  \<lparr>gs_locked = (remaining \<le> 0), gs_expires = Some expires, gs_remaining = remaining\<rparr>)))"

section \<open>One-time codes\<close>

definition generateOtpCode :: "32 word \<Rightarrow> string" where
  "generateOtpCode w = padStart 6 (CHR ''0'') (nat_text (nat (uint w mod 1000000)))"

definition guest_email :: "string \<Rightarrow> string" where
  "guest_email e = js_lower (js_trim e)"

definition guest_hash :: "guest_env \<Rightarrow> string \<Rightarrow> string" where
  "guest_hash G t = hashToken (ge_auth G) t"

definition ip_ok :: "guest_env \<Rightarrow> client_meta \<Rightarrow> bool" where
  "ip_ok G m \<longleftrightarrow> (case cm_ip m of None \<Rightarrow> True | Some s \<Rightarrow> ge_inet G s)"

definition send_guest_mail :: "guest_fresh \<Rightarrow> string \<Rightarrow> string \<Rightarrow> guest_db \<Rightarrow> guest_db" where
  "send_guest_mail fr to body db =
     (if gf_mail fr then db\<lparr>gp_auth := (gp_auth db)\<lparr>sent_mails := sent_mails (gp_auth db) @ [(to, body)]\<rparr>\<rparr> else db)"

definition insert_registration :: "guest_env \<Rightarrow> client_meta \<Rightarrow> registration_row \<Rightarrow> guest_db \<Rightarrow> guest_db result" where
  "insert_registration G m r db =
     (if \<not> ip_ok G m then Inl (SqlError ''22P02'')
      else if exists_row (\<lambda>x. rg_id x = rg_id r) (gp_registrations db) then Inl (SqlError ''23505'')
      else Inr (db\<lparr>gp_registrations := gp_registrations db @ [r]\<rparr>))"

text \<open>An open registration that is too young for another code.\<close>

definition cooling :: "string \<Rightarrow> time \<Rightarrow> registration_row \<Rightarrow> bool" where
  "cooling email now r \<longleftrightarrow> rg_email r = email \<and> rg_consumed_at r = None \<and> rg_created_at r \<ge> now - seconds RESEND_COOLDOWN_SEC"

definition cooldown_error :: http_error where
  "cooldown_error = BadRequest ''Please wait 60 seconds before requesting another code.''"

section \<open>Registration\<close>

record guest_register_dto =
  gr_name :: string
  gr_email :: string
  gr_phone :: "string option"
  gr_broker :: "string option"
  gr_terms :: bool
  gr_risk :: bool
  gr_marketing :: bool

definition consent_of :: "guest_register_dto \<Rightarrow> consent_snapshot" where
  "consent_of d = \<lparr>cn_terms = gr_terms d, cn_risk = gr_risk d, cn_marketing = gr_marketing d,
     cn_texts = (TERMS_TEXT, RISK_TEXT, MARKETING_TEXT), cn_version = CONSENT_VERSION\<rparr>"

definition new_registration ::
  "guest_env \<Rightarrow> time \<Rightarrow> guest_fresh \<Rightarrow> string \<Rightarrow> string \<Rightarrow> string option \<Rightarrow> string option \<Rightarrow> consent_snapshot \<Rightarrow> registration_row" where
  "new_registration G now fr email name phone broker c =
     \<lparr>rg_id = gf_registration fr, rg_email = email, rg_hash = guest_hash G (generateOtpCode (gf_draw fr)), rg_name = name,
      rg_phone = phone, rg_broker = broker, rg_consent = c, rg_attempts = 0, rg_max = OTP_MAX_ATTEMPTS,
      rg_expires_at = now + minutes OTP_EXPIRY_MIN, rg_consumed_at = None, rg_created_at = now\<rparr>"

definition guest_message :: string where
  "guest_message = ''If this email is not already registered, we sent a verification code. Enter it to complete registration.''"

definition verified_email :: "string \<Rightarrow> guest_db \<Rightarrow> bool" where
  "verified_email email db \<longleftrightarrow> exists_row (\<lambda>u. us_email u = email \<and> us_id u \<in> set (gp_verified db)) (users (gp_auth db))"

definition guest_register ::
  "guest_env \<Rightarrow> time \<Rightarrow> guest_fresh \<Rightarrow> guest_register_dto \<Rightarrow> client_meta \<Rightarrow> (guest_db, string \<times> uuid option) handler" where
  "guest_register G now fr d m db =
     (if \<not> gr_terms d then
        (Inl (BadRequest ''You must accept the Terms & Conditions and Privacy Policy to continue.''), db)
      else if \<not> gr_risk d then (Inl (BadRequest ''You must acknowledge the risk disclosure to continue.''), db)
      else
        (let email = guest_email (gr_email d) in
         if verified_email email db then (Inr (guest_message, None), db)
         else if exists_row (cooling email now) (gp_registrations db) then (Inl cooldown_error, db)
         else
           (case insert_registration G m
                   (new_registration G now fr email (js_trim (gr_name d)) (gr_phone d) (gr_broker d) (consent_of d)) db of
              Inl e \<Rightarrow> (Inl e, db)
            | Inr db1 \<Rightarrow>
                (Inr (guest_message, Some (gf_registration fr)),
                 send_guest_mail fr email (generateOtpCode (gf_draw fr)) db1))))"

definition resend_message :: string where
  "resend_message = ''If a pending registration exists for this email, a new code has been sent.''"

definition resendOtp :: "guest_env \<Rightarrow> time \<Rightarrow> guest_fresh \<Rightarrow> string \<Rightarrow> client_meta \<Rightarrow> (guest_db, string) handler" where
  "resendOtp G now fr address m db =
     (let email = guest_email address in
      if exists_row (cooling email now) (gp_registrations db) then (Inl cooldown_error, db)
      else
        (case latest rg_created_at (\<lambda>r. rg_email r = email \<and> rg_consumed_at r = None \<and> rg_expires_at r > now)
                (gp_registrations db) of
           None \<Rightarrow> (Inr resend_message, db)
         | Some r \<Rightarrow>
             (case insert_registration G m
                     (new_registration G now fr email (rg_name r) (rg_phone r) (rg_broker r) (rg_consent r)) db of
                Inl e \<Rightarrow> (Inl e, db)
              | Inr db1 \<Rightarrow> (Inr resend_message, send_guest_mail fr email (generateOtpCode (gf_draw fr)) db1))))"

section \<open>Verification\<close>

definition blank_profile :: onboarding where
  "blank_profile = \<lparr>ob_address1 = None, ob_address2 = None, ob_city = None, ob_region = None, ob_postal = None,
     ob_country = None, ob_mobile = None, ob_whatsapp = None, ob_telegram = None, ob_instagram = None, ob_facebook = None,
     ob_broker = None, ob_source = None\<rparr>"

definition guest_user :: "guest_env \<Rightarrow> time \<Rightarrow> guest_fresh \<Rightarrow> registration_row \<Rightarrow> user_row" where
  "guest_user G now fr r =
     \<lparr>us_id = af_user (gf_auth fr), us_email = rg_email r,
      us_password = a_bcrypt (ge_auth G) (af_salt (gf_auth fr)) (gf_password fr), us_name = Some (rg_name r),
      us_status = ''ACTIVE'', us_failed = 0, us_locked = None, us_last_login = None, us_deleted = None,
      us_profile = blank_profile, us_marketing = (False, False, False), us_consent = None, us_created_at = now,
      us_updated_at = now\<rparr>"

text \<open>\<^verbatim>\<open>INSERT ... ON CONFLICT (email) DO UPDATE SET email_verified = true\<close>\<close>

definition upsert_guest :: "guest_env \<Rightarrow> time \<Rightarrow> guest_fresh \<Rightarrow> registration_row \<Rightarrow> guest_db \<Rightarrow> (user_row \<times> guest_db) result" where
  "upsert_guest G now fr r db =
     (let us = users (gp_auth db) in
      case first_row (\<lambda>u. us_email u = rg_email r) us of
        Some u \<Rightarrow>
          Inr (u, db\<lparr>gp_auth := (gp_auth db)\<lparr>users := update_rows (\<lambda>x. us_email x = rg_email r)
                 (\<lambda>x. x\<lparr>us_updated_at := now\<rparr>) us\<rparr>, gp_verified := us_id u # gp_verified db\<rparr>)
      | None \<Rightarrow>
          (let u = guest_user G now fr r in
           if exists_row (\<lambda>x. us_id x = us_id u) us then Inl (SqlError ''23505'')
           else Inr (u, db\<lparr>gp_auth := (gp_auth db)\<lparr>users := us @ [u]\<rparr>, gp_verified := us_id u # gp_verified db\<rparr>)))"

definition record_consent :: "guest_env \<Rightarrow> time \<Rightarrow> registration_row \<Rightarrow> user_row \<Rightarrow> client_meta \<Rightarrow> guest_db \<Rightarrow> guest_db result" where
  "record_consent G now r u m db =
     (if \<not> ip_ok G m then Inl (SqlError ''22P02'')
      else Inr (db\<lparr>gp_consents := gp_consents db @
        [\<lparr>cr_user = us_id u, cr_email = rg_email r, cr_snapshot = rg_consent r, cr_ip = cm_ip m, cr_agent = cm_agent m,
          cr_created_at = now\<rparr>]\<rparr>))"

definition store_contact :: "uuid \<Rightarrow> registration_row \<Rightarrow> guest_db \<Rightarrow> guest_db" where
  "store_contact u r db = db\<lparr>gp_contacts := (u, rg_phone r, rg_broker r) # filter (\<lambda>(x, _). x \<noteq> u) (gp_contacts db)\<rparr>"

definition set_registration :: "uuid \<Rightarrow> (registration_row \<Rightarrow> registration_row) \<Rightarrow> guest_db \<Rightarrow> guest_db" where
  "set_registration i f db = db\<lparr>gp_registrations := update_rows (\<lambda>r. rg_id r = i) f (gp_registrations db)\<rparr>"

definition consume :: "time \<Rightarrow> uuid \<Rightarrow> guest_db \<Rightarrow> guest_db" where
  "consume now i db = set_registration i (\<lambda>r. r\<lparr>rg_consumed_at := Some now\<rparr>) db"

definition count_attempt :: "uuid \<Rightarrow> guest_db \<Rightarrow> guest_db" where
  "count_attempt i db = set_registration i (\<lambda>r. r\<lparr>rg_attempts := rg_attempts r + 1\<rparr>) db"

definition guest_access :: "guest_env \<Rightarrow> time \<Rightarrow> user_row \<Rightarrow> string" where
  "guest_access G now u = a_sign (ge_auth G)
     \<lparr>jp_sub = us_id u, jp_email = Some (us_email u), jp_role = Some ''USER'', jp_permissions = None, jp_mfa = None,
      jp_purpose = Some ''access'', jp_jti = None\<rparr> (hours 1) now"

definition guest_session :: "guest_env \<Rightarrow> time \<Rightarrow> guest_fresh \<Rightarrow> user_row \<Rightarrow> guest_db \<Rightarrow> ((string \<times> string) \<times> guest_db) result" where
  "guest_session G now fr u db =
     map_sum id (\<lambda>a. ((guest_access G now u, af_refresh (gf_auth fr)), db\<lparr>gp_auth := a\<rparr>))
       (insert_session (new_session (ge_auth G) now (gf_auth fr) (us_id u) (af_family (gf_auth fr))) (gp_auth db))"

record guest_verified =
  gv_access :: string
  gv_user :: user_row
  gv_refresh :: string

definition admit_guest ::
  "guest_env \<Rightarrow> time \<Rightarrow> guest_fresh \<Rightarrow> registration_row \<Rightarrow> client_meta \<Rightarrow> (guest_db, guest_verified) handler" where
  "admit_guest G now fr r m db =
     (case upsert_guest G now fr r db of
        Inl e \<Rightarrow> (Inl e, db)
      | Inr (u, db1) \<Rightarrow>
          (case record_consent G now r u m db1 of
             Inl e \<Rightarrow> (Inl e, db1)
           | Inr db2 \<Rightarrow>
               (let db3 = send_guest_mail fr (rg_email r) ''welcome'' (consume now (rg_id r) (store_contact (us_id u) r db2)) in
                case guest_session G now fr u db3 of
                  Inl e \<Rightarrow> (Inl e, db3)
                | Inr ((acc, ref), db4) \<Rightarrow> (Inr \<lparr>gv_access = acc, gv_user = u, gv_refresh = ref\<rparr>, db4))))"

definition invalid_code :: http_error where
  "invalid_code = Unauthorized ''Invalid or expired verification code.''"

definition wrong_code :: "nat \<Rightarrow> http_error" where
  "wrong_code attempts =
     (let n = int OTP_MAX_ATTEMPTS - int attempts - 1 in
      Unauthorized (''Invalid verification code'' @
        (if n > 0 then ''. '' @ nat_text (nat n) @ '' attempt'' @ (if n \<noteq> 1 then ''s'' else []) @ '' remaining.'' else ''.'')))"

definition guest_verifyOtp ::
  "guest_env \<Rightarrow> time \<Rightarrow> guest_fresh \<Rightarrow> string \<Rightarrow> string \<Rightarrow> client_meta \<Rightarrow> (guest_db, guest_verified) handler" where
  "guest_verifyOtp G now fr address code m db =
     (case latest rg_created_at (\<lambda>r. rg_email r = guest_email address \<and> rg_consumed_at r = None) (gp_registrations db) of
        None \<Rightarrow> (Inl invalid_code, db)
      | Some r \<Rightarrow>
          if rg_expires_at r < now then (Inl invalid_code, db)
          else if rg_attempts r \<ge> rg_max r \<or> rg_attempts r \<ge> OTP_MAX_ATTEMPTS
          then (Inl (Unauthorized ''Too many failed attempts. Please request a new code.''), consume now (rg_id r) db)
          else
            (let db1 = count_attempt (rg_id r) db in
             if guest_hash G code \<noteq> rg_hash r then (Inl (wrong_code (rg_attempts r)), db1)
             else admit_guest G now fr r m db1))"

section \<open>Marketing mail\<close>

definition upsert_unsubscribe :: "time \<Rightarrow> string \<Rightarrow> client_meta \<Rightarrow> unsubscribe_row list \<Rightarrow> unsubscribe_row list" where
  "upsert_unsubscribe now email m t =
     (let r = \<lparr>un_email = email, un_at = now, un_ip = cm_ip m, un_agent = cm_agent m\<rparr> in
      if exists_row (\<lambda>x. un_email x = email) t then update_rows (\<lambda>x. un_email x = email) (\<lambda>_. r) t else t @ [r])"

definition unsubscribe :: "guest_env \<Rightarrow> time \<Rightarrow> string \<Rightarrow> client_meta \<Rightarrow> (guest_db, string) handler" where
  "unsubscribe G now token m db =
     (case ge_verify G now token of
        None \<Rightarrow> (Inl (BadRequest ''Invalid or expired unsubscribe link.''), db)
      | Some (c, _) \<Rightarrow>
          (case (gc_purpose c = Some ''unsubscribe'', or_null (gc_email c)) of
             (True, Some e) \<Rightarrow>
               (let email = guest_email e in
                if ip_ok G m then (Inr email, db\<lparr>gp_unsubscribes := upsert_unsubscribe now email m (gp_unsubscribes db)\<rparr>)
                else (Inl (SqlError ''22P02''), db))
           | _ \<Rightarrow> (Inl (BadRequest ''Invalid unsubscribe link.''), db)))"

definition isUnsubscribed :: "string \<Rightarrow> guest_db \<Rightarrow> bool" where
  "isUnsubscribed email db \<longleftrightarrow> exists_row (\<lambda>r. un_email r = guest_email email) (gp_unsubscribes db)"

definition unsubscribe_token :: "guest_env \<Rightarrow> string \<Rightarrow> time \<Rightarrow> string" where
  "unsubscribe_token G email now =
     ge_sign G \<lparr>gc_purpose = Some ''unsubscribe'', gc_email = Some email, gc_jti = None\<rparr> (365 * 24 * 60 * 60) now"

section \<open>Endpoints\<close>

text \<open>The first address of the forwarding header counts as the client's.\<close>

definition clientMeta :: "string option \<Rightarrow> string option \<Rightarrow> string option \<Rightarrow> client_meta" where
  "clientMeta forwarded ip agent =
     \<lparr>cm_ip = (case or_null (map_option (\<lambda>x. js_trim (hd (js_split CHR '','' x))) forwarded) of
                 Some s \<Rightarrow> Some s | None \<Rightarrow> or_null ip),
      cm_agent = or_null agent\<rparr>"

record guest_cookie =
  gk_name :: string
  gk_http_only :: bool
  gk_secure :: bool
  gk_same_site :: string
  gk_path :: string
  gk_max_age :: rat
  gk_domain :: "string option"

definition getGuestCookieOptions :: "guest_env \<Rightarrow> cookie_config \<Rightarrow> string option \<Rightarrow> guest_cookie" where
  "getGuestCookieOptions G c name =
     \<lparr>gk_name = coalesce_text name GUEST_COOKIE_NAME, gk_http_only = True, gk_secure = (cc_node_env c = Some ''production''),
      gk_same_site = coalesce_text (cc_same_site c) ''lax'', gk_path = ''/'', gk_max_age = getPreviewSeconds G,
      gk_domain = or_null (cc_domain c)\<rparr>"

definition getClearGuestCookieOptions :: "guest_env \<Rightarrow> cookie_config \<Rightarrow> string option \<Rightarrow> string \<times> string \<times> string option" where
  "getClearGuestCookieOptions G c name =
     (let o' = getGuestCookieOptions G c name in (gk_name o', gk_path o', gk_domain o'))"

definition unsubscribeStatus :: "guest_env \<Rightarrow> time \<Rightarrow> string option \<Rightarrow> guest_db \<Rightarrow> string option \<times> guest_db" where
  "unsubscribeStatus G now token db =
     (case or_null token of
        None \<Rightarrow> (None, db)
      | Some t \<Rightarrow>
          (case unsubscribe G now t \<lparr>cm_ip = None, cm_agent = None\<rparr> db of
             (Inl _, db1) \<Rightarrow> (None, db1)
           | (Inr e, db1) \<Rightarrow> (Some e, db1)))"

section \<open>Requests\<close>

datatype guest_request =
    GuestRegister guest_fresh guest_register_dto client_meta
  | GuestResend guest_fresh string client_meta
  | GuestVerify guest_fresh string string client_meta
  | GuestUnsubscribe string client_meta

fun exec_guest :: "guest_env \<Rightarrow> time \<times> guest_request \<Rightarrow> guest_db \<Rightarrow> guest_db" where
  "exec_guest G (now, GuestRegister fr d m) db = snd (guest_register G now fr d m db)"
| "exec_guest G (now, GuestResend fr e m) db = snd (resendOtp G now fr e m db)"
| "exec_guest G (now, GuestVerify fr e c m) db = snd (guest_verifyOtp G now fr e c m db)"
| "exec_guest G (now, GuestUnsubscribe t m) db = snd (unsubscribe G now t m db)"

lemma mail_frames [simp]:
  "gp_registrations (send_guest_mail fr to b db) = gp_registrations db" "gp_consents (send_guest_mail fr to b db) = gp_consents db"
  "gp_unsubscribes (send_guest_mail fr to b db) = gp_unsubscribes db"
  "users (gp_auth (send_guest_mail fr to b db)) = users (gp_auth db)" "sessions (gp_auth (send_guest_mail fr to b db)) = sessions (gp_auth db)"
  by (simp_all add: send_guest_mail_def)

lemma contact_frames [simp]:
  "gp_registrations (store_contact u r db) = gp_registrations db" "gp_consents (store_contact u r db) = gp_consents db"
  "gp_unsubscribes (store_contact u r db) = gp_unsubscribes db" "gp_auth (store_contact u r db) = gp_auth db"
  by (simp_all add: store_contact_def)

lemma registration_frames [simp]:
  "gp_consents (consume now i db) = gp_consents db" "gp_unsubscribes (consume now i db) = gp_unsubscribes db"
  "gp_auth (consume now i db) = gp_auth db" "gp_consents (count_attempt i db) = gp_consents db"
  "gp_unsubscribes (count_attempt i db) = gp_unsubscribes db" "gp_auth (count_attempt i db) = gp_auth db"
  by (simp_all add: consume_def count_attempt_def set_registration_def)

text \<open>The outcomes of an admission.\<close>

lemma upsert_guest_frames:
  assumes "upsert_guest G now fr r db = Inr (u, db1)"
  shows "us_email u = rg_email r" "gp_registrations db1 = gp_registrations db" "gp_consents db1 = gp_consents db"
    "gp_unsubscribes db1 = gp_unsubscribes db" "sessions (gp_auth db1) = sessions (gp_auth db)"
    "\<exists>x\<in>set (users (gp_auth db1)). us_id x = us_id u \<and> us_email x = rg_email r" "us_id u \<in> set (gp_verified db1)"
proof -
  have "us_email u = rg_email r \<and> gp_registrations db1 = gp_registrations db \<and> gp_consents db1 = gp_consents db \<and>
    gp_unsubscribes db1 = gp_unsubscribes db \<and> sessions (gp_auth db1) = sessions (gp_auth db) \<and>
    (\<exists>x\<in>set (users (gp_auth db1)). us_id x = us_id u \<and> us_email x = rg_email r) \<and> us_id u \<in> set (gp_verified db1)"
  proof (cases "first_row (\<lambda>u. us_email u = rg_email r) (users (gp_auth db))")
    case None
    with assms show ?thesis by (auto simp: upsert_guest_def Let_def guest_user_def split: if_splits)
  next
    case (Some x)
    with assms first_row_Some [OF Some] show ?thesis
      by (auto simp: upsert_guest_def Let_def intro!: bexI [OF _ update_rows_hit [of x]])
  qed
  then show "us_email u = rg_email r" "gp_registrations db1 = gp_registrations db" "gp_consents db1 = gp_consents db"
    "gp_unsubscribes db1 = gp_unsubscribes db" "sessions (gp_auth db1) = sessions (gp_auth db)"
    "\<exists>x\<in>set (users (gp_auth db1)). us_id x = us_id u \<and> us_email x = rg_email r" "us_id u \<in> set (gp_verified db1)"
    by auto
qed

lemma admit_cases [case_names failed admitted]:
  obtains
    (failed) e db' where "admit_guest G now fr r m db = (Inl e, db')" "sessions (gp_auth db') = sessions (gp_auth db)"
      "gp_registrations db' \<in> {gp_registrations db, gp_registrations (consume now (rg_id r) db)}"
      "gp_unsubscribes db' = gp_unsubscribes db"
  | (admitted) v db' c where "admit_guest G now fr r m db = (Inr v, db')" "us_email (gv_user v) = rg_email r"
      "gp_registrations db' = gp_registrations (consume now (rg_id r) db)" "gp_unsubscribes db' = gp_unsubscribes db"
      "gp_consents db' = gp_consents db @ [c]" "cr_user c = us_id (gv_user v)" "cr_email c = rg_email r" "cr_snapshot c = rg_consent r"
      "cr_created_at c = now"
      "sessions (gp_auth db') = sessions (gp_auth db) @ [new_session (ge_auth G) now (gf_auth fr) (us_id (gv_user v)) (af_family (gf_auth fr))]"
proof (cases "upsert_guest G now fr r db")
  case (Inl e)
  then show thesis by (intro failed [of e db]) (simp_all add: admit_guest_def)
next
  case (Inr ud)
  then obtain u db1 where ud: "upsert_guest G now fr r db = Inr (u, db1)" by (cases ud) simp
  note f = upsert_guest_frames [OF ud]
  show thesis
  proof (cases "ip_ok G m")
    case False
    with ud f show thesis by (intro failed [of "SqlError ''22P02''" db1]) (simp_all add: admit_guest_def record_consent_def)
  next
    case True
    let ?c = "\<lparr>cr_user = us_id u, cr_email = rg_email r, cr_snapshot = rg_consent r, cr_ip = cm_ip m, cr_agent = cm_agent m, cr_created_at = now\<rparr>"
    let ?db = "send_guest_mail fr (rg_email r) ''welcome'' (consume now (rg_id r) (store_contact (us_id u) r (db1\<lparr>gp_consents := gp_consents db1 @ [?c]\<rparr>)))"
    have regs: "gp_registrations ?db = gp_registrations (consume now (rg_id r) db)"
      by (simp add: consume_def set_registration_def f)
    have adm: "admit_guest G now fr r m db = (case guest_session G now fr u ?db of Inl e \<Rightarrow> (Inl e, ?db)
        | Inr ((acc, ref), db4) \<Rightarrow> (Inr \<lparr>gv_access = acc, gv_user = u, gv_refresh = ref\<rparr>, db4))"
      using ud True by (simp add: admit_guest_def record_consent_def Let_def)
    show thesis
    proof (cases "insert_session (new_session (ge_auth G) now (gf_auth fr) (us_id u) (af_family (gf_auth fr))) (gp_auth ?db)")
      case (Inl e)
      then show thesis using adm regs f
        by (intro failed [of e ?db]) (simp_all add: guest_session_def)
    next
      case (Inr a)
      then have "sessions a = sessions (gp_auth db) @ [new_session (ge_auth G) now (gf_auth fr) (us_id u) (af_family (gf_auth fr))]"
        using f(5) by (auto simp: insert_session_def split: if_splits)
      with Inr adm regs f show thesis
        by (intro admitted [of "\<lparr>gv_access = guest_access G now u, gv_user = u, gv_refresh = af_refresh (gf_auth fr)\<rparr>" "?db\<lparr>gp_auth := a\<rparr>" ?c])
          (simp_all add: guest_session_def)
    qed
  qed
qed

lemma verify_cases [case_names refused exhausted wrong right]:
  obtains
    (refused) e where "guest_verifyOtp G now fr address code m db = (Inl e, db)"
  | (exhausted) r e where "r \<in> set (gp_registrations db)" "rg_attempts r \<ge> rg_max r \<or> rg_attempts r \<ge> OTP_MAX_ATTEMPTS"
      "guest_verifyOtp G now fr address code m db = (Inl e, consume now (rg_id r) db)"
  | (wrong) r e where "r \<in> set (gp_registrations db)" "rg_attempts r < rg_max r" "rg_attempts r < OTP_MAX_ATTEMPTS"
      "guest_verifyOtp G now fr address code m db = (Inl e, count_attempt (rg_id r) db)"
  | (right) r where "latest rg_created_at (\<lambda>r. rg_email r = guest_email address \<and> rg_consumed_at r = None) (gp_registrations db) = Some r"
      "r \<in> set (gp_registrations db)" "rg_email r = guest_email address" "rg_consumed_at r = None" "now \<le> rg_expires_at r"
      "rg_attempts r < rg_max r" "rg_attempts r < OTP_MAX_ATTEMPTS" "rg_hash r = guest_hash G code"
      "guest_verifyOtp G now fr address code m db = admit_guest G now fr r m (count_attempt (rg_id r) db)"
proof (cases "latest rg_created_at (\<lambda>r. rg_email r = guest_email address \<and> rg_consumed_at r = None) (gp_registrations db)")
  case None
  then show thesis by (intro refused) (simp add: guest_verifyOtp_def)
next
  case (Some r)
  note r = latest_Some [OF Some]
  consider "rg_expires_at r < now" | "now \<le> rg_expires_at r" "rg_attempts r \<ge> rg_max r \<or> rg_attempts r \<ge> OTP_MAX_ATTEMPTS"
    | "now \<le> rg_expires_at r" "rg_attempts r < rg_max r" "rg_attempts r < OTP_MAX_ATTEMPTS" "guest_hash G code \<noteq> rg_hash r"
    | "now \<le> rg_expires_at r" "rg_attempts r < rg_max r" "rg_attempts r < OTP_MAX_ATTEMPTS" "rg_hash r = guest_hash G code"
    by fastforce
  then show thesis
  proof cases
    case 1
    with Some show thesis by (intro refused) (simp add: guest_verifyOtp_def)
  next
    case 2
    with Some r show thesis by (intro exhausted [of r]) (simp_all add: guest_verifyOtp_def)
  next
    case 3
    with Some r show thesis by (intro wrong [of r]) (simp_all add: guest_verifyOtp_def Let_def)
  next
    case 4
    with Some r show thesis by (intro right [of r]) (simp_all add: guest_verifyOtp_def Let_def)
  qed
qed

section \<open>Registrations\<close>

text \<open>A pending registration carries both required consents with the texts shown, and at most five attempts.\<close>

definition registration_ok :: "registration_row \<Rightarrow> bool" where
  "registration_ok r \<longleftrightarrow> rg_attempts r \<le> OTP_MAX_ATTEMPTS \<and> rg_max r = OTP_MAX_ATTEMPTS \<and> cn_terms (rg_consent r) \<and>
     cn_risk (rg_consent r) \<and> cn_texts (rg_consent r) = (TERMS_TEXT, RISK_TEXT, MARKETING_TEXT) \<and>
     cn_version (rg_consent r) = CONSENT_VERSION"

definition registrations_ok :: "guest_db \<Rightarrow> bool" where
  "registrations_ok db \<longleftrightarrow> distinct (map rg_id (gp_registrations db)) \<and> list_all registration_ok (gp_registrations db)"

lemma registrations_update:
  assumes "registrations_ok db" "\<And>r. rg_id (f r) = rg_id r"
    "\<And>r. r \<in> set (gp_registrations db) \<Longrightarrow> rg_id r = i \<Longrightarrow> registration_ok r \<Longrightarrow> registration_ok (f r)"
  shows "registrations_ok (set_registration i f db)"
  using assms by (auto simp: registrations_ok_def set_registration_def map_update_rows_frame list_all_iff ball_update_rows)

lemma registrations_same: "registrations_ok db \<Longrightarrow> gp_registrations db' = gp_registrations db \<Longrightarrow> registrations_ok db'"
  by (simp add: registrations_ok_def)

lemma registrations_mail [simp]: "registrations_ok (send_guest_mail fr to b db) = registrations_ok db"
  by (simp add: registrations_ok_def)

lemma consume_ok: "registrations_ok db \<Longrightarrow> registrations_ok (consume now i db)"
  unfolding consume_def by (rule registrations_update) (simp_all add: registration_ok_def)

lemma count_attempt_ok:
  assumes ok: "registrations_ok db" and r: "r \<in> set (gp_registrations db)" "rg_attempts r < OTP_MAX_ATTEMPTS"
  shows "registrations_ok (count_attempt (rg_id r) db)"
  unfolding count_attempt_def
proof (rule registrations_update [OF ok])
  fix x assume x: "x \<in> set (gp_registrations db)" "rg_id x = rg_id r" "registration_ok x"
  then have "x = r" using ok r(1) by (intro key_unique [of rg_id]) (simp_all add: registrations_ok_def)
  with x r(2) show "registration_ok (x\<lparr>rg_attempts := rg_attempts x + 1\<rparr>)" by (simp add: registration_ok_def)
qed simp

lemma insert_registration_ok:
  assumes "registrations_ok db" "insert_registration G m r db = Inr db1" "registration_ok r"
  shows "registrations_ok db1"
proof -
  have db1: "db1 = db\<lparr>gp_registrations := gp_registrations db @ [r]\<rparr>" "\<not> exists_row (\<lambda>x. rg_id x = rg_id r) (gp_registrations db)"
    using assms(2) by (simp_all add: insert_registration_def split: if_splits)
  show ?thesis
    using assms(1,3) distinct_insert_key [of rg_id, OF _ db1(2)] unfolding registrations_ok_def db1(1) by simp
qed

lemma verify_registrations:
  assumes "registrations_ok db"
  shows "registrations_ok (snd (guest_verifyOtp G now fr address code m db))"
proof (cases rule: verify_cases [of G now fr address code m db])
  case (exhausted r e)
  then show ?thesis using consume_ok [OF assms] by simp
next
  case (wrong r e)
  then show ?thesis using count_attempt_ok [OF assms] by simp
next
  case (right r)
  note ok = count_attempt_ok [OF assms right(2,7)]
  show ?thesis
  proof (cases rule: admit_cases [of G now fr r m "count_attempt (rg_id r) db"])
    case (failed e db')
    then have "gp_registrations db' = gp_registrations (count_attempt (rg_id r) db) \<or>
        gp_registrations db' = gp_registrations (consume now (rg_id r) (count_attempt (rg_id r) db))" by simp
    then show ?thesis using registrations_same [OF ok] registrations_same [OF consume_ok [OF ok]] failed(1) right(9) by auto
  next
    case (admitted v db' c)
    with registrations_same [OF consume_ok [OF ok]] right(9) show ?thesis by simp
  qed
qed (simp add: assms)

lemma new_registration_ok:
  "registration_ok (new_registration G now fr e n p b c) \<longleftrightarrow>
     cn_terms c \<and> cn_risk c \<and> cn_texts c = (TERMS_TEXT, RISK_TEXT, MARKETING_TEXT) \<and> cn_version c = CONSENT_VERSION"
  by (simp add: registration_ok_def new_registration_def)

lemma register_registrations:
  assumes "registrations_ok db"
  shows "registrations_ok (snd (guest_register G now fr d m db))"
proof -
  let ?r = "new_registration G now fr (guest_email (gr_email d)) (js_trim (gr_name d)) (gr_phone d) (gr_broker d) (consent_of d)"
  have "registration_ok ?r" if "gr_terms d" "gr_risk d" using that by (simp add: new_registration_ok consent_of_def)
  then show ?thesis
    using assms insert_registration_ok [OF assms, of G m ?r]
    by (auto simp: guest_register_def Let_def split: sum.split intro: registrations_same)
qed

lemma resend_registrations:
  assumes "registrations_ok db"
  shows "registrations_ok (snd (resendOtp G now fr e m db))"
proof (cases "latest rg_created_at (\<lambda>r. rg_email r = guest_email e \<and> rg_consumed_at r = None \<and> rg_expires_at r > now) (gp_registrations db)")
  case None
  with assms show ?thesis by (simp add: resendOtp_def Let_def)
next
  case (Some r)
  have "registration_ok r" using latest_Some [OF Some] assms by (auto simp: registrations_ok_def list_all_iff)
  then have "registration_ok (new_registration G now fr (guest_email e) (rg_name r) (rg_phone r) (rg_broker r) (rg_consent r))"
    unfolding new_registration_ok by (simp add: registration_ok_def)
  from insert_registration_ok [OF assms _ this] Some assms show ?thesis
    by (auto simp: resendOtp_def Let_def split: sum.split intro: registrations_same)
qed

lemma unsubscribe_registrations: "gp_registrations (snd (unsubscribe G now t m db)) = gp_registrations db"
  by (auto simp: unsubscribe_def Let_def split: option.split bool.split)

interpretation guest_registrations: guarded_service "exec_guest G" registrations_ok for G
proof
  fix db req assume ok: "registrations_ok db"
  show "registrations_ok (exec_guest G req db)"
    by (cases "(G, req, db)" rule: exec_guest.cases)
      (simp_all add: ok register_registrations resend_registrations verify_registrations
        registrations_same [OF ok unsubscribe_registrations])
qed

section \<open>Addresses and codes\<close>

lemma js_space_lower: "js_space (lower_char c) = js_space c"
proof -
  have "of_char (char_of (n + 32) :: char) = n + 32" if "65 \<le> n \<and> n \<le> 90" for n :: nat
    using that by (simp add: of_char_of)
  then show ?thesis by (auto simp: js_space_def lower_char_def Let_def)
qed

lemma lower_char_idem [simp]: "lower_char (lower_char c) = lower_char c"
proof -
  have "of_char (char_of (n + 32) :: char) = n + 32" if "65 \<le> n \<and> n \<le> 90" for n :: nat
    using that by (simp add: of_char_of)
  then show ?thesis by (auto simp: lower_char_def Let_def)
qed

lemma dropWhile_lower: "dropWhile js_space (map lower_char s) = map lower_char (dropWhile js_space s)"
  by (induction s) (simp_all add: js_space_lower)

lemma js_trim_lower: "js_trim (js_lower s) = js_lower (js_trim s)"
  by (simp add: js_trim_def js_lower_def dropWhile_lower rev_map)

lemma dropWhile_rev_dropWhile: "dropWhile P (rev (dropWhile P (rev (dropWhile P s)))) = rev (dropWhile P (rev (dropWhile P s)))"
proof (cases "dropWhile P s")
  case (Cons x t)
  have px: "\<not> P x" using Cons by (metis hd_dropWhile list.distinct(1) list.sel(1))
  have "\<exists>u. rev (dropWhile P (rev (x # t))) = x # u"
  proof -
    have "dropWhile P (rev t @ [x]) = (if \<forall>y\<in>set (rev t). P y then [x] else dropWhile P (rev t) @ [x])"
      using px by (auto simp: dropWhile_append)
    then show ?thesis by (auto intro: exI [of _ "rev (dropWhile P (rev t))"])
  qed
  with px Cons show ?thesis by auto
next
  case Nil
  show ?thesis unfolding Nil by simp
qed

lemma js_trim_idem [simp]: "js_trim (js_trim s) = js_trim s"
  unfolding js_trim_def by (subst dropWhile_rev_dropWhile) simp

lemma guest_email_idem: "guest_email (guest_email e) = guest_email e"
  by (simp add: guest_email_def js_trim_lower) (simp add: js_lower_def comp_def)

lemma nat_text_digits: "set (nat_text n) \<subseteq> set ''0123456789''"
proof (induction n rule: nat_text.induct)
  case (1 n)
  have "list_all (\<lambda>d. char_of (48 + d) \<in> set ''0123456789'') [0..<10]" by code_simp
  then have digit: "char_of (48 + d) \<in> set ''0123456789''" if "d < 10" for d :: nat
    using that unfolding list_all_iff by simp
  have last: "char_of (48 + n mod 10) \<in> set ''0123456789''" by (rule digit) simp
  show ?case
  proof (cases "n < 10")
    case True
    with digit [OF True] show ?thesis unfolding nat_text.simps [of n] by simp
  next
    case False
    with last "1.IH" [OF False] show ?thesis unfolding nat_text.simps [of n] set_append by (simp only: if_False Un_subset_iff) simp
  qed
qed

lemma nat_text_length: "n < 10 ^ k \<Longrightarrow> 0 < k \<Longrightarrow> length (nat_text n) \<le> k"
proof (induction n arbitrary: k rule: nat_text.induct)
  case (1 n)
  show ?case
  proof (cases "n < 10")
    case True
    with "1.prems" show ?thesis by (simp add: nat_text.simps [of n])
  next
    case False
    then obtain j where j: "k = Suc j" "0 < j" using "1.prems" by (cases k; cases "k - 1") auto
    have "n div 10 < 10 ^ j" using "1.prems" j by (simp add: less_mult_imp_div_less mult.commute)
    from "1.IH" [OF False this j(2)] False show ?thesis by (simp add: nat_text.simps [of n] j)
  qed
qed

lemma otp_code_shape: "length (generateOtpCode w) = 6" "set (generateOtpCode w) \<subseteq> set ''0123456789''"
proof -
  have "nat (uint w mod 1000000) < 10 ^ 6" by (simp add: nat_less_iff)
  then have "length (nat_text (nat (uint w mod 1000000))) \<le> 6" by (rule nat_text_length) simp
  then show "length (generateOtpCode w) = 6" by (simp add: generateOtpCode_def padStart_def)
  show "set (generateOtpCode w) \<subseteq> set ''0123456789''"
    using nat_text_digits [of "nat (uint w mod 1000000)"] unfolding generateOtpCode_def padStart_def set_append by auto
qed

section \<open>Opt-outs\<close>

text \<open>No request removes an opt-out.\<close>

definition opted_out :: "guest_db \<Rightarrow> string set" where
  "opted_out db = un_email ` set (gp_unsubscribes db)"

lemma verify_unsubscribes: "gp_unsubscribes (snd (guest_verifyOtp G now fr address code m db)) = gp_unsubscribes db"
proof (cases rule: verify_cases [of G now fr address code m db])
  case (right r)
  then show ?thesis by (cases rule: admit_cases [of G now fr r m "count_attempt (rg_id r) db"]) simp_all
qed simp_all

lemma insert_registration_unsubscribes:
  "insert_registration G m r db = Inr db1 \<Longrightarrow> gp_unsubscribes db1 = gp_unsubscribes db"
  by (auto simp: insert_registration_def split: if_splits)

lemma upsert_opted: "un_email ` set (upsert_unsubscribe now e m t) = insert e (un_email ` set t)"
proof (cases "exists_row (\<lambda>x. un_email x = e) t")
  case True
  let ?r = "\<lparr>un_email = e, un_at = now, un_ip = cm_ip m, un_agent = cm_agent m\<rparr>"
  have "map un_email (update_rows (\<lambda>x. un_email x = e) (\<lambda>_. ?r) t) = map un_email t" by (rule map_update_rows_frame) simp
  from arg_cong [OF this, of set] True show ?thesis by (auto simp: upsert_unsubscribe_def Let_def list_ex_iff)
qed (simp add: upsert_unsubscribe_def Let_def)

lemma unsubscribe_opted: "opted_out db \<subseteq> opted_out (snd (unsubscribe G now t m db))"
  by (auto simp: unsubscribe_def Let_def opted_out_def upsert_opted split: option.split bool.split)

interpretation opt_outs: monotone_service "exec_guest G" "\<lambda>db db'. opted_out db \<subseteq> opted_out db'" for G
proof
  fix db req
  show "opted_out db \<subseteq> opted_out (exec_guest G req db)"
    using unsubscribe_opted
    by (cases "(G, req, db)" rule: exec_guest.cases)
      (auto simp: opted_out_def verify_unsubscribes guest_register_def resendOtp_def Let_def insert_registration_unsubscribes
        split: sum.split option.split)
qed auto

section \<open>Properties\<close>

definition example_guest_env :: guest_env where
  "example_guest_env = \<lparr>ge_auth = example_account_env, ge_sign = (\<lambda>c n t. ''g''),
     ge_verify = (\<lambda>t s. if s = ''u'' then Some (\<lparr>gc_purpose = Some ''unsubscribe'', gc_email = Some ''bob@x'', gc_jti = None\<rparr>, None)
       else if s = ''g'' \<and> t div 1000 < 305 then Some (\<lparr>gc_purpose = Some ''guest_preview'', gc_email = None, gc_jti = Some ''j''\<rparr>, Some 305)
       else None), ge_inet = (\<lambda>s. s = ''1.2.3.4''), ge_preview = Some 300\<rparr>"

definition example_guests :: guest_db where
  "example_guests = \<lparr>gp_auth = example_accounts False, gp_verified = [], gp_registrations = [], gp_consents = [], gp_unsubscribes = [],
     gp_contacts = []\<rparr>"

definition example_guest_fresh :: "nat \<Rightarrow> 32 word \<Rightarrow> guest_fresh" where
  "example_guest_fresh i w = \<lparr>gf_registration = 600 + i, gf_draw = w, gf_auth = example_draws i (''g'' @ nat_text i), gf_password = ''p'', gf_mail = True\<rparr>"

definition example_guest_dto :: guest_register_dto where
  "example_guest_dto = \<lparr>gr_name = ''Bob'', gr_email = '' Bob@x'', gr_phone = None, gr_broker = Some ''b'', gr_terms = True, gr_risk = True,
     gr_marketing = False\<rparr>"

definition example_meta :: client_meta where
  "example_meta = clientMeta (Some ''1.2.3.4, 10.0.0.1'') None (Some ''ua'')"

definition example_guest_requests :: "(time \<times> guest_request) list" where
  "example_guest_requests = [(0, GuestRegister (example_guest_fresh 1 7) example_guest_dto example_meta),
     (1000, GuestVerify (example_guest_fresh 2 0) ''bob@x'' ''000000'' example_meta),
     (70000, GuestResend (example_guest_fresh 3 42) ''BOB@x'' example_meta)]"



text \<open>
  A mailed code is six decimal digits, and at most five of its million values can be tried: over any requests
  a registration counts at most five attempts, and once it has, no code is accepted on it, the right one
  included.
\<close>

theorem guest_guesses_bounded:
  assumes "registrations_ok db0" and "db = run_requests (exec_guest G) reqs db0" and "r \<in> set (gp_registrations db)"
  shows "rg_attempts r \<le> 5 \<and> length (generateOtpCode w) = 6 \<and> set (generateOtpCode w) \<subseteq> set ''0123456789'' \<and>
    (rg_attempts r = 5 \<and> rg_email r = guest_email address \<and>
       latest rg_created_at (\<lambda>x. rg_email x = rg_email r \<and> rg_consumed_at x = None) (gp_registrations db) = Some r \<longrightarrow>
     (\<exists>e. fst (guest_verifyOtp G now fr address code m db) = Inl e))"
proof -
  have ok: "registration_ok r"
    using guest_registrations.run_inv [OF assms(1), of G reqs] assms(2,3) by (simp add: registrations_ok_def list_all_iff)
  have "\<exists>e. fst (guest_verifyOtp G now fr address code m db) = Inl e"
    if "rg_attempts r = 5" "rg_email r = guest_email address"
      "latest rg_created_at (\<lambda>x. rg_email x = rg_email r \<and> rg_consumed_at x = None) (gp_registrations db) = Some r"
    using that by (auto simp: guest_verifyOtp_def OTP_MAX_ATTEMPTS_def)
  with ok otp_code_shape [of w] show ?thesis unfolding registration_ok_def OTP_MAX_ATTEMPTS_def by blast
qed

theorem guest_guesses_bounded_witness:
  "\<exists>r. r \<in> set (gp_registrations (run_requests (exec_guest example_guest_env) example_guest_requests example_guests)) \<and> rg_attempts r = 1 \<and>
     rg_attempts r \<le> 5 \<and> length (generateOtpCode 4294967295) = 6"
proof -
  let ?db = "run_requests (exec_guest example_guest_env) example_guest_requests example_guests"
  have "list_ex (\<lambda>r. rg_attempts r = 1) (gp_registrations ?db)" by code_simp
  then obtain r where r: "r \<in> set (gp_registrations ?db)" "rg_attempts r = 1" by (auto simp: list_ex_iff)
  have "registrations_ok example_guests" by (simp add: registrations_ok_def example_guests_def)
  from guest_guesses_bounded [OF this refl r(1), of 4294967295] r show ?thesis by blast
qed

text \<open>
  The lifetime of a token, as the library documents it: claims signed for \<open>n\<close> seconds are given back, with the
  expiry in whole seconds, until that second begins.
\<close>

definition jwt_lifetime :: "guest_env \<Rightarrow> guest_claims \<Rightarrow> rat \<Rightarrow> time \<Rightarrow> bool" where
  "jwt_lifetime G c n t0 \<longleftrightarrow> ge_sign G c n t0 \<noteq> [] \<and>
     (\<forall>t. ge_verify G t (ge_sign G c n t0) =
       (let e = \<lfloor>of_int (t0 div 1000) + n\<rfloor> in if t div 1000 < e then Some (c, Some e) else None))"

lemma expiry_bounds:
  fixes n :: rat
  assumes "e = \<lfloor>of_int (t0 div 1000) + n\<rfloor>"
  shows "of_int (1000 * e) \<le> of_int t0 + 1000 * n" "of_int t0 + 1000 * n - 2000 < of_int (1000 * e)"
proof -
  have e: "of_int e \<le> of_int (t0 div 1000) + n" "of_int (t0 div 1000) + n < of_int e + 1" using assms by linarith+
  have "1000 * (t0 div 1000) \<le> t0" "t0 < 1000 * (t0 div 1000) + 1000" by simp_all
  then have "1000 * of_int (t0 div 1000) \<le> (of_int t0 :: rat)" "of_int t0 < (1000 * of_int (t0 div 1000) + 1000 :: rat)"
    by (metis (no_types, opaque_lifting) of_int_le_iff of_int_mult of_int_numeral,
        metis (no_types, opaque_lifting) of_int_add of_int_less_iff of_int_mult of_int_numeral)
  with e show "of_int (1000 * e) \<le> of_int t0 + 1000 * n" "of_int t0 + 1000 * n - 2000 < of_int (1000 * e)"
    by (simp_all add: of_int_mult)
qed



text \<open>
  An opt-out is for good: after the link of a mail was used, the address counts as unsubscribed, in whatever
  case and with whatever blanks it is written, after any further requests.
\<close>

theorem opt_out_honoured:
  assumes "ge_verify G now token = Some (c, ex)" and "gc_purpose c = Some ''unsubscribe''" and "or_null (gc_email c) = Some (guest_email email)"
    and "ip_ok G m" and "guest_email address = guest_email email"
  shows "isUnsubscribed address (run_requests (exec_guest G) reqs (snd (unsubscribe G now token m db)))"
proof -
  have "guest_email email \<in> opted_out (snd (unsubscribe G now token m db))"
    using assms by (simp add: unsubscribe_def opted_out_def upsert_opted guest_email_idem Let_def)
  then have "guest_email email \<in> opted_out (run_requests (exec_guest G) reqs (snd (unsubscribe G now token m db)))"
    using opt_outs.run_leq by blast
  then show ?thesis using assms(5) by (auto simp: isUnsubscribed_def opted_out_def list_ex_iff)
qed

theorem opt_out_honoured_witness:
  "isUnsubscribed ''BOB@X'' (run_requests (exec_guest example_guest_env) example_guest_requests
     (snd (unsubscribe example_guest_env 0 ''u'' example_meta example_guests)))"
  by (rule opt_out_honoured [of _ _ _ "\<lparr>gc_purpose = Some ''unsubscribe'', gc_email = Some ''bob@x'', gc_jti = None\<rparr>" None "'' Bob@x ''"])
    code_simp+

text \<open>
  The address alone decides: a code opens a session for an existing account whatever its status, without a
  second factor.
\<close>

lemma suspended_account_admitted:
  "list_ex (\<lambda>s. ss_user s = 1 \<and> ss_created_at s = 9) (sessions (gp_auth (run_requests (exec_guest example_guest_env)
     [(0, GuestRegister (example_guest_fresh 1 7) (example_guest_dto\<lparr>gr_email := ''a''\<rparr>) example_meta),
      (9, GuestVerify (example_guest_fresh 2 0) ''a'' ''000007'' example_meta)]
     (example_guests\<lparr>gp_auth := (example_accounts True)\<lparr>users := [example_user\<lparr>us_status := ''SUSPENDED''\<rparr>]\<rparr>\<rparr>))))"
  by code_simp

end
