(* ===== verification/Compliance.thy ===== *)
theory Compliance
  imports Auth Billing
begin

text \<open>
  The audit helpers of \<^verbatim>\<open>control/src/modules/compliance/compliance.service.ts\<close>: the redaction of sensitive keys,
  the recognition of trusted proxies by their address ranges, the address of a client behind them, the
  validation of the telemetry a browser sends and the reading of its user agent. JSON values are a
  datatype whose objects list their entries in enumeration order; the reading of a text as a number is
  the parameter \<open>num\<close>. The masked comparison of octets is proved to be containment in the address range.
\<close>

unbundle bit_operations_syntax

section \<open>JSON values\<close>

datatype json =
    JNull
  | JBool bool
  | JNum rat
  | JStr string
  | JArr "json list"
  | JObj "(string \<times> json) list"

definition truthy :: "json \<Rightarrow> bool" where
  "truthy j = (case j of JNull \<Rightarrow> False | JBool b \<Rightarrow> b | JNum n \<Rightarrow> n \<noteq> 0 | JStr s \<Rightarrow> s \<noteq> [] | _ \<Rightarrow> True)"

text \<open>\<^verbatim>\<open>s.includes(pat)\<close>, and \<^verbatim>\<open>s.match(/pat([ok]+)/)\<close> with its group.\<close>

fun js_includes :: "string \<Rightarrow> string \<Rightarrow> bool" where
  "js_includes pat [] = (pat = [])"
| "js_includes pat (c # s) = (take (length pat) (c # s) = pat \<or> js_includes pat s)"

fun capture :: "string \<Rightarrow> (char \<Rightarrow> bool) \<Rightarrow> string \<Rightarrow> string option" where
  "capture pat ok' [] = None"
| "capture pat ok' (c # s) =
     (if take (length pat) (c # s) = pat \<and> takeWhile ok' (drop (length pat) (c # s)) \<noteq> []
      then Some (takeWhile ok' (drop (length pat) (c # s))) else capture pat ok' s)"

section \<open>Redaction\<close>

definition SENSITIVE_KEYS :: "string list" where
  "SENSITIVE_KEYS = [''password'', ''token'', ''secret'', ''authorization'', ''cookie'', ''api_key'', ''apiKey'', ''refresh_token'',
     ''accessToken'', ''private_key'']"

definition sensitive :: "string \<Rightarrow> bool" where
  "sensitive key \<longleftrightarrow> list_ex (\<lambda>s. js_includes (js_lower s) (js_lower key)) SENSITIVE_KEYS"

definition REDACTED :: json where
  "REDACTED = JStr ''[REDACTED]''"

text \<open>
  Objects are redacted entry by entry, arrays are kept as they are. An entry named after the prototype
  is not an own property of the result.
\<close>

fun redact :: "(string \<times> json) list \<Rightarrow> (string \<times> json) list" where
  "redact [] = []"
| "redact ((k, v) # rest) =
     (if k = ''__proto__'' then redact rest
      else if sensitive k then (k, REDACTED) # redact rest
      else (case v of JObj inner \<Rightarrow> (k, JObj (redact inner)) # redact rest | _ \<Rightarrow> (k, v) # redact rest))"

section \<open>Trusted proxies\<close>

definition default_cidrs :: string where
  "default_cidrs = ''172.16.0.0/12,10.0.0.0/8,127.0.0.0/8''"

definition TRUSTED_PROXY_CIDRS :: "string option \<Rightarrow> string list" where
  "TRUSTED_PROXY_CIDRS env = js_split CHR '','' (or_string env default_cidrs)"

text \<open>\<^verbatim>\<open>x & mask\<close>: the number is truncated and taken modulo \<open>2 ^ 32\<close>; what is not a number counts as zero.\<close>

definition js_bits :: "decimal \<Rightarrow> int" where
  "js_bits d = (case d of Finite r \<Rightarrow> (if r \<ge> 0 then \<lfloor>r\<rfloor> else \<lceil>r\<rceil>) mod 2 ^ 32 | _ \<Rightarrow> 0)"

definition octet_mask :: "int \<Rightarrow> nat \<Rightarrow> int" where
  "octet_mask p i = (if p mod 8 = 0 \<or> int i < p div 8 then 255 else 256 - 2 ^ nat (8 - p mod 8))"

definition part_bits :: "decimal list \<Rightarrow> nat \<Rightarrow> int" where
  "part_bits ds i = (if i < length ds then js_bits (ds ! i) else 0)"

definition octets_match :: "int \<Rightarrow> decimal list \<Rightarrow> decimal list \<Rightarrow> bool" where
  "octets_match p net ip \<longleftrightarrow>
     list_all (\<lambda>i. part_bits net i AND octet_mask p i = part_bits ip i AND octet_mask p i) [0..<nat ((p + 7) div 8)]"

text \<open>A prefix length that is not a number makes the loop compare nothing.\<close>

definition cidr_match :: "(string \<Rightarrow> decimal) \<Rightarrow> string \<Rightarrow> string \<Rightarrow> bool" where
  "cidr_match num ip cidr =
     (let parts = js_split CHR ''/'' cidr;
          prefix = (case tl parts of [] \<Rightarrow> None | x # _ \<Rightarrow> Some x);
          net = map num (js_split CHR ''.'' (hd parts));
          addr = map num (js_split CHR ''.'' ip) in
      length net = 4 \<and> length addr = 4 \<and>
      (case js_parseInt (or_string prefix ''32'') of None \<Rightarrow> True | Some p \<Rightarrow> octets_match p net addr))"

definition isTrustedProxy :: "(string \<Rightarrow> decimal) \<Rightarrow> string option \<Rightarrow> string \<Rightarrow> bool" where
  "isTrustedProxy num env ip \<longleftrightarrow> ip \<noteq> [] \<and>
     list_ex (cidr_match num (strip_prefix ''::ffff:'' ip)) (TRUSTED_PROXY_CIDRS env)"

record proxy_headers =
  ph_cf :: "string option"
  ph_real :: "string option"
  ph_forwarded :: "string option"

definition extractClientIp :: "(string \<Rightarrow> decimal) \<Rightarrow> string option \<Rightarrow> proxy_headers \<Rightarrow> string \<Rightarrow> string \<times> string list" where
  "extractClientIp num env h socket =
     (if isTrustedProxy num env socket then
        (let chain = (case or_null (ph_forwarded h) of Some x \<Rightarrow> map js_trim (js_split CHR '','' x) | None \<Rightarrow> []) in
         case (or_null (ph_cf h), or_null (ph_real h)) of
           (Some ip, _) \<Rightarrow> (ip, chain)
         | (None, Some ip) \<Rightarrow> (ip, chain)
         | (None, None) \<Rightarrow>
             (case or_null (ph_forwarded h) of
                Some x \<Rightarrow> (or_string (Some (hd chain)) socket, chain)
              | None \<Rightarrow> (socket, chain)))
      else (socket, []))"

section \<open>Telemetry\<close>

record telemetry =
  te_user_agent :: "string option"
  te_language :: "string option"
  te_languages :: "string list option"
  te_timezone :: "string option"
  te_offset :: "rat option"
  te_platform :: "string option"
  te_screen :: "(rat \<times> rat \<times> rat \<times> rat) option"
  te_viewport :: "(rat \<times> rat) option"
  te_pixel_ratio :: "rat option"
  te_color_depth :: "rat option"
  te_touch_points :: "rat option"
  te_hints :: "(string \<times> json) list option"

definition no_telemetry :: telemetry where
  "no_telemetry = \<lparr>te_user_agent = None, te_language = None, te_languages = None, te_timezone = None, te_offset = None,
     te_platform = None, te_screen = None, te_viewport = None, te_pixel_ratio = None, te_color_depth = None,
     te_touch_points = None, te_hints = None\<rparr>"

definition short_text :: "nat \<Rightarrow> json option \<Rightarrow> string option" where
  "short_text n v = (case v of Some (JStr s) \<Rightarrow> if s \<noteq> [] \<and> length s \<le> n then Some s else None | _ \<Rightarrow> None)"

definition number_where :: "(rat \<Rightarrow> bool) \<Rightarrow> json option \<Rightarrow> rat option" where
  "number_where p v = (case v of Some (JNum n) \<Rightarrow> if p n then Some n else None | _ \<Rightarrow> None)"

definition languages_of :: "json option \<Rightarrow> string list option" where
  "languages_of v =
     (case v of
        Some (JArr xs) \<Rightarrow> if length xs \<le> 10
          then Some (take 10 (List.map_filter (\<lambda>x. case x of JStr s \<Rightarrow> if length s \<le> 20 then Some s else None | _ \<Rightarrow> None) xs))
          else None
      | _ \<Rightarrow> None)"

text \<open>\<^verbatim>\<open>Number(v)\<close>; an array is read through its text, which is a number only for at most one element.\<close>

fun number_of_element :: "(string \<Rightarrow> decimal) \<Rightarrow> json \<Rightarrow> decimal" where
  "number_of_element num JNull = Finite 0"
| "number_of_element num (JBool b) = NaN"
| "number_of_element num (JNum n) = Finite n"
| "number_of_element num (JStr s) = num s"
| "number_of_element num (JArr []) = Finite 0"
| "number_of_element num (JArr [x]) = number_of_element num x"
| "number_of_element num (JArr (x # y # zs)) = NaN"
| "number_of_element num (JObj fs) = NaN"

definition js_number :: "(string \<Rightarrow> decimal) \<Rightarrow> json option \<Rightarrow> decimal" where
  "js_number num v =
     (case v of None \<Rightarrow> NaN | Some (JBool b) \<Rightarrow> Finite (if b then 1 else 0) | Some j \<Rightarrow> number_of_element num j)"

text \<open>\<^verbatim>\<open>Math.min(Math.max(Number(v) || 0, 0), 100000)\<close>\<close>

definition dimension :: "(string \<Rightarrow> decimal) \<Rightarrow> json option \<Rightarrow> rat" where
  "dimension num v =
     (case js_number num v of NaN \<Rightarrow> 0 | Finite r \<Rightarrow> min (max r 0) 100000 | Infinite pos \<Rightarrow> if pos then 100000 else 0)"

definition object_fields :: "json option \<Rightarrow> (string \<times> json) list option" where
  "object_fields v = (case v of Some (JObj fs) \<Rightarrow> Some fs | Some (JArr _) \<Rightarrow> Some [] | _ \<Rightarrow> None)"

text \<open>The first twenty hints are looked at; only short texts, truth values and numbers are kept.\<close>

definition hint_ok :: "string \<times> json \<Rightarrow> bool" where
  "hint_ok h = (fst h \<noteq> ''__proto__'' \<and> (case snd h of JStr s \<Rightarrow> length s \<le> 200 | JBool _ \<Rightarrow> True | JNum _ \<Rightarrow> True | _ \<Rightarrow> False))"

definition hints_of :: "json option \<Rightarrow> (string \<times> json) list option" where
  "hints_of v = (case v of Some (JObj fs) \<Rightarrow> Some (filter hint_ok (take 20 fs)) | _ \<Rightarrow> None)"

definition forbiddenFields :: "string list" where
  "forbiddenFields = [''client_ip'', ''country'', ''isp'', ''asn'', ''user_id'', ''account_id'', ''authenticated'', ''request_id'', ''security_flags'']"

definition sanitize :: "(string \<Rightarrow> decimal) \<Rightarrow> (string \<times> json) list \<Rightarrow> telemetry" where
  "sanitize num fs =
     (let f = map_of fs; dim = (\<lambda>k o'. dimension num (map_of o' k)) in
      \<lparr>te_user_agent = short_text 500 (f ''user_agent''), te_language = short_text 20 (f ''language''),
       te_languages = languages_of (f ''languages''), te_timezone = short_text 50 (f ''timezone''),
       te_offset = number_where (\<lambda>n. -1440 \<le> n \<and> n \<le> 1440) (f ''timezone_offset_minutes''),
       te_platform = short_text 100 (f ''platform''),
       te_screen = map_option (\<lambda>s. (dim ''width'' s, dim ''height'' s, dim ''avail_width'' s, dim ''avail_height'' s)) (object_fields (f ''screen'')),
       te_viewport = map_option (\<lambda>s. (dim ''width'' s, dim ''height'' s)) (object_fields (f ''viewport'')),
       te_pixel_ratio = number_where (\<lambda>n. 0 < n \<and> n \<le> 10) (f ''device_pixel_ratio''),
       te_color_depth = number_where (\<lambda>n. 0 < n \<and> n \<le> 64) (f ''color_depth''),
       te_touch_points = number_where (\<lambda>n. 0 \<le> n \<and> n \<le> 100) (f ''touch_points''),
       te_hints = hints_of (f ''client_hints'')\<rparr>)"

definition validateTelemetry :: "(string \<Rightarrow> decimal) \<Rightarrow> json \<Rightarrow> bool \<times> string list \<times> telemetry" where
  "validateTelemetry num j =
     (case object_fields (Some j) of
        None \<Rightarrow> (False, [''Telemetry must be an object''], no_telemetry)
      | Some fs \<Rightarrow>
          (let errors = map (\<lambda>k. ''Field '' @ [char_of (39 :: nat)] @ k @ [char_of (39 :: nat)] @ '' is not accepted from client'')
                 (filter (\<lambda>k. map_of fs k \<noteq> None) forbiddenFields) in
           (errors = [], errors, sanitize num fs)))"

section \<open>User agents\<close>

record agent_info =
  ai_browser :: string
  ai_version :: string
  ai_os :: string
  ai_os_version :: string
  ai_device :: string

definition version_char :: "char \<Rightarrow> bool" where
  "version_char c \<longleftrightarrow> digit_value c \<noteq> None \<or> c = CHR ''.''"

definition underscore_char :: "char \<Rightarrow> bool" where
  "underscore_char c \<longleftrightarrow> digit_value c \<noteq> None \<or> c = CHR ''_''"

definition dotted :: "string option \<Rightarrow> string" where
  "dotted v = (case v of None \<Rightarrow> [] | Some s \<Rightarrow> map (\<lambda>c. if c = CHR ''_'' then CHR ''.'' else c) s)"

definition agent_browser :: "string \<Rightarrow> string \<times> string" where
  "agent_browser ua =
     (if js_includes ''Edg/'' ua then (''Edge'', coalesce_text (capture ''Edg/'' version_char ua) [])
      else if js_includes ''Chrome/'' ua then (''Chrome'', coalesce_text (capture ''Chrome/'' version_char ua) [])
      else if js_includes ''Firefox/'' ua then (''Firefox'', coalesce_text (capture ''Firefox/'' version_char ua) [])
      else if js_includes ''Safari/'' ua \<and> \<not> js_includes ''Chrome'' ua
      then (''Safari'', coalesce_text (capture ''Version/'' version_char ua) [])
      else (''unknown'', []))"

definition agent_os :: "string \<Rightarrow> string \<times> string" where
  "agent_os ua =
     (if js_includes ''Windows'' ua then (''Windows'', coalesce_text (capture ''Windows NT '' version_char ua) [])
      else if js_includes ''Mac OS'' ua then (''macOS'', dotted (capture ''Mac OS X '' underscore_char ua))
      else if js_includes ''Linux'' ua then (''Linux'', [])
      else if js_includes ''Android'' ua then (''Android'', coalesce_text (capture ''Android '' version_char ua) [])
      else if js_includes ''iPhone'' ua \<or> js_includes ''iPad'' ua then (''iOS'', dotted (capture ''OS '' underscore_char ua))
      else (''unknown'', []))"

definition parseUserAgent :: "string \<Rightarrow> agent_info" where
  "parseUserAgent ua =
     (if ua = [] then \<lparr>ai_browser = ''unknown'', ai_version = [], ai_os = ''unknown'', ai_os_version = [], ai_device = ''desktop''\<rparr>
      else \<lparr>ai_browser = fst (agent_browser ua), ai_version = snd (agent_browser ua), ai_os = fst (agent_os ua),
        ai_os_version = snd (agent_os ua),
        ai_device = (if js_includes ''Mobile'' ua \<or> js_includes ''iPhone'' ua then ''mobile''
          else if js_includes ''iPad'' ua \<or> js_includes ''Tablet'' ua then ''tablet'' else ''desktop'')\<rparr>)"

section \<open>Redaction hides every sensitive key of an object\<close>

text \<open>An entry that keeps a sensitive value, at any depth that is reached through objects.\<close>

fun exposes :: "(string \<times> json) list \<Rightarrow> bool" where
  "exposes [] = False"
| "exposes ((k, v) # rest) =
     ((sensitive k \<and> v \<noteq> REDACTED) \<or> (case v of JObj inner \<Rightarrow> \<not> sensitive k \<and> exposes inner | _ \<Rightarrow> False) \<or> exposes rest)"

lemma redact_not_exposes: "\<not> exposes (redact fs)"
  by (induction fs rule: redact.induct) (auto split: json.split)

lemma redact_idem: "redact (redact fs) = redact fs"
  by (induction fs rule: redact.induct) (auto split: json.split)

lemma redact_id: "\<not> exposes fs \<Longrightarrow> (\<forall>k\<in>fst ` set fs. k \<noteq> ''__proto__'') \<Longrightarrow>
    (\<forall>j\<in>snd ` set fs. \<forall>inner. j \<noteq> JObj inner) \<Longrightarrow> redact fs = fs"
  by (induction fs rule: redact.induct) (auto split: json.split)

lemma redact_keys: "map fst (redact fs) = filter (\<lambda>k. k \<noteq> ''__proto__'') (map fst fs)"
  by (induction fs rule: redact.induct) (auto split: json.split)

text \<open>An object inside an array is not reached.\<close>

lemma array_secret_kept:
  "redact [(''list'', JArr [JObj [(''password'', JStr ''hunter2'')]])] = [(''list'', JArr [JObj [(''password'', JStr ''hunter2'')]])]"
  by code_simp

section \<open>Address ranges\<close>

definition address :: "int list \<Rightarrow> int" where
  "address os = foldl (\<lambda>a x. a * 256 + x) 0 os"

lemma address_Cons: "address (a # as) = a * 256 ^ length as + address as"
proof -
  have "foldl (\<lambda>a x. a * 256 + x) c xs = c * 256 ^ length xs + foldl (\<lambda>a x. a * 256 + x) 0 xs" for c :: int and xs
  proof (induction xs arbitrary: c)
    case (Cons x xs)
    show ?case using Cons [of "c * 256 + x"] Cons [of x] by (simp add: algebra_simps)
  qed simp
  from this [of a as] show ?thesis by (simp add: address_def)
qed

definition octets :: "int list \<Rightarrow> bool" where
  "octets os \<longleftrightarrow> (\<forall>x\<in>set os. 0 \<le> x \<and> x < 256)"

lemma octets_Cons [simp]: "octets (a # as) \<longleftrightarrow> 0 \<le> a \<and> a < 256 \<and> octets as"
  by (auto simp: octets_def)

lemma address_bounds: "octets os \<Longrightarrow> 0 \<le> address os \<and> address os < 256 ^ length os"
proof (induction os)
  case (Cons a as)
  then have a: "0 \<le> a" "a \<le> 255" and b: "0 \<le> address as" "address as < 256 ^ length as" by auto
  have "a * 256 ^ length as \<le> 255 * 256 ^ length as" by (rule mult_right_mono) (use a in simp_all)
  then have "a * 256 ^ length as + address as < 256 * 256 ^ length as" using b by linarith
  with a b show ?case by (simp add: address_Cons)
qed (simp add: address_def)

text \<open>Two addresses agree on their first \<open>p\<close> bits, octet by octet.\<close>

fun agree :: "nat \<Rightarrow> int list \<Rightarrow> int list \<Rightarrow> bool" where
  "agree p (a # as) (b # bs) = (if p \<ge> 8 then a = b \<and> agree (p - 8) as bs else a div 2 ^ (8 - p) = b div 2 ^ (8 - p))"
| "agree p _ _ = True"

lemma div_join:
  fixes x y :: int
  assumes "0 \<le> x" "x < K * L" "0 \<le> y" "y < K * L" "0 < L" "0 < K"
  shows "(A * (K * L) + x) div L = (B * (K * L) + y) div L \<longleftrightarrow> A = B \<and> x div L = y div L"
proof -
  have d: "(C * (K * L) + z) div L = C * K + z div L" for C z :: int
  proof -
    have "C * (K * L) + z = z + (C * K) * L" by (simp add: algebra_simps)
    then have "(C * (K * L) + z) div L = (z + C * K * L) div L" by (rule arg_cong)
    also have "\<dots> = C * K + z div L" using assms(5) by (intro div_mult_self1) simp
    finally show ?thesis .
  qed
  have bound: "z div L < K" if "z < K * L" for z :: int
  proof (rule mult_right_less_imp_less)
    have "z div L * L \<le> z" using assms(5) by (simp add: pos_mod_sign minus_mod_eq_div_mult [symmetric])
    with that show "z div L * L < K * L" by linarith
  qed (use assms(5) in simp)
  have xy: "0 \<le> x div L" "x div L < K" "0 \<le> y div L" "y div L < K"
    using assms bound by (simp_all add: pos_imp_zdiv_nonneg_iff)
  show ?thesis
  proof
    assume "(A * (K * L) + x) div L = (B * (K * L) + y) div L"
    then have eq: "A * K + x div L = B * K + y div L" by (simp add: d)
    have "(A * K + x div L) div K = A" "(B * K + y div L) div K = B" using xy assms(6) by (simp_all add: add.commute)
    with eq have "A = B" by simp
    with eq show "A = B \<and> x div L = y div L" by simp
  qed (simp add: d)
qed

lemma agree_address:
  assumes "length as = length bs" "octets as" "octets bs" "p \<le> 8 * length as"
  shows "address as div 2 ^ (8 * length as - p) = address bs div 2 ^ (8 * length as - p) \<longleftrightarrow> agree p as bs"
  using assms
proof (induction as bs arbitrary: p rule: list_induct2)
  case (Cons a as b bs)
  let ?n = "length as"
  have pow: "(256 :: int) ^ ?n = 2 ^ (8 * ?n)" by (simp add: power_mult)
  have A: "0 \<le> address as" "address as < 256 ^ ?n" "0 \<le> address bs" "address bs < 256 ^ ?n"
    using address_bounds [of as] address_bounds [of bs] Cons by simp_all
  show ?case
  proof (cases "8 \<le> p")
    case True
    let ?L = "(2 :: int) ^ (8 * ?n - (p - 8))" and ?K = "(2 :: int) ^ (p - 8)"
    have kl: "?K * ?L = 256 ^ ?n" using Cons.prems True by (simp add: pow flip: power_add)
    have l: "8 * length (a # as) - p = 8 * ?n - (p - 8)" using True by simp
    have "address (a # as) div ?L = address (b # bs) div ?L \<longleftrightarrow> a = b \<and> address as div ?L = address bs div ?L"
      using div_join [of "address as" ?K ?L "address bs" a b, unfolded kl] A Cons.hyps by (simp add: address_Cons)
    also have "\<dots> \<longleftrightarrow> a = b \<and> agree (p - 8) as bs" using Cons.IH [of "p - 8"] Cons.prems True by simp
    finally show ?thesis using True by (simp only: l agree.simps if_True)
  next
    case False
    have l: "(2 :: int) ^ (8 * length (a # as) - p) = 256 ^ ?n * 2 ^ (8 - p)" using False by (simp add: pow flip: power_add)
    have "(c * 256 ^ ?n + x) div (256 ^ ?n * 2 ^ (8 - p)) = c div 2 ^ (8 - p)" if "0 \<le> x" "x < 256 ^ ?n" for c x :: int
    proof -
      have "(c * 256 ^ ?n + x) div 256 ^ ?n = c" using that by (simp add: add.commute)
      then show ?thesis by (simp add: zdiv_zmult2_eq)
    qed
    with A Cons.hyps show ?thesis unfolding l address_Cons using False by simp
  qed
qed (simp add: address_def)

lemma and_high_bits:
  assumes "0 \<le> x" "x < (256 :: int)" "0 < p" "p < 8"
  shows "x AND (256 - 2 ^ (8 - p)) = x div 2 ^ (8 - p) * 2 ^ (8 - p)"
proof -
  have all: "list_all (\<lambda>(m, k). list_all (\<lambda>x. x AND m = x div k * k) [0..255])
      [(128, 128), (192, 64), (224, 32), (240, 16), (248, 8), (252, 4), (254, 2 :: int)]" by code_simp
  have "x \<in> set [0..255]" using assms by simp
  moreover have "p = 1 \<or> p = 2 \<or> p = 3 \<or> p = 4 \<or> p = 5 \<or> p = 6 \<or> p = 7" using assms(3,4) by auto
  ultimately show ?thesis using all by (elim disjE) (simp_all add: list_all_iff)
qed

lemma and_octet: "0 \<le> x \<Longrightarrow> x < 256 \<Longrightarrow> x AND 255 = (x :: int)"
  using take_bit_int_eq_self [of x 8] take_bit_eq_mask [of 8 x] by (simp add: mask_eq_exp_minus_1)

text \<open>The masked loop compares exactly the first \<open>p\<close> bits.\<close>

definition octet_eq :: "int \<Rightarrow> int list \<Rightarrow> int list \<Rightarrow> nat \<Rightarrow> bool" where
  "octet_eq p as bs i \<longleftrightarrow> as ! i AND octet_mask p i = bs ! i AND octet_mask p i"

lemma octet_mask_shift: "octet_mask (p + 8) (Suc i) = octet_mask p i"
proof -
  have "(p + 8) mod 8 = p mod 8" "(p + 8) div 8 = p div 8 + 1" by simp_all
  then show ?thesis unfolding octet_mask_def by (simp only: of_nat_Suc) auto
qed

lemma octet_eq_agree:
  assumes "length as = length bs" "octets as" "octets bs" "p \<le> 8 * length as"
  shows "(\<forall>i<(p + 7) div 8. octet_eq (int p) as bs i) \<longleftrightarrow> agree p as bs"
  using assms
proof (induction as bs arbitrary: p rule: list_induct2)
  case (Cons a as b bs)
  show ?case
  proof (cases "8 \<le> p")
    case True
    then obtain q where p: "p = q + 8" by (metis add.commute le_Suc_ex)
    have "(p + 7) div 8 = Suc ((q + 7) div 8)" by (simp add: p)
    then have "(\<forall>i<(p + 7) div 8. octet_eq (int p) (a # as) (b # bs) i) \<longleftrightarrow>
        octet_eq (int p) (a # as) (b # bs) 0 \<and> (\<forall>i<(q + 7) div 8. octet_eq (int p) (a # as) (b # bs) (Suc i))"
      by (simp only: All_less_Suc2)
    moreover have "octet_eq (int p) (a # as) (b # bs) (Suc i) = octet_eq (int q) as bs i" for i
      using octet_mask_shift [of "int q" i] by (simp add: octet_eq_def p add.commute)
    moreover have "octet_eq (int p) (a # as) (b # bs) 0 \<longleftrightarrow> a = b"
      using Cons.prems by (auto simp: octet_eq_def octet_mask_def p and_octet)
    ultimately show ?thesis using Cons by (simp add: p)
  next
    case False
    show ?thesis
    proof (cases "p = 0")
      case True
      with Cons.prems show ?thesis by simp
    next
      case pos: False
      have one: "(p + 7) div 8 = 1" using False pos by (intro div_nat_eqI) simp_all
      have "octet_mask (int p) 0 = 256 - 2 ^ (8 - p)" using False pos by (simp add: octet_mask_def nat_diff_distrib)
      then have "octet_eq (int p) (a # as) (b # bs) 0 \<longleftrightarrow> a div 2 ^ (8 - p) = b div 2 ^ (8 - p)"
        using and_high_bits [of a p] and_high_bits [of b p] Cons.prems False pos by (simp add: octet_eq_def)
      with False show ?thesis by (simp add: one)
    qed
  qed
qed simp

lemma octets_match_exact:
  assumes "length as = 4" "length bs = 4" "octets as" "octets bs" "0 \<le> p" "p \<le> 32"
    and "net = map (\<lambda>x. Finite (of_int x)) as" "ip = map (\<lambda>x. Finite (of_int x)) bs"
  shows "octets_match p net ip \<longleftrightarrow> address as div 2 ^ nat (32 - p) = address bs div 2 ^ nat (32 - p)"
proof -
  have bits: "part_bits (map (\<lambda>x. Finite (of_int x)) xs) i = xs ! i" if "octets xs" "length xs = 4" "i < 4" for xs i
  proof -
    have "xs ! i \<in> set xs" using that by simp
    then have "0 \<le> xs ! i" "xs ! i < 256" using that(1) by (auto simp: octets_def)
    then show ?thesis using that by (simp add: part_bits_def js_bits_def)
  qed
  have n: "nat ((p + 7) div 8) = (nat p + 7) div 8" using assms(5) by (simp add: nat_div_distrib nat_add_distrib)
  have "(nat p + 7) div 8 \<le> 4" using assms(5,6) by (simp add: div_le_mono [of "nat p + 7" 39 8, simplified])
  then have "octets_match p net ip \<longleftrightarrow> (\<forall>i<(nat p + 7) div 8. octet_eq (int (nat p)) as bs i)"
    using assms bits by (auto simp: octets_match_def list_all_iff n octet_eq_def)
  also have "\<dots> \<longleftrightarrow> agree (nat p) as bs" using assms by (intro octet_eq_agree) simp_all
  also have "\<dots> \<longleftrightarrow> address as div 2 ^ (8 * length as - nat p) = address bs div 2 ^ (8 * length as - nat p)"
    using assms by (intro agree_address [symmetric]) simp_all
  finally show ?thesis using assms(1,5,6) by (simp add: nat_diff_distrib)
qed


text \<open>An address and a range as the numbers they denote.\<close>

definition denotes_octets :: "(string \<Rightarrow> decimal) \<Rightarrow> string \<Rightarrow> int list \<Rightarrow> bool" where
  "denotes_octets num s xs \<longleftrightarrow>
     map num (js_split CHR ''.'' s) = map (\<lambda>x. Finite (of_int x)) xs \<and> length xs = 4 \<and> list_all (\<lambda>x. 0 \<le> x \<and> x < 256) xs"

definition denotes_range :: "(string \<Rightarrow> decimal) \<Rightarrow> string \<Rightarrow> int list \<times> int \<Rightarrow> bool" where
  "denotes_range num cidr r =
     (case js_split CHR ''/'' cidr of
        [network, prefix] \<Rightarrow> prefix \<noteq> [] \<and> js_parseInt prefix = Some (snd r) \<and> 0 \<le> snd r \<and> snd r \<le> 32 \<and>
          denotes_octets num network (fst r)
      | _ \<Rightarrow> False)"

definition in_range :: "int list \<Rightarrow> int \<Rightarrow> int list \<Rightarrow> bool" where
  "in_range ns p xs \<longleftrightarrow> address ns div 2 ^ nat (32 - p) = address xs div 2 ^ nat (32 - p)"

definition small_number :: "string \<Rightarrow> decimal" where
  "small_number s = (case js_parseInt s of Some i \<Rightarrow> Finite (of_int i) | None \<Rightarrow> NaN)"

lemma denotes_octetsD:
  "denotes_octets num s xs \<Longrightarrow> map num (js_split CHR ''.'' s) = map (\<lambda>x. Finite (of_int x)) xs \<and> length xs = 4 \<and> octets xs"
  by (simp add: denotes_octets_def octets_def list_all_iff)

lemma cidr_match_range:
  assumes "denotes_range num cidr r" "denotes_octets num ip xs"
  shows "cidr_match num ip cidr \<longleftrightarrow> (case r of (ns, p) \<Rightarrow> in_range ns p xs)"
proof -
  obtain ns p where r: "r = (ns, p)" by (cases r)
  obtain network prefix where split: "js_split CHR ''/'' cidr = [network, prefix]" "prefix \<noteq> []"
      "js_parseInt prefix = Some p" "0 \<le> p" "p \<le> 32" "denotes_octets num network ns"
    using assms(1) by (auto simp: denotes_range_def r split: list.splits)
  note n = denotes_octetsD [OF split(6)] and x = denotes_octetsD [OF assms(2)]
  have "length (js_split CHR ''.'' network) = 4" "length (js_split CHR ''.'' ip) = 4"
    using n x map_eq_imp_length_eq by metis+
  then have "cidr_match num ip cidr \<longleftrightarrow> octets_match p (map (\<lambda>x. Finite (of_int x)) ns) (map (\<lambda>x. Finite (of_int x)) xs)"
    using split(2,3) n x by (simp add: cidr_match_def split(1) or_string_def)
  then show ?thesis using octets_match_exact [of ns xs p] split(4,5) n x by (simp add: r in_range_def)
qed

section \<open>What the validation lets through\<close>

definition text_within :: "nat \<Rightarrow> string option \<Rightarrow> bool" where
  "text_within n v = (case v of None \<Rightarrow> True | Some s \<Rightarrow> s \<noteq> [] \<and> length s \<le> n)"

definition number_within :: "rat \<Rightarrow> rat \<Rightarrow> rat option \<Rightarrow> bool" where
  "number_within lo hi v = (case v of None \<Rightarrow> True | Some n \<Rightarrow> lo \<le> n \<and> n \<le> hi)"

definition pixels :: "rat \<Rightarrow> bool" where
  "pixels n \<longleftrightarrow> 0 \<le> n \<and> n \<le> 100000"

definition scalar_hint :: "json \<Rightarrow> bool" where
  "scalar_hint j = (case j of JStr s \<Rightarrow> length s \<le> 200 | JBool _ \<Rightarrow> True | JNum _ \<Rightarrow> True | _ \<Rightarrow> False)"

text \<open>The type of a stored telemetry record: every part within its limits.\<close>

definition telemetry_ok :: "telemetry \<Rightarrow> bool" where
  "telemetry_ok t \<longleftrightarrow>
     text_within 500 (te_user_agent t) \<and> text_within 20 (te_language t) \<and> text_within 50 (te_timezone t) \<and>
     text_within 100 (te_platform t) \<and>
     (case te_languages t of None \<Rightarrow> True | Some ls \<Rightarrow> length ls \<le> 10 \<and> list_all (\<lambda>l. length l \<le> 20) ls) \<and>
     number_within (-1440) 1440 (te_offset t) \<and> number_within 0 10 (te_pixel_ratio t) \<and>
     number_within 0 64 (te_color_depth t) \<and> number_within 0 100 (te_touch_points t) \<and>
     (case te_screen t of None \<Rightarrow> True | Some (w, h, aw, ah) \<Rightarrow> pixels w \<and> pixels h \<and> pixels aw \<and> pixels ah) \<and>
     (case te_viewport t of None \<Rightarrow> True | Some (w, h) \<Rightarrow> pixels w \<and> pixels h) \<and>
     (case te_hints t of None \<Rightarrow> True | Some hs \<Rightarrow> length hs \<le> 20 \<and> list_all scalar_hint (map snd hs))"

lemma short_text_within [simp]: "text_within n (short_text n v)"
  by (auto simp: text_within_def short_text_def split: option.split json.split)

lemma number_where_within: "(\<And>n. p n \<Longrightarrow> lo \<le> n \<and> n \<le> hi) \<Longrightarrow> number_within lo hi (number_where p v)"
  by (auto simp: number_within_def number_where_def split: option.split json.split)

lemma dimension_pixels [simp]: "pixels (dimension num v)"
  by (auto simp: pixels_def dimension_def split: decimal.split)

lemma languages_within: "languages_of v = Some ls \<Longrightarrow> length ls \<le> 10 \<and> list_all (\<lambda>l. length l \<le> 20) ls"
proof -
  assume h: "languages_of v = Some ls"
  let ?f = "\<lambda>x. case x of JStr s \<Rightarrow> if length s \<le> 20 then Some s else None | _ \<Rightarrow> None"
  obtain xs where ls: "ls = take 10 (List.map_filter ?f xs)"
    using h by (auto simp: languages_of_def split: option.splits json.splits if_splits)
  have "list_all (\<lambda>l. length l \<le> 20) (List.map_filter ?f xs)"
    by (induction xs) (auto simp: map_filter_simps split: json.split)
  then show ?thesis by (auto simp: ls list_all_iff dest: in_set_takeD)
qed

lemma hints_within: "hints_of v = Some hs \<Longrightarrow> length hs \<le> 20 \<and> list_all scalar_hint (map snd hs)"
proof -
  assume h: "hints_of v = Some hs"
  then obtain fs where hs: "hs = filter hint_ok (take 20 fs)"
    by (auto simp: hints_of_def split: option.splits json.splits)
  have "length hs \<le> length (take 20 fs)" unfolding hs by (rule length_filter_le)
  moreover have "list_all scalar_hint (map snd hs)"
    by (auto simp: hs list_all_iff hint_ok_def scalar_hint_def)
  ultimately show ?thesis by simp
qed

lemma sanitize_ok: "telemetry_ok (sanitize num fs)"
  by (auto simp: telemetry_ok_def sanitize_def Let_def intro: number_where_within
    dest: languages_within hints_within split: option.split)

lemma no_telemetry_ok: "telemetry_ok no_telemetry"
  by (simp add: telemetry_ok_def no_telemetry_def text_within_def number_within_def)

section \<open>The reading of user agents\<close>

lemma android_is_linux:
  "ai_os (parseUserAgent ''Mozilla/5.0 (Linux; Android 14; Pixel 8) Chrome/120.0 Mobile Safari/537.36'') = ''Linux''"
  by code_simp

lemma iphone_is_macos:
  "ai_os (parseUserAgent ''Mozilla/5.0 (iPhone; CPU iPhone OS 17_2 like Mac OS X) Version/17.2 Mobile Safari/604.1'') = ''macOS''"
  by code_simp

lemma malformed_range_trusts_all: "isTrustedProxy (\<lambda>_. NaN) (Some ''10.0.0.0/x'') ''203.0.113.9''"
  by code_simp

section \<open>Properties\<close>

text \<open>
  C37. Every telemetry record that leaves the validation is well typed and within its limits, whatever the
  client sent: texts are at most 500, 20, 50 and 100 characters long, there are at most ten languages and
  twenty scalar hints, and dimensions lie between 0 and 100000. The report is valid exactly when the
  payload is an object without any field that the server decides, with one error for each such field.
\<close>

theorem telemetry_sanitised:
  "telemetry_ok (snd (snd (validateTelemetry num j))) \<and>
   (fst (validateTelemetry num j) \<longleftrightarrow>
      (\<exists>fs. object_fields (Some j) = Some fs \<and> (\<nexists>k. k \<in> set forbiddenFields \<and> k \<in> fst ` set fs))) \<and>
   length (fst (snd (validateTelemetry num j))) =
     (case object_fields (Some j) of None \<Rightarrow> 1 | Some fs \<Rightarrow> card (set forbiddenFields \<inter> fst ` set fs))"
proof (cases "object_fields (Some j)")
  case None
  then show ?thesis by (simp add: validateTelemetry_def no_telemetry_ok)
next
  case (Some fs)
  let ?sent = "filter (\<lambda>k. map_of fs k \<noteq> None) forbiddenFields"
  have "distinct forbiddenFields" by code_simp
  then have "distinct ?sent" by (rule distinct_filter)
  then have "length ?sent = card (set ?sent)" by (simp only: distinct_card)
  also have "set ?sent = set forbiddenFields \<inter> fst ` set fs" by (auto simp: map_of_eq_None_iff)
  finally have count: "length ?sent = card (set forbiddenFields \<inter> fst ` set fs)" .
  have "filter (\<lambda>k. map_of fs k \<noteq> None) forbiddenFields = [] \<longleftrightarrow> (\<nexists>k. k \<in> set forbiddenFields \<and> k \<in> fst ` set fs)"
    by (auto simp: filter_empty_conv map_of_eq_None_iff)
  with Some count show ?thesis by (simp add: validateTelemetry_def Let_def sanitize_ok)
qed

text \<open>
  C38. When every configured range has a network of four octets and a prefix length between 0 and 32, a
  socket address is a trusted proxy exactly when it lies in one of the ranges, read as 32-bit numbers: the
  masked loop over the octets computes containment. The address may carry the prefix of a mapped IPv4
  address.
\<close>

theorem proxy_match_exact:
  assumes "list_all2 (denotes_range num) (TRUSTED_PROXY_CIDRS env) ranges"
    and "ip \<noteq> []" "denotes_octets num (strip_prefix ''::ffff:'' ip) xs"
  shows "isTrustedProxy num env ip \<longleftrightarrow> (\<exists>(ns, p) \<in> set ranges. in_range ns p xs)"
proof -
  have "list_ex (cidr_match num (strip_prefix ''::ffff:'' ip)) cs \<longleftrightarrow> (\<exists>(ns, p) \<in> set rs. in_range ns p xs)"
    if "list_all2 (denotes_range num) cs rs" for cs rs
    using that by (induction rule: list_all2_induct) (auto simp: cidr_match_range [OF _ assms(3)])
  with assms(1,2) show ?thesis by (simp add: isTrustedProxy_def)
qed

theorem proxy_match_exact_witness:
  "isTrustedProxy small_number None ''::ffff:172.31.4.9'' \<and> \<not> isTrustedProxy small_number None ''172.32.0.1''"
proof -
  let ?rs = "[([172, 16, 0, 0], 12), ([10, 0, 0, 0], 8), ([127, 0, 0, 0], 8 :: int)]"
  have r: "list_all2 (denotes_range small_number) (TRUSTED_PROXY_CIDRS None) ?rs" by code_simp
  have a: "denotes_octets small_number (strip_prefix ''::ffff:'' ''::ffff:172.31.4.9'') [172, 31, 4, 9]" by code_simp
  have b: "denotes_octets small_number (strip_prefix ''::ffff:'' ''172.32.0.1'') [172, 32, 0, 1]" by code_simp
  have "in_range [172, 16, 0, 0] 12 [172, 31, 4, 9]" by code_simp
  moreover have "list_all (\<lambda>(ns, p). \<not> in_range ns p [172, 32, 0, 1]) ?rs" by code_simp
  ultimately show ?thesis
    using proxy_match_exact [OF r _ a] proxy_match_exact [OF r _ b] by simp
qed

text \<open>
  Redaction leaves no sensitive value at any depth that is reached through objects, keeps the keys in
  order, and redacting twice is redacting once.
\<close>

theorem redaction_complete:
  "\<not> exposes (redact fs) \<and> redact (redact fs) = redact fs \<and>
   map fst (redact fs) = filter (\<lambda>k. k \<noteq> ''__proto__'') (map fst fs)"
  by (simp add: redact_not_exposes redact_idem redact_keys)

end
