(* ===== verification/Gdpr.thy ===== *)
theory Gdpr
  imports Compliance Accounts
begin

text \<open>
  The compliance events and the handling of personal data: the recording and listing of events and the
  endpoints of \<^verbatim>\<open>control/src/modules/compliance\<close>, and the anonymisation, erasure and retention of
  \<^verbatim>\<open>gdpr.service.ts\<close>. A table of events carries the list of its columns, as a statement that names a
  column the table does not have fails; the columns of the two migrations are definitions. What the
  database accepts as a value of a column or as an interval and the printing of numbers are parameters.
\<close>

section \<open>Tables\<close>

record event_row =
  er_user :: "uuid option"
  er_time :: time
  er_data :: "(string \<times> json) list"

record event_table =
  et_columns :: "string list"
  et_rows :: "event_row list"

text \<open>The columns of \<^verbatim>\<open>iam.users\<close> that the account model leaves out.\<close>

record contact_row =
  cn_user :: uuid
  cn_username :: "string option"
  cn_ip :: "string option"
  cn_verified :: bool

record operation_row =
  op_name :: string
  op_target :: "uuid option"
  op_actor :: "uuid option"
  op_details :: "(string \<times> rat) list"
  op_rows :: rat
  op_at :: time

text \<open>The mirror of the events and the log of operations may be absent.\<close>

record compliance_db =
  cp_auth :: auth_db
  cp_contacts :: "contact_row list"
  cp_events :: event_table
  cp_mirror :: "event_table option"
  cp_operations :: "operation_row list option"

record compliance_env =
  ce_auth :: auth_env
  ce_num :: "string \<Rightarrow> decimal"
  ce_text :: "rat \<Rightarrow> string"
  ce_cidrs :: "string option"
  ce_version :: "string option"
  ce_accepts :: "string \<Rightarrow> json \<Rightarrow> bool"
  ce_interval :: "rat \<Rightarrow> bool"

definition client_events_columns :: "string list" where
  "client_events_columns =
     [''event_time'', ''event_id'', ''event_type'', ''request_id'', ''correlation_id'', ''user_id'', ''account_id'',
      ''session_id'', ''prediction_id'', ''http_method'', ''endpoint'', ''http_status'', ''latency_ms'', ''client_ip'',
      ''country_code'', ''country_name'', ''region'', ''city'', ''isp'', ''asn'', ''as_org'', ''user_agent'',
      ''browser_name'', ''browser_version'', ''os_name'', ''os_version'', ''device_type'', ''language'', ''languages'',
      ''timezone'', ''timezone_offset_minutes'', ''screen_width'', ''screen_height'', ''screen_available_width'',
      ''screen_available_height'', ''viewport_width'', ''viewport_height'', ''device_pixel_ratio'', ''color_depth'',
      ''touch_points'', ''client_hints'', ''application_version'', ''metadata'']"

definition client_event_log_columns :: "string list" where
  "client_event_log_columns =
     [''event_id'', ''event_time'', ''event_type'', ''event_version'', ''telemetry_schema_version'', ''request_id'',
      ''correlation_id'', ''user_id'', ''account_id'', ''session_id'', ''source'', ''http_method'', ''endpoint'',
      ''http_status'', ''latency_ms'', ''client_ip'', ''proxy_chain'', ''geo_country_code'', ''geo_region'', ''geo_city'',
      ''isp'', ''asn'', ''as_org'', ''user_agent'', ''browser_name'', ''browser_version'', ''os_name'', ''os_version'',
      ''device_type'', ''language'', ''languages'', ''timezone'', ''timezone_offset_minutes'', ''screen_width'',
      ''screen_height'', ''screen_available_width'', ''screen_available_height'', ''viewport_width'', ''viewport_height'',
      ''device_pixel_ratio'', ''color_depth'', ''touch_points'', ''client_hints'', ''prediction_id'',
      ''application_version'', ''api_version'', ''risk_flags'', ''metadata'', ''created_at'']"

section \<open>Recording an event\<close>

record audit_input =
  ae_type :: string
  ae_version :: "rat option"
  ae_user :: "uuid option"
  ae_account :: "string option"
  ae_session :: "string option"
  ae_request :: "string option"
  ae_correlation :: "string option"
  ae_method :: "string option"
  ae_endpoint :: "string option"
  ae_status :: "rat option"
  ae_latency :: "rat option"
  ae_ip :: "string option"
  ae_chain :: "string list option"
  ae_agent :: "string option"
  ae_prediction :: "string option"
  ae_risk :: "(string \<times> json) list option"
  ae_metadata :: "(string \<times> json) list option"
  ae_telemetry :: "telemetry option"
  ae_geo :: "string option \<times> string option \<times> string option \<times> string option \<times> rat option \<times> string option"

definition json_string :: "string option \<Rightarrow> json" where
  "json_string v = (case v of Some s \<Rightarrow> JStr s | None \<Rightarrow> JNull)"

definition json_number :: "rat option \<Rightarrow> json" where
  "json_number v = (case v of Some n \<Rightarrow> JNum n | None \<Rightarrow> JNull)"

text \<open>\<^verbatim>\<open>n || null\<close>\<close>

definition number_or_null :: "rat option \<Rightarrow> json" where
  "number_or_null v = (case v of Some n \<Rightarrow> if n = 0 then JNull else JNum n | None \<Rightarrow> JNull)"

definition telemetry_values :: "telemetry \<Rightarrow> (string \<times> json) list" where
  "telemetry_values t =
     [(''language'', json_string (or_null (te_language t))),
      (''languages'', (case te_languages t of Some ls \<Rightarrow> JArr (map JStr ls) | None \<Rightarrow> JNull)),
      (''timezone'', json_string (or_null (te_timezone t))), (''timezone_offset_minutes'', number_or_null (te_offset t)),
      (''screen_width'', number_or_null (map_option (\<lambda>(w, h, aw, ah). w) (te_screen t))),
      (''screen_height'', number_or_null (map_option (\<lambda>(w, h, aw, ah). h) (te_screen t))),
      (''screen_available_width'', number_or_null (map_option (\<lambda>(w, h, aw, ah). aw) (te_screen t))),
      (''screen_available_height'', number_or_null (map_option (\<lambda>(w, h, aw, ah). ah) (te_screen t))),
      (''viewport_width'', number_or_null (map_option fst (te_viewport t))),
      (''viewport_height'', number_or_null (map_option snd (te_viewport t))),
      (''device_pixel_ratio'', number_or_null (te_pixel_ratio t)), (''color_depth'', number_or_null (te_color_depth t)),
      (''touch_points'', number_or_null (te_touch_points t)),
      (''client_hints'', (case te_hints t of Some hs \<Rightarrow> JObj hs | None \<Rightarrow> JNull))]"

definition geo_values :: "audit_input \<Rightarrow> (string \<times> json) list" where
  "geo_values i =
     (case ae_geo i of (country, region, city, isp, asn, org) \<Rightarrow>
        [(''geo_country_code'', json_string (or_null country)), (''geo_region'', json_string (or_null region)),
         (''geo_city'', json_string (or_null city)), (''isp'', json_string (or_null isp)), (''asn'', number_or_null asn),
         (''as_org'', json_string (or_null org))])"

definition agent_values :: "string \<Rightarrow> (string \<times> json) list" where
  "agent_values ua =
     (let a = parseUserAgent ua in
      [(''user_agent'', JStr ua), (''browser_name'', JStr (ai_browser a)), (''browser_version'', JStr (ai_version a)),
       (''os_name'', JStr (ai_os a)), (''os_version'', JStr (ai_os_version a)), (''device_type'', JStr (ai_device a))])"

definition redacted :: "(string \<times> json) list option \<Rightarrow> json" where
  "redacted v = (case v of Some fs \<Rightarrow> JObj (redact fs) | None \<Rightarrow> JNull)"

definition event_values :: "compliance_env \<Rightarrow> string \<Rightarrow> audit_input \<Rightarrow> (string \<times> json) list" where
  "event_values E eid i =
     [(''event_id'', JStr eid), (''event_type'', JStr (ae_type i)),
      (''event_version'', JNum (case ae_version i of Some n \<Rightarrow> if n = 0 then 1 else n | None \<Rightarrow> 1)),
      (''telemetry_schema_version'', JNum 1), (''request_id'', json_string (ae_request i)),
      (''correlation_id'', json_string (ae_correlation i)), (''account_id'', json_string (ae_account i)),
      (''session_id'', json_string (ae_session i)), (''source'', JStr ''nestjs''), (''http_method'', json_string (ae_method i)),
      (''endpoint'', json_string (ae_endpoint i)), (''http_status'', json_number (ae_status i)),
      (''latency_ms'', json_number (ae_latency i)), (''client_ip'', json_string (ae_ip i)),
      (''proxy_chain'', JArr (map JStr (coalesce_text (ae_chain i) [])))] @
     geo_values i @ agent_values (or_string (ae_agent i) []) @
     telemetry_values (coalesce_text (ae_telemetry i) no_telemetry) @
     [(''prediction_id'', json_string (or_null (ae_prediction i))),
      (''application_version'', JStr (or_string (ce_version E) ''1.0.0'')), (''api_version'', JStr ''v1''),
      (''risk_flags'', redacted (ae_risk i)), (''metadata'', redacted (ae_metadata i))]"

definition insert_event :: "compliance_env \<Rightarrow> event_row \<Rightarrow> event_table \<Rightarrow> event_table result" where
  "insert_event E r t =
     (if \<not> set (''user_id'' # ''event_time'' # map fst (er_data r)) \<subseteq> set (et_columns t) then Inl (SqlError ''42703'')
      else if \<not> list_all (\<lambda>(c, v). ce_accepts E c v) (er_data r) then Inl (SqlError ''22P02'')
      else Inr (t\<lparr>et_rows := et_rows t @ [r]\<rparr>))"

text \<open>An error is logged and swallowed.\<close>

definition recordEvent :: "compliance_env \<Rightarrow> time \<Rightarrow> string \<Rightarrow> audit_input \<Rightarrow> compliance_db \<Rightarrow> compliance_db" where
  "recordEvent E now eid i db =
     (case insert_event E \<lparr>er_user = ae_user i, er_time = now, er_data = event_values E eid i\<rparr> (cp_events db) of
        Inl e \<Rightarrow> db
      | Inr t \<Rightarrow> db\<lparr>cp_events := t\<rparr>)"

definition list_events ::
  "int option \<Rightarrow> int option \<Rightarrow> uuid option \<Rightarrow> string option \<Rightarrow> compliance_db \<Rightarrow> (event_row list \<times> nat) result" where
  "list_events page limit user ty db =
     (case (page, limit) of
        (Some p, Some l) \<Rightarrow>
          (let found = filter (\<lambda>r. (case user of Some u \<Rightarrow> er_user r = Some u | None \<Rightarrow> True) \<and>
                 (case or_null ty of Some x \<Rightarrow> map_of (er_data r) ''event_type'' = Some (JStr x) | None \<Rightarrow> True))
                 (et_rows (cp_events db)) in
           if l < 0 then Inl (SqlError ''2201W'')
           else if (p - 1) * l < 0 then Inl (SqlError ''2201X'')
           else Inr (take (nat l) (drop (nat ((p - 1) * l)) (sort_key (\<lambda>r. - er_time r) found)),
             length (et_rows (cp_events db))))
      | _ \<Rightarrow> Inl (SqlError ''22P02''))"

section \<open>The endpoints of the events\<close>

record compliance_request =
  cr_headers :: proxy_headers
  cr_request_id :: "string option"
  cr_correlation :: "string option"
  cr_correlation_header :: "string option"
  cr_agent :: "string option"
  cr_method :: string
  cr_path :: string
  cr_remote :: "string option"
  cr_ip :: "string option"

definition blank_input :: audit_input where
  "blank_input = \<lparr>ae_type = [], ae_version = None, ae_user = None, ae_account = None, ae_session = None, ae_request = None,
     ae_correlation = None, ae_method = None, ae_endpoint = None, ae_status = None, ae_latency = None, ae_ip = None,
     ae_chain = None, ae_agent = None, ae_prediction = None, ae_risk = None, ae_metadata = None, ae_telemetry = None,
     ae_geo = (None, None, None, None, None, None)\<rparr>"

definition telemetry_event ::
  "string \<times> string list \<Rightarrow> bool \<times> string list \<times> telemetry \<Rightarrow> compliance_request \<Rightarrow> uuid \<Rightarrow> audit_input" where
  "telemetry_event client checked rq u = blank_input
     \<lparr>ae_type := ''TELEMETRY_RECEIVED'', ae_user := Some u, ae_request := or_null (cr_request_id rq),
      ae_correlation := (case or_null (cr_correlation rq) of Some c \<Rightarrow> Some c | None \<Rightarrow> or_null (cr_correlation_header rq)),
      ae_method := Some (cr_method rq), ae_endpoint := Some (cr_path rq), ae_ip := Some (fst client),
      ae_chain := Some (snd client), ae_agent := Some (or_string (cr_agent rq) []),
      ae_telemetry := Some (snd (snd checked)),
      ae_metadata := Some [(''validation_errors'', JArr (map JStr (fst (snd checked))))],
      ae_risk := (if fst checked then None else Some [(''invalid_telemetry'', JBool True)])\<rparr>"

definition receiveTelemetry ::
  "compliance_env \<Rightarrow> time \<Rightarrow> string \<Rightarrow> json \<Rightarrow> compliance_request \<Rightarrow> uuid \<Rightarrow> compliance_db \<Rightarrow> (string \<times> bool) \<times> compliance_db" where
  "receiveTelemetry E now eid body rq u db =
     (let checked = validateTelemetry (ce_num E) body;
          socket = (case or_null (cr_remote rq) of Some a \<Rightarrow> a | None \<Rightarrow> or_string (cr_ip rq) []);
          client = extractClientIp (ce_num E) (ce_cidrs E) (cr_headers rq) socket in
      ((''recorded'', fst checked), recordEvent E now eid (telemetry_event client checked rq u) db))"

definition optional_field :: "string \<Rightarrow> string option \<Rightarrow> (string \<times> json) list" where
  "optional_field k v = (case v of Some s \<Rightarrow> [(k, JStr s)] | None \<Rightarrow> [])"

definition listEvents ::
  "compliance_env \<Rightarrow> time \<Rightarrow> string \<Rightarrow> string \<Rightarrow> string \<Rightarrow> compliance_request \<Rightarrow> uuid option \<Rightarrow> uuid option \<Rightarrow> string option \<Rightarrow>
   (compliance_db, event_row list \<times> nat) handler" where
  "listEvents E now eid page limit rq admin user ty db =
     (let client = extractClientIp (ce_num E) (ce_cidrs E) (cr_headers rq) (or_string (cr_remote rq) []);
          query = [(''page'', JStr page), (''limit'', JStr limit)] @
            optional_field ''userId'' (map_option (a_uuid (ce_auth E)) user) @ optional_field ''eventType'' ty;
          db1 = recordEvent E now eid (blank_input
            \<lparr>ae_type := ''ADMIN_AUDIT_VIEW'', ae_user := admin, ae_method := Some ''GET'',
             ae_endpoint := Some ''/api/v1/audit/events'', ae_ip := Some (fst client), ae_chain := Some (snd client),
             ae_agent := Some (or_string (cr_agent rq) []), ae_metadata := Some [(''query'', JObj query)]\<rparr>) db in
      (list_events (js_parseInt page) (map_option (min 200) (js_parseInt limit)) user ty db1, db1))"

section \<open>Personal data\<close>

definition PII :: "string list" where
  "PII = [''client_ip'', ''proxy_chain'', ''geo_country_code'', ''geo_region'', ''geo_city'', ''isp'', ''asn'', ''as_org'',
     ''user_agent'', ''browser_name'', ''browser_version'', ''os_name'', ''os_version'', ''device_type'', ''languages'',
     ''client_hints'']"

definition scrub :: "event_row \<Rightarrow> event_row" where
  "scrub r = r\<lparr>er_data := map (\<lambda>(c, v). (c, if c \<in> set PII then JNull else v)) (er_data r)\<rparr>"

definition scrub_events :: "(event_row \<Rightarrow> bool) \<Rightarrow> event_table \<Rightarrow> (nat \<times> event_table) result" where
  "scrub_events p t =
     (if set PII \<subseteq> set (et_columns t)
      then Inr (count_rows p (et_rows t), t\<lparr>et_rows := update_rows p scrub (et_rows t)\<rparr>)
      else Inl (SqlError ''42703''))"

text \<open>The mirror is scrubbed when it is there; an error there is swallowed.\<close>

definition scrub_mirror :: "(event_row \<Rightarrow> bool) \<Rightarrow> compliance_db \<Rightarrow> compliance_db" where
  "scrub_mirror p db =
     (case cp_mirror db of
        None \<Rightarrow> db
      | Some m \<Rightarrow> (case scrub_events p m of Inl e \<Rightarrow> db | Inr (n, m') \<Rightarrow> db\<lparr>cp_mirror := Some m'\<rparr>))"

definition scrub_both :: "(event_row \<Rightarrow> bool) \<Rightarrow> (compliance_db, nat) handler" where
  "scrub_both p db =
     (case scrub_events p (cp_events db) of
        Inl e \<Rightarrow> (Inl e, db)
      | Inr (n, t) \<Rightarrow> (Inr n, scrub_mirror p (db\<lparr>cp_events := t\<rparr>)))"

definition anonymizeClientEventsForUser :: "uuid \<Rightarrow> (compliance_db, nat) handler" where
  "anonymizeClientEventsForUser u = scrub_both (\<lambda>r. er_user r = Some u)"

definition anonymizedEmail :: "compliance_env \<Rightarrow> uuid \<Rightarrow> string" where
  "anonymizedEmail E u = ''gdpr-erased-'' @ take 16 (a_sha (ce_auth E) (a_uuid (ce_auth E) u)) @ ''@anonymized.local''"

text \<open>The log of operations, and the audit log when that table is absent.\<close>

definition logOperation ::
  "compliance_env \<Rightarrow> time \<Rightarrow> string \<Rightarrow> uuid option \<Rightarrow> uuid option \<Rightarrow> (string \<times> rat) list \<Rightarrow> compliance_db \<Rightarrow> compliance_db" where
  "logOperation E now operation target actor details db =
     (case cp_operations db of
        Some ops \<Rightarrow> db\<lparr>cp_operations := Some (ops @ [\<lparr>op_name = operation, op_target = target, op_actor = actor,
          op_details = details,
          op_rows = (case map_of details ''clientEventRows'' of Some n \<Rightarrow> n
            | None \<Rightarrow> coalesce_text (map_of details ''anonymizedRows'') 0),
          op_at = now\<rparr>])\<rparr>
      | None \<Rightarrow> db\<lparr>cp_auth := (cp_auth db)\<lparr>audit_events := audit_events (cp_auth db) @
          [\<lparr>au_actor_type = ''ADMIN'', au_actor = actor, au_action = operation, au_entity = target, au_reason = None,
            au_value = map (\<lambda>(k, v). (k, ce_text E v)) details, au_created_at = now\<rparr>]\<rparr>\<rparr>)"

definition anonymous_user :: "compliance_env \<Rightarrow> time \<Rightarrow> uuid \<Rightarrow> user_row \<Rightarrow> user_row" where
  "anonymous_user E now u r = r\<lparr>us_email := anonymizedEmail E u, us_name := None, us_updated_at := now\<rparr>"

definition erased_user :: "compliance_env \<Rightarrow> time \<Rightarrow> uuid \<Rightarrow> user_row \<Rightarrow> user_row" where
  "erased_user E now u r = (anonymous_user E now u r)\<lparr>us_password := ''ERASED'', us_status := ''DELETED''\<rparr>"

text \<open>The update of the account fails when the address is taken by another account.\<close>

definition update_account ::
  "compliance_env \<Rightarrow> (user_row \<Rightarrow> user_row) \<Rightarrow> uuid \<Rightarrow> (compliance_db, nat) handler" where
  "update_account E f u db =
     (if exists_row (\<lambda>r. us_id r = u) (users (cp_auth db)) \<and>
         exists_row (\<lambda>r. us_id r \<noteq> u \<and> us_email r = anonymizedEmail E u) (users (cp_auth db))
      then (Inl (SqlError ''23505''), db)
      else (Inr (count_rows (\<lambda>r. us_id r = u) (users (cp_auth db))),
        db\<lparr>cp_auth := (cp_auth db)\<lparr>users := update_rows (\<lambda>r. us_id r = u) f (users (cp_auth db))\<rparr>,
           cp_contacts := update_rows (\<lambda>c. cn_user c = u)
             (\<lambda>c. c\<lparr>cn_username := None, cn_ip := None, cn_verified := False\<rparr>) (cp_contacts db)\<rparr>))"

record gdpr_result =
  gr_user :: uuid
  gr_users :: nat
  gr_events :: nat

definition account_operation ::
  "compliance_env \<Rightarrow> time \<Rightarrow> string \<Rightarrow> (user_row \<Rightarrow> user_row) \<Rightarrow> uuid \<Rightarrow> uuid option \<Rightarrow> (compliance_db, gdpr_result) handler" where
  "account_operation E now operation f u actor db =
     (case update_account E f u db of
        (Inl e, db1) \<Rightarrow> (Inl e, db1)
      | (Inr n, db1) \<Rightarrow>
          (case anonymizeClientEventsForUser u db1 of
             (Inl e, db2) \<Rightarrow> (Inl e, db2)
           | (Inr k, db2) \<Rightarrow>
               (Inr \<lparr>gr_user = u, gr_users = n, gr_events = k\<rparr>,
                logOperation E now operation (Some u) actor [(''userRows'', of_nat n), (''clientEventRows'', of_nat k)] db2)))"

definition anonymizeUser :: "compliance_env \<Rightarrow> time \<Rightarrow> uuid \<Rightarrow> uuid option \<Rightarrow> (compliance_db, gdpr_result) handler" where
  "anonymizeUser E now u actor = account_operation E now ''GDPR_USER_ANONYMIZED'' (anonymous_user E now u) u actor"

definition eraseUser :: "compliance_env \<Rightarrow> time \<Rightarrow> uuid \<Rightarrow> uuid option \<Rightarrow> (compliance_db, gdpr_result) handler" where
  "eraseUser E now u actor = account_operation E now ''GDPR_USER_ERASURE'' (erased_user E now u) u actor"

text \<open>Only a positive number is taken as the age in days.\<close>

definition retention_days :: "json option \<Rightarrow> rat" where
  "retention_days d = (case d of Some (JNum n) \<Rightarrow> if n > 0 then n else 365 | _ \<Rightarrow> 365)"

definition older_than :: "time \<Rightarrow> rat \<Rightarrow> event_row \<Rightarrow> bool" where
  "older_than now d r \<longleftrightarrow> of_int (er_time r) < of_int now - d * 86400000"

definition applyRetention :: "compliance_env \<Rightarrow> time \<Rightarrow> json option \<Rightarrow> uuid option \<Rightarrow> (compliance_db, nat) handler" where
  "applyRetention E now d actor db =
     (let cutoff = retention_days d in
      if set PII \<subseteq> set (et_columns (cp_events db)) \<and> \<not> ce_interval E cutoff then (Inl (SqlError ''22008''), db)
      else
        (case scrub_both (older_than now cutoff) db of
           (Inl e, db1) \<Rightarrow> (Inl e, db1)
         | (Inr n, db1) \<Rightarrow>
             (Inr n, logOperation E now ''GDPR_RETENTION_RUN'' None actor [(''days'', cutoff), (''anonymizedRows'', of_nat n)] db1)))"


section \<open>What scrubbing does\<close>

text \<open>A row without personal data.\<close>

definition anonymous :: "event_row \<Rightarrow> bool" where
  "anonymous r \<longleftrightarrow> (\<forall>c v. (c, v) \<in> set (er_data r) \<longrightarrow> c \<in> set PII \<longrightarrow> v = JNull)"

lemma scrub_anonymous [simp]: "anonymous (scrub r)"
  by (auto simp: anonymous_def scrub_def)

lemma scrub_keeps [simp]: "er_user (scrub r) = er_user r" "er_time (scrub r) = er_time r"
  by (simp_all add: scrub_def)

lemma older_scrub [simp]: "older_than now d (scrub r) = older_than now d r"
  by (simp add: older_than_def)

text \<open>The table after a scrub: the selected rows anonymous, the others as they were.\<close>

definition scrubbed :: "(event_row \<Rightarrow> bool) \<Rightarrow> event_table \<Rightarrow> event_table \<Rightarrow> bool" where
  "scrubbed p t t' \<longleftrightarrow> et_columns t' = et_columns t \<and> et_rows t' = map (\<lambda>r. if p r then scrub r else r) (et_rows t) \<and>
     (\<forall>r\<in>set (et_rows t'). p r \<longrightarrow> anonymous r) \<and> filter (\<lambda>r. \<not> p r) (et_rows t') = filter (\<lambda>r. \<not> p r) (et_rows t)"

lemma scrub_events_scrubbed:
  assumes "\<And>r. p (scrub r) = p r" "scrub_events p t = Inr (n, t')"
  shows "scrubbed p t t' \<and> n = count_rows p (et_rows t)"
proof -
  have t': "t' = t\<lparr>et_rows := update_rows p scrub (et_rows t)\<rparr>" and n: "n = count_rows p (et_rows t)"
    using assms(2) by (auto simp: scrub_events_def split: if_splits)
  have rows: "et_rows t' = map (\<lambda>r. if p r then scrub r else r) (et_rows t)" and cols: "et_columns t' = et_columns t"
    by (simp_all add: t' update_rows_def)
  have "filter (\<lambda>r. \<not> p r) (map (\<lambda>r. if p r then scrub r else r) rs) = filter (\<lambda>r. \<not> p r) rs" for rs
    by (induction rs) (simp_all add: assms(1))
  moreover have "\<forall>r\<in>set (map (\<lambda>r. if p r then scrub r else r) rs). p r \<longrightarrow> anonymous r" for rs
    by (auto simp: assms(1))
  ultimately show ?thesis by (simp only: scrubbed_def rows cols n simp_thms)
qed

definition has_columns :: "event_table \<Rightarrow> bool" where
  "has_columns t \<longleftrightarrow> set PII \<subseteq> set (et_columns t)"

lemma scrub_events_total: "has_columns t \<Longrightarrow> \<exists>t'. scrub_events p t = Inr (count_rows p (et_rows t), t')"
  by (simp add: scrub_events_def has_columns_def)

lemma scrub_both_effect:
  assumes "\<And>r. p (scrub r) = p r" "has_columns (cp_events db)"
  shows "\<exists>db'. scrub_both p db = (Inr (count_rows p (et_rows (cp_events db))), db') \<and>
    scrubbed p (cp_events db) (cp_events db') \<and>
    (\<forall>m. cp_mirror db = Some m \<and> has_columns m \<longrightarrow> (\<exists>m'. cp_mirror db' = Some m' \<and> scrubbed p m m')) \<and>
    cp_auth db' = cp_auth db \<and> cp_contacts db' = cp_contacts db \<and> cp_operations db' = cp_operations db"
proof -
  obtain t where t: "scrub_events p (cp_events db) = Inr (count_rows p (et_rows (cp_events db)), t)"
    using scrub_events_total [OF assms(2)] by blast
  let ?db = "scrub_mirror p (db\<lparr>cp_events := t\<rparr>)"
  have "scrub_both p db = (Inr (count_rows p (et_rows (cp_events db))), ?db)" by (simp add: scrub_both_def t)
  moreover have "cp_events ?db = t" "cp_auth ?db = cp_auth db" "cp_contacts ?db = cp_contacts db" "cp_operations ?db = cp_operations db"
    by (auto simp: scrub_mirror_def split: option.split sum.split)
  moreover have "\<exists>m'. cp_mirror ?db = Some m' \<and> scrubbed p m m'" if m: "cp_mirror db = Some m" "has_columns m" for m
  proof -
    obtain m' where m': "scrub_events p m = Inr (count_rows p (et_rows m), m')" using scrub_events_total [OF m(2)] by blast
    then have "cp_mirror ?db = Some m'" by (simp add: scrub_mirror_def m(1))
    with scrub_events_scrubbed [OF assms(1) m'] show ?thesis by blast
  qed
  ultimately show ?thesis using scrub_events_scrubbed [OF assms(1) t] by auto
qed

definition operation_logged :: "string \<Rightarrow> uuid option \<Rightarrow> uuid option \<Rightarrow> time \<Rightarrow> compliance_db \<Rightarrow> bool" where
  "operation_logged name target actor now db \<longleftrightarrow>
     (case cp_operations db of
        Some ops \<Rightarrow> exists_row (\<lambda>r. op_name r = name \<and> op_target r = target \<and> op_actor r = actor \<and> op_at r = now) ops
      | None \<Rightarrow> exists_row (\<lambda>r. au_action r = name \<and> au_entity r = target \<and> au_actor r = actor \<and> au_created_at r = now)
          (audit_events (cp_auth db)))"

lemma logOperation_logged [simp]: "operation_logged name target actor now (logOperation E now name target actor det db)"
  by (simp add: operation_logged_def logOperation_def split: option.split)

lemma logOperation_frames [simp]:
  "users (cp_auth (logOperation E now name target actor det db)) = users (cp_auth db)"
  "sessions (cp_auth (logOperation E now name target actor det db)) = sessions (cp_auth db)"
  "login_events (cp_auth (logOperation E now name target actor det db)) = login_events (cp_auth db)"
  "cp_events (logOperation E now name target actor det db) = cp_events db"
  "cp_mirror (logOperation E now name target actor det db) = cp_mirror db"
  "cp_contacts (logOperation E now name target actor det db) = cp_contacts db"
  by (simp_all add: logOperation_def split: option.split)

section \<open>An account that is closed opens no session\<close>

text \<open>From one state to the next, nothing happens for the account \<open>u\<close>: its status stays, it gets no session and no challenge.\<close>

definition inert :: "uuid \<Rightarrow> auth_db \<Rightarrow> auth_db \<Rightarrow> bool" where
  "inert u db db' \<longleftrightarrow>
     (\<forall>r'\<in>set (users db'). us_id r' = u \<longrightarrow> (\<exists>r\<in>set (users db). us_id r = u \<and> us_status r = us_status r')) \<and>
     us_id ` set (users db) \<subseteq> us_id ` set (users db') \<and>
     (\<forall>s'\<in>set (sessions db'). ss_user s' = u \<longrightarrow> (\<exists>s\<in>set (sessions db). ss_user s = u \<and> ss_id s = ss_id s')) \<and>
     (\<forall>e\<in>set (login_events db'). ev_type e = ''MFA_CHALLENGE'' \<and> ev_user e = Some u \<longrightarrow> e \<in> set (login_events db))"

lemma inert_refl [simp]: "inert u db db"
  by (auto simp: inert_def)

lemma inert_trans [trans]:
  assumes a: "inert u db x" and b: "inert u x db'"
  shows "inert u db db'"
  unfolding inert_def
proof (intro conjI ballI impI)
  fix r' assume "r' \<in> set (users db')" "us_id r' = u"
  then obtain r1 where "r1 \<in> set (users x)" "us_id r1 = u" "us_status r1 = us_status r'" using b unfolding inert_def by blast
  moreover from this obtain r where "r \<in> set (users db)" "us_id r = u" "us_status r = us_status r1" using a unfolding inert_def by blast
  ultimately show "\<exists>r\<in>set (users db). us_id r = u \<and> us_status r = us_status r'" by (intro bexI [of _ r]) simp_all
next
  show "us_id ` set (users db) \<subseteq> us_id ` set (users db')" using a b unfolding inert_def by (meson subset_trans)
next
  fix s' assume "s' \<in> set (sessions db')" "ss_user s' = u"
  then obtain s1 where "s1 \<in> set (sessions x)" "ss_user s1 = u" "ss_id s1 = ss_id s'" using b unfolding inert_def by blast
  moreover from this obtain s where "s \<in> set (sessions db)" "ss_user s = u" "ss_id s = ss_id s1" using a unfolding inert_def by blast
  ultimately show "\<exists>s\<in>set (sessions db). ss_user s = u \<and> ss_id s = ss_id s'" by (intro bexI [of _ s]) simp_all
next
  fix e assume "e \<in> set (login_events db')" "ev_type e = ''MFA_CHALLENGE'' \<and> ev_user e = Some u"
  then show "e \<in> set (login_events db)" using a b unfolding inert_def by blast
qed

lemma inert_same:
  "users db' = users db \<Longrightarrow> sessions db' = sessions db \<Longrightarrow> login_events db' = login_events db \<Longrightarrow> inert u db db'"
  by (auto simp: inert_def)

lemma inert_users:
  assumes f: "\<And>r. us_id (f r) = us_id r" "\<And>r. us_status (f r) = us_status r"
  shows "inert u db (db\<lparr>users := update_rows p f (users db)\<rparr>)"
  unfolding inert_def
proof (intro conjI ballI impI)
  let ?g = "\<lambda>r. if p r then f r else r"
  have g: "us_id (?g r) = us_id r" "us_status (?g r) = us_status r" for r by (simp_all add: f)
  fix r' assume r': "r' \<in> set (users (db\<lparr>users := update_rows p f (users db)\<rparr>))" "us_id r' = u"
  then obtain r where "r \<in> set (users db)" "r' = ?g r" by (auto simp: update_rows_def)
  with g r'(2) show "\<exists>r\<in>set (users db). us_id r = u \<and> us_status r = us_status r'" by metis
next
  show "us_id ` set (users db) \<subseteq> us_id ` set (users (db\<lparr>users := update_rows p f (users db)\<rparr>))"
  proof (rule image_subsetI)
    fix r assume "r \<in> set (users db)"
    then have "us_id (if p r then f r else r) \<in> us_id ` set (update_rows p f (users db))"
      unfolding set_update_rows by (intro imageI)
    then show "us_id r \<in> us_id ` set (users (db\<lparr>users := update_rows p f (users db)\<rparr>))" by (simp add: f split: if_splits)
  qed
qed auto

lemma inert_log: "ty \<noteq> ''MFA_CHALLENGE'' \<or> v \<noteq> Some u \<Longrightarrow> inert u db (logLoginEvent now v ty m db)"
  by (auto simp: inert_def logLoginEvent_def)

lemma inert_revoked:
  assumes "sessions db' = update_rows p (\<lambda>s. s\<lparr>ss_revoked_at := t\<rparr>) (sessions db)" "users db' = users db" "login_events db' = login_events db"
  shows "inert u db db'"
  unfolding inert_def
proof (intro conjI ballI impI)
  let ?g = "\<lambda>s. if p s then s\<lparr>ss_revoked_at := t\<rparr> else s"
  fix s' assume s': "s' \<in> set (sessions db')" "ss_user s' = u"
  have g: "ss_user (?g s) = ss_user s" "ss_id (?g s) = ss_id s" for s by simp_all
  from s' obtain s where "s \<in> set (sessions db)" "s' = ?g s" by (auto simp: assms(1) update_rows_def)
  with g s'(2) show "\<exists>s\<in>set (sessions db). ss_user s = u \<and> ss_id s = ss_id s'" by metis
qed (use assms in auto)

lemma inert_session:
  "createSession E now fr v em db = Inr (tok, db') \<Longrightarrow> v \<noteq> u \<Longrightarrow> inert u db db'"
  by (auto simp: inert_def createSession_Inr insert_session_Inr new_session_def)

lemma inert_record: "inert u db (record_login now v db)"
  unfolding record_login_def by (rule inert_users) simp_all

lemma inert_set_password: "inert u db (set_password E now fr v pw db)"
  unfolding set_password_def by (rule inert_users) simp_all

lemma inert_consents: "inert u db (record_consents now d v db)"
proof -
  let ?db = "db\<lparr>client_events := client_events db @ map (\<lambda>(t, a). (v, t, a)) (consents d)\<rparr>"
  let ?f = "\<lambda>r. r\<lparr>us_marketing := rd_marketing d, us_consent := Some (consentVersion, now), us_updated_at := now\<rparr>"
  have "inert u ?db (?db\<lparr>users := update_rows (\<lambda>r. us_id r = v) ?f (users ?db)\<rparr>)" by (rule inert_users) simp_all
  then have "inert u ?db (record_consents now d v db)" by (simp add: record_consents_def)
  with inert_same [of ?db db u] show ?thesis by (auto intro: inert_trans)
qed

lemma inert_fail: "inert u db (fail_password now v db)"
  unfolding fail_password_def Let_def by (rule inert_trans [OF inert_users inert_log]) simp_all

lemma inert_finish: "us_id v \<noteq> u \<Longrightarrow> inert u db (snd (finish_login E now fr v enrol db))"
proof -
  assume v: "us_id v \<noteq> u"
  have "inert u db (logLoginEvent now (Some (us_id v)) ''LOGIN_SUCCESS'' [] (record_login now (us_id v) db))"
    by (rule inert_trans [OF inert_record inert_log]) simp
  then show ?thesis
    by (auto simp: finish_login_def Let_def split: sum.split intro: inert_trans [OF _ inert_session [OF _ v]])
qed

lemma inert_challenge: "us_id v \<noteq> u \<Longrightarrow> inert u db (snd (challenge now fr v db))"
  by (auto simp: inert_def challenge_def)

lemma inert_trusted: 
  assumes v: "us_id v \<noteq> u"
  shows "inert u db (snd (trusted_login E now fr v enrol role trusted db))"
proof (cases "or_null trusted")
  case None
  then show ?thesis using inert_challenge [OF v] by (simp add: trusted_login_def)
next
  case (Some raw)
  obtain res db1 where c: "consumeTrustedDevice E now fr (us_id v) raw db = (res, db1)" by fastforce
  have i: "inert u db db1" using consume_frames [OF c] by (intro inert_same) simp_all
  have l: "inert u db (logLoginEvent now (Some (us_id v)) ''LOGIN_SUCCESS'' m db2)"
    if "createSession E now fr (us_id v) (us_email v) db1 = Inr (tok, db2)" for m db2 tok
    using inert_trans [OF i inert_session [OF that v]] by (rule inert_trans) (rule inert_log, simp)
  show ?thesis
    using i l inert_trans [OF i inert_challenge [OF v]]
    by (auto simp: trusted_login_def Some c split: sum.split option.split)
qed

lemma inert_login:
  assumes closed: "\<And>r. r \<in> set (users db) \<Longrightarrow> us_id r = u \<Longrightarrow> us_status r \<noteq> ''ACTIVE''"
  shows "inert u db (snd (login E now fr d tr db))"
proof (cases "first_row (\<lambda>v. us_email v = ld_email d) (users db)")
  case None
  then show ?thesis by (simp add: login_def)
next
  case (Some v)
  show ?thesis
  proof (cases "us_status v = ''ACTIVE''")
    case True
    with closed first_row_Some [OF Some] have v: "us_id v \<noteq> u" by blast
    have log: "inert u x (logLoginEvent now (Some (us_id v)) ty m x)" for ty m x by (rule inert_log) (simp add: v)
    have chk: "inert u x (snd (check_factor E now fr v enrol role mfa code tr x))" for x enrol role mfa code
      using inert_finish [OF v, of x] inert_trusted [OF v, of x] inert_trans [OF log inert_finish [OF v]] log
      by (auto simp: check_factor_def split: option.split)
    have "inert u db (snd (second_factor E now fr v (ld_mfa d) tr db))"
      using chk inert_trans [OF log chk] by (simp add: second_factor_def Let_def)
    then show ?thesis using inert_fail by (simp add: login_def Some True)
  qed (simp add: login_def Some)
qed

lemma inert_register:
  assumes "u \<in> us_id ` set (users db)"
  shows "inert u db (snd (register E now fr d db))"
proof (cases "missing_consent d = None \<and> \<not> exists_row (\<lambda>v. us_email v = rd_email d) (users db) \<and>
    \<not> exists_row (\<lambda>v. us_id v = af_user fr) (users db)")
  case True
  with assms have n: "af_user fr \<noteq> u" by (auto simp: list_ex_iff)
  let ?db1 = "log_audit now ''system'' (af_user fr) ''iam.user.registered_pending_approval'' ''Awaiting admin approval''
    [(''status'', ''PENDING'')] (db\<lparr>users := users db @ [new_user E now fr d]\<rparr>)"
  have i1: "inert u db ?db1" using n by (auto simp: inert_def new_user_def log_audit_def)
  have i3: "inert u db (record_consents now d (af_user fr) (insert_referral_code E (af_user fr) db2))"
    if "attribute_referral d (af_user fr) ?db1 = Inr db2" for db2
  proof -
    have "inert u ?db1 db2" using attribute_frames [OF that] by (intro inert_same) simp_all
    also have "inert u db2 (insert_referral_code E (af_user fr) db2)" by (rule inert_same) simp_all
    also have "inert u \<dots> (record_consents now d (af_user fr) (insert_referral_code E (af_user fr) db2))" by (rule inert_consents)
    finally show ?thesis by (rule inert_trans [OF i1])
  qed
  show ?thesis
    using True i1 i3 inert_trans [OF i3 inert_session [OF _ n]]
    by (auto simp: register_def Let_def split: sum.split option.split)
qed (auto simp: register_def split: option.split)


text \<open>An account that is not active; the challenges it has drawn are from before \<open>t\<close>.\<close>

definition account_closed :: "uuid \<Rightarrow> time \<Rightarrow> auth_db \<Rightarrow> bool" where
  "account_closed u t db \<longleftrightarrow>
     u \<in> us_id ` set (users db) \<and> (\<forall>r\<in>set (users db). us_id r = u \<longrightarrow> us_status r \<noteq> ''ACTIVE'') \<and>
     (\<forall>e\<in>set (login_events db). ev_type e = ''MFA_CHALLENGE'' \<and> ev_user e = Some u \<longrightarrow> ev_created_at e \<le> t)"

text \<open>A code is checked only after the challenges drawn before \<open>t\<close> have expired.\<close>

fun after_challenges :: "time \<Rightarrow> time \<times> account_request \<Rightarrow> bool" where
  "after_challenges t (now, VerifyOtp fr d) \<longleftrightarrow> now - t > minutes OTP_CHALLENGE_EXPIRY_MIN"
| "after_challenges t _ \<longleftrightarrow> True"

lemma closed_inert: "account_closed u t db \<Longrightarrow> inert u db db' \<Longrightarrow> account_closed u t db'"
proof -
  assume c: "account_closed u t db" and i: "inert u db db'"
  have "u \<in> us_id ` set (users db')" using c i unfolding account_closed_def inert_def by (meson subsetD)
  moreover have "us_status r' \<noteq> ''ACTIVE''" if r': "r' \<in> set (users db')" "us_id r' = u" for r'
  proof -
    obtain r where "r \<in> set (users db)" "us_id r = u" "us_status r = us_status r'" using r' i unfolding inert_def by blast
    with c show ?thesis unfolding account_closed_def by metis
  qed
  moreover have "ev_created_at e \<le> t" if "e \<in> set (login_events db')" "ev_type e = ''MFA_CHALLENGE''" "ev_user e = Some u" for e
    using c i that unfolding account_closed_def inert_def by blast
  ultimately show ?thesis by (simp add: account_closed_def)
qed

lemma inert_otp:
  assumes c: "account_closed u t db" and late: "now - t > minutes OTP_CHALLENGE_EXPIRY_MIN"
  shows "inert u db (snd (verifyOtp E now fr d db))"
proof (cases "challenge_event (od_challenge d) db")
  case None
  then show ?thesis by (simp add: verifyOtp_def)
next
  case (Some ch)
  then have ch: "ch \<in> set (login_events db)" "ev_type ch = ''MFA_CHALLENGE''"
    using latest_Some unfolding challenge_event_def by fast+
  have log: "inert u x (logLoginEvent now (Some v) ''MFA_FAILED'' m x)" for x v m by (rule inert_log) simp
  show ?thesis
  proof (cases "now - ev_created_at ch > minutes OTP_CHALLENGE_EXPIRY_MIN")
    case True
    then show ?thesis by (simp add: verifyOtp_def Some)
  next
    case False
    have "ev_user ch \<noteq> Some u"
    proof
      assume "ev_user ch = Some u"
      then have "ev_created_at ch \<le> t" using c ch unfolding account_closed_def by blast
      with False late show False by linarith
    qed
    moreover have acc: "inert u db (snd (accept_otp E now fr v d db))" if v: "v \<noteq> u" for v
    proof -
      let ?db1 = "record_login now v (logLoginEvent now (Some v) ''MFA_SUCCESS'' [(''challengeId'', od_challenge d)] db)"
      have i1: "inert u db ?db1" by (rule inert_trans [OF inert_log inert_record]) simp
      have t: "inert u x x'" if "registerTrustedDevice E now fr v x = Inr (raw, x')" for x raw x'
        using that by (intro inert_same) (auto simp: registerTrusted_Inr dest!: insert_trusted_Inr)
      show ?thesis
        using i1 inert_trans [OF i1 inert_session [OF _ v]] inert_trans [OF inert_trans [OF i1 inert_session [OF _ v]] t]
        by (auto simp: accept_otp_def Let_def split: option.split sum.split)
    qed
    ultimately show ?thesis using log False by (auto simp: verifyOtp_def Some split: option.split bind_splits)
  qed
qed

lemma inert_refresh:
  assumes c: "\<And>r. r \<in> set (users db) \<Longrightarrow> us_id r = u \<Longrightarrow> us_status r \<noteq> ''ACTIVE''"
  shows "inert u db (snd (auth_refresh E now fr raw db))"
proof -
  have log: "inert u x (logLoginEvent now v ty m x)" if "ty \<noteq> ''MFA_CHALLENGE''" for x v ty m by (rule inert_log) (simp add: that)
  have rev: "inert u db (revoke_session now s db)" for s by (rule inert_revoked) (simp_all add: revoke_session_def)
  show ?thesis
  proof (cases rule: auth_refresh_cases [of E now fr raw db])
    case (reused s e)
    have revs: "inert u db (revoke_sessions now p db)" for p by (rule inert_revoked) (simp_all add: revoke_sessions_def)
    have "inert u db (session_reused now s E db)"
      unfolding session_reused_def by (rule inert_trans [OF _ log]) (simp_all add: revs split: option.split)
    with reused show ?thesis by simp
  next
    case (rotated s v db1)
    with c have n: "ss_user s \<noteq> u" by metis
    from rotated(8) have "inert u (revoke_session now s db) db1" using n by (auto simp: inert_def insert_session_Inr new_session_def)
    from inert_trans [OF inert_trans [OF rev this] log] show ?thesis by (simp add: rotated(9))
  qed (use rev inert_trans [OF rev log] in simp_all)
qed

lemma exec_account_inert:
  assumes c: "account_closed u t db" and a: "after_challenges t req"
  shows "inert u db (exec_account E req db)"
proof (cases "(E, req, db)" rule: exec_account.cases)
  case (1 E' now fr d db')
  with c inert_register show ?thesis by (simp add: account_closed_def)
next
  case (2 E' now fr d tr db')
  with c show ?thesis by (auto simp: account_closed_def intro: inert_login)
next
  case (3 E' now fr d db')
  with inert_otp [OF c] a show ?thesis by simp
next
  case (4 E' now fr raw db')
  with c show ?thesis by (auto simp: account_closed_def intro: inert_refresh)
next
  case (5 E' now v raw db')
  have "inert u db (revoke_sessions now p db)" for p by (rule inert_revoked) (simp_all add: revoke_sessions_def)
  from inert_trans [OF this inert_log] 5 show ?thesis by (simp add: auth_logout_def split: option.split)
next
  case (9 E' now fr mail email db')
  have "inert u db (db\<lparr>sent_mails := m\<rparr>)" for m by (rule inert_same) simp_all
  from inert_trans [OF this inert_log] 9 show ?thesis by (simp add: forgotPassword_def split: option.split)
next
  case (10 E' now fr tok pw db')
  have "inert u db (snd (resetPassword E now fr tok pw db))"
  proof (cases rule: resetPassword_cases [of E now fr tok pw db])
    case (completed p jti r)
    let ?db1 = "revoke_sessions now (\<lambda>s. ss_user s = jp_sub p) (set_password E now fr (jp_sub p) pw db)"
    have "inert u (set_password E now fr (jp_sub p) pw db) ?db1" by (rule inert_revoked) (simp_all add: revoke_sessions_def)
    from inert_trans [OF inert_set_password this] have "inert u db ?db1" .
    then show ?thesis unfolding completed(7) by (rule inert_trans) (auto simp: inert_def Let_def)
  qed simp
  with 10 show ?thesis by simp
next
  case (11 E' now fr v cur new db')
  have "inert u db (snd (changePassword E now fr v cur new db))"
  proof (cases rule: changePassword_cases [of E now fr v cur new db])
    case (completed r cu)
    show ?thesis unfolding completed(5) Let_def
      by (rule inert_trans [OF inert_set_password [of u db E now fr v "or_string new []"]]) (auto simp: inert_def log_audit_def)
  qed simp
  with 11 show ?thesis by simp
qed (auto simp: setupMfa_def verifyMfa_def disableMfa_def Let_def intro!: inert_same split: option.split)

interpretation closed_accounts:
  selective_service "exec_account E" "\<lambda>db db'. account_closed u t db \<longrightarrow> account_closed u t db' \<and> inert u db db'" "after_challenges t"
  for E u t
  by unfold_locales (auto intro: exec_account_inert closed_inert [OF _ exec_account_inert] inert_trans)

text \<open>What an account operation does to the account.\<close>

lemma update_account_ok:
  assumes "\<not> exists_row (\<lambda>r. us_id r \<noteq> u \<and> us_email r = anonymizedEmail E u) (users (cp_auth db))"
  shows "update_account E f u db = (Inr (count_rows (\<lambda>r. us_id r = u) (users (cp_auth db))),
     db\<lparr>cp_auth := (cp_auth db)\<lparr>users := update_rows (\<lambda>r. us_id r = u) f (users (cp_auth db))\<rparr>,
        cp_contacts := update_rows (\<lambda>c. cn_user c = u)
          (\<lambda>c. c\<lparr>cn_username := None, cn_ip := None, cn_verified := False\<rparr>) (cp_contacts db)\<rparr>)"
  using assms by (simp add: update_account_def)

lemma scrub_both_auth: "scrub_both p db = (r, db') \<Longrightarrow> cp_auth db' = cp_auth db \<and> cp_contacts db' = cp_contacts db"
  by (auto simp: scrub_both_def scrub_mirror_def split: sum.splits option.splits)

lemma account_operation_auth:
  assumes "\<not> exists_row (\<lambda>r. us_id r \<noteq> u \<and> us_email r = anonymizedEmail E u) (users (cp_auth db))"
    and "account_operation E now name f u actor db = (res, db')"
  shows "users (cp_auth db') = update_rows (\<lambda>r. us_id r = u) f (users (cp_auth db)) \<and> sessions (cp_auth db') = sessions (cp_auth db) \<and>
    login_events (cp_auth db') = login_events (cp_auth db)"
proof -
  let ?db1 = "snd (update_account E f u db)"
  obtain r2 db2 where s: "anonymizeClientEventsForUser u ?db1 = (r2, db2)" by fastforce
  then have "cp_auth db2 = cp_auth ?db1" using scrub_both_auth unfolding anonymizeClientEventsForUser_def by blast
  moreover have "users (cp_auth ?db1) = update_rows (\<lambda>r. us_id r = u) f (users (cp_auth db))"
      "sessions (cp_auth ?db1) = sessions (cp_auth db)" "login_events (cp_auth ?db1) = login_events (cp_auth db)"
    by (simp_all add: update_account_ok [OF assms(1)])
  moreover have "cp_auth db' = cp_auth db2 \<or> (\<exists>det. db' = logOperation E now name (Some u) actor det db2)"
    using assms(2) s by (auto simp: account_operation_def update_account_ok [OF assms(1)] split: sum.splits)
  ultimately show ?thesis by auto
qed


section \<open>An example\<close>

definition example_compliance_env :: compliance_env where
  "example_compliance_env = \<lparr>ce_auth = example_account_env, ce_num = small_number, ce_text = (\<lambda>_. []), ce_cidrs = None,
     ce_version = None, ce_accepts = (\<lambda>_ _. True), ce_interval = (\<lambda>d. d \<le> 100000)\<rparr>"

definition example_event :: "uuid option \<Rightarrow> time \<Rightarrow> event_row" where
  "example_event u t = \<lparr>er_user = u, er_time = t, er_data = [(''event_type'', JStr ''AUTH_LOGIN''), (''client_ip'', JStr ''203.0.113.9'')]\<rparr>"

definition example_compliance :: "string list \<Rightarrow> compliance_db" where
  "example_compliance columns = \<lparr>cp_auth = example_accounts False,
     cp_contacts = [\<lparr>cn_user = 1, cn_username = Some ''ann'', cn_ip = Some ''203.0.113.9'', cn_verified = True\<rparr>],
     cp_events = \<lparr>et_columns = columns, et_rows = [example_event (Some 1) 5, example_event (Some 2) 6]\<rparr>,
     cp_mirror = Some \<lparr>et_columns = client_event_log_columns, et_rows = [example_event (Some 1) 5]\<rparr>, cp_operations = Some []\<rparr>"

lemma event_log_has_columns: "has_columns \<lparr>et_columns = client_event_log_columns, et_rows = rs\<rparr>"
proof -
  have "list_all (\<lambda>c. c \<in> set client_event_log_columns) PII" by code_simp
  then show ?thesis by (auto simp: has_columns_def list_all_iff)
qed

lemma deployed_lacks_columns: "et_columns t = client_events_columns \<Longrightarrow> \<not> has_columns t"
proof -
  have "\<not> list_all (\<lambda>c. c \<in> set client_events_columns) PII" by code_simp
  then show "et_columns t = client_events_columns \<Longrightarrow> \<not> has_columns t" by (auto simp: has_columns_def list_all_iff)
qed

lemma example_address_free:
  "\<not> exists_row (\<lambda>r. us_id r \<noteq> 1 \<and> us_email r = anonymizedEmail example_compliance_env 1) (users (cp_auth (example_compliance cols)))"
  by (simp add: example_compliance_def example_accounts_def example_user_def)

section \<open>Properties\<close>



text \<open>
  C40. An erased account stays closed: whatever the erasure returns, and over any requests that follow, as long
  as codes are checked only after the challenges drawn before the erasure have expired, the account never
  becomes active and gets no session beyond those it had.
\<close>

theorem erased_account_stays_out:
  assumes "eraseUser E now u actor db = (res, db')" and "exists_row (\<lambda>r. us_id r = u) (users (cp_auth db))"
    and "\<not> exists_row (\<lambda>r. us_id r \<noteq> u \<and> us_email r = anonymizedEmail E u) (users (cp_auth db))"
    and "\<forall>e\<in>set (login_events (cp_auth db)). ev_created_at e \<le> now" and "\<forall>req\<in>set reqs. after_challenges now req"
  shows "ss_id ` {s \<in> set (sessions (run_requests (exec_account E') reqs (cp_auth db'))). ss_user s = u} \<subseteq>
      ss_id ` {s \<in> set (sessions (cp_auth db)). ss_user s = u} \<and>
    \<not> exists_row (\<lambda>r. us_id r = u \<and> us_status r = ''ACTIVE'') (users (run_requests (exec_account E') reqs (cp_auth db')))"
proof -
  let ?fin = "run_requests (exec_account E') reqs (cp_auth db')"
  have auth: "users (cp_auth db') = update_rows (\<lambda>r. us_id r = u) (erased_user E now u) (users (cp_auth db))"
      "sessions (cp_auth db') = sessions (cp_auth db)" "login_events (cp_auth db') = login_events (cp_auth db)"
    using account_operation_auth [OF assms(3)] assms(1) unfolding eraseUser_def by blast+
  have id: "us_id (erased_user E now u r) = us_id r" "us_status (erased_user E now u r) = ''DELETED''" for r
    by (simp_all add: erased_user_def anonymous_user_def)
  obtain r0 where r0: "r0 \<in> set (users (cp_auth db))" "us_id r0 = u" using assms(2) by (auto simp: list_ex_iff)
  then have "erased_user E now u r0 \<in> set (users (cp_auth db'))" by (force simp: auth set_update_rows)
  then have "u \<in> us_id ` set (users (cp_auth db'))" using id(1) [of r0] r0(2) by (metis imageI)
  moreover have "us_status r \<noteq> ''ACTIVE''" if m: "r \<in> set (users (cp_auth db'))" and i: "us_id r = u" for r
  proof -
    obtain r1 where "r = (if us_id r1 = u then erased_user E now u r1 else r1)" using m unfolding auth(1) set_update_rows by blast
    with i id [of r1] show ?thesis by (auto split: if_splits)
  qed
  ultimately have "account_closed u now (cp_auth db')" using assms(4) by (simp add: account_closed_def auth(3))
  then have c: "account_closed u now ?fin" and i: "inert u (cp_auth db') ?fin"
    using closed_accounts.run_sel_leq [OF assms(5), where u = u and E = E' and s = "cp_auth db'"] by blast+
  from i have "ss_id ` {s \<in> set (sessions ?fin). ss_user s = u} \<subseteq> ss_id ` {s \<in> set (sessions (cp_auth db')). ss_user s = u}"
    unfolding inert_def by (auto simp: image_iff) metis
  with c show ?thesis by (auto simp: auth(2) account_closed_def list_ex_iff)
qed

theorem erased_account_stays_out_witness:
  "\<not> exists_row (\<lambda>r. us_id r = 1 \<and> us_status r = ''ACTIVE'')
     (users (run_requests (exec_account example_account_env) [(20, Login (example_draws 1 ''r1'') (example_login ''pw'') None),
        (30, RefreshSession (example_draws 2 ''r2'') ''r0'')]
        (cp_auth (snd (eraseUser example_compliance_env 9 1 None (example_compliance client_events_columns))))))"
proof -
  let ?e = "eraseUser example_compliance_env 9 1 None (example_compliance client_events_columns)"
  have e: "?e = (fst ?e, snd ?e)" by simp
  show ?thesis
    by (rule erased_account_stays_out [OF e _ example_address_free, THEN conjunct2])
      (simp_all add: example_compliance_def example_accounts_def example_user_def)
qed

text \<open>
  A retention run that the database accepts anonymises exactly the events older than the given number of
  days, in the table and in its mirror, and logs the run; anything but a positive number of days counts as
  365.
\<close>

theorem retention_window:
  assumes "has_columns (cp_events db)" "ce_interval E (retention_days d)"
  shows "\<exists>db'. applyRetention E now d actor db =
      (Inr (count_rows (older_than now (retention_days d)) (et_rows (cp_events db))), db') \<and>
    scrubbed (older_than now (retention_days d)) (cp_events db) (cp_events db') \<and>
    (\<forall>m. cp_mirror db = Some m \<and> has_columns m \<longrightarrow>
      (\<exists>m'. cp_mirror db' = Some m' \<and> scrubbed (older_than now (retention_days d)) m m')) \<and>
    operation_logged ''GDPR_RETENTION_RUN'' None actor now db' \<and> 0 < retention_days d \<and>
    ((\<nexists>n. d = Some (JNum n) \<and> 0 < n) \<longrightarrow> retention_days d = 365)"
proof -
  let ?p = "older_than now (retention_days d)"
  obtain db1 where s: "scrub_both ?p db = (Inr (count_rows ?p (et_rows (cp_events db))), db1)" "scrubbed ?p (cp_events db) (cp_events db1)"
      "\<forall>m. cp_mirror db = Some m \<and> has_columns m \<longrightarrow> (\<exists>m'. cp_mirror db1 = Some m' \<and> scrubbed ?p m m')"
    using scrub_both_effect [of ?p db] assms(1) by auto
  have "\<exists>det. applyRetention E now d actor db = (Inr (count_rows ?p (et_rows (cp_events db))),
      logOperation E now ''GDPR_RETENTION_RUN'' None actor det db1)"
    using assms(2) by (simp add: applyRetention_def Let_def s(1)) blast
  then obtain db' where a: "applyRetention E now d actor db = (Inr (count_rows ?p (et_rows (cp_events db))), db')"
      "cp_events db' = cp_events db1" "cp_mirror db' = cp_mirror db1" "operation_logged ''GDPR_RETENTION_RUN'' None actor now db'"
    by auto
  have "0 < retention_days d" "(\<nexists>n. d = Some (JNum n) \<and> 0 < n) \<longrightarrow> retention_days d = 365"
    by (auto simp: retention_days_def split: option.split json.split)
  then show ?thesis by (intro exI [of _ db'] conjI a(1,4)) (simp_all only: a(2,3) s(2), rule s(3))
qed

theorem retention_window_witness:
  "\<exists>db'. applyRetention example_compliance_env (days 400) None None (example_compliance client_event_log_columns) = (Inr 2, db') \<and>
    scrubbed (older_than (days 400) 365) (cp_events (example_compliance client_event_log_columns)) (cp_events db')"
proof -
  have d: "retention_days None = 365" by (simp add: retention_days_def)
  show ?thesis
    using retention_window [of "example_compliance client_event_log_columns" example_compliance_env None "days 400" None]
      event_log_has_columns
    by (auto simp: d example_compliance_def count_rows_def example_event_def older_than_def example_compliance_env_def)
qed

text \<open>
  On the event table of the migrations, which lacks the columns \<^verbatim>\<open>proxy_chain\<close>, \<^verbatim>\<open>geo_country_code\<close>,
  \<^verbatim>\<open>geo_region\<close> and \<^verbatim>\<open>geo_city\<close>, an erasure changes the account and then fails: the events keep their
  personal data and no log entry is written. No compliance event is ever recorded in this table either.
\<close>

theorem deployed_erasure_fails:
  assumes "et_columns (cp_events db) = client_events_columns"
    and "\<not> exists_row (\<lambda>r. us_id r \<noteq> u \<and> us_email r = anonymizedEmail E u) (users (cp_auth db))"
  shows "\<exists>db'. eraseUser E now u actor db = (Inl (SqlError ''42703''), db') \<and>
    users (cp_auth db') = update_rows (\<lambda>r. us_id r = u) (erased_user E now u) (users (cp_auth db)) \<and>
    cp_events db' = cp_events db \<and> cp_mirror db' = cp_mirror db \<and> cp_operations db' = cp_operations db \<and>
    audit_events (cp_auth db') = audit_events (cp_auth db) \<and> recordEvent E now eid i db = db"
proof -
  have n: "\<not> set PII \<subseteq> set client_events_columns" using deployed_lacks_columns [OF assms(1)] by (simp add: has_columns_def assms(1))
  have ev: "''event_version'' \<in> set (map fst (event_values E eid i))" by (simp add: event_values_def)
  have "''event_version'' \<notin> set client_events_columns" by code_simp
  with ev have "recordEvent E now eid i db = db" by (auto simp: recordEvent_def insert_event_def assms(1))
  then show ?thesis
    by (simp add: eraseUser_def account_operation_def update_account_ok [OF assms(2)] anonymizeClientEventsForUser_def
        scrub_both_def scrub_events_def assms(1) n)
qed

theorem deployed_erasure_fails_witness:
  "fst (eraseUser example_compliance_env 9 1 None (example_compliance client_events_columns)) = Inl (SqlError ''42703'')"
  using deployed_erasure_fails [OF _ example_address_free, of client_events_columns 9 None "''id''" blank_input]
  by (auto simp: example_compliance_def)

end
