(* ===== verification/Spec2Isabelle.thy ===== *)
theory Spec2Isabelle
  imports CardPayments LicenseControl EdgePoll GuestPreview Gdpr
begin

text \<open>
  The control plane of the Predict-A-Trade service, \<^verbatim>\<open>src/control/src\<close>: a NestJS server in TypeScript over
  a PostgreSQL database. Customers subscribe to plans, pay, get licenses, bind their MetaTrader terminals
  to them and poll trading signals; affiliates earn commissions on payments and draw them as payouts.
  The development models the services that carry this logic, the tables they share and the checks in
  front of them, statement by statement, and proves what keeps the money, the licenses and the delivery
  right under every sequence of requests.

  \<^bold>\<open>Parts and their interaction.\<close> A settled payment credits commissions (\<^verbatim>\<open>modules/commissions\<close>) to the
  sponsors of the payer; cleared commissions are reserved and paid by payouts (\<^verbatim>\<open>modules/payouts\<close>), which
  share the ledger and the wallets. A subscription (\<^verbatim>\<open>modules/subscriptions\<close>) is validated against its
  plan and invoiced (\<^verbatim>\<open>modules/billing\<close>); a paid subscription is given a license (\<^verbatim>\<open>modules/licensing\<close>). A
  terminal activates with the license key and from then on signs its requests (\<^verbatim>\<open>modules/device-auth\<close>);
  its signed polls claim signals from a queue (\<^verbatim>\<open>modules/edge-poll\<close>) that is filtered by the license. Users
  register and log in (\<^verbatim>\<open>modules/auth\<close>); their access tokens pass the guards (\<^verbatim>\<open>common/guards\<close>) in front of the
  endpoints. Visitors get a timed preview and register with a code sent by mail (\<^verbatim>\<open>modules/guest-preview\<close>);
  requests leave compliance events, and personal data is erased on demand (\<^verbatim>\<open>modules/compliance\<close>).

  \<^bold>\<open>How code becomes definitions.\<close> A table is a list of rows, a row a record with the columns the code
  reads and writes; \<^verbatim>\<open>UPDATE ... WHERE\<close> is \<open>update_rows\<close>, \<^verbatim>\<open>SELECT ... LIMIT 1\<close> is \<open>first_row\<close> or \<open>latest\<close>. A service
  method is a function from its arguments and the database to a result (an HTTP error or a value) and
  the new database; \<open>transaction\<close> is \<^verbatim>\<open>BEGIN ... COMMIT\<close> with \<^verbatim>\<open>ROLLBACK\<close> on an exception, and where the code
  has no transaction the statements before a failure stay. Unique indexes are checked by the inserts.
  The clock and the random identifiers are arguments. Statements of one request are not interleaved with
  those of another: the sequences of requests in the theorems are the serial orders of their
  transactions and single statements.

  \<^bold>\<open>Theories.\<close>
  \<^item> \<open>Prelude\<close>: errors, transactions, tables, JavaScript strings, and the locales \<open>guarded_service\<close> (an
    invariant kept by every request), \<open>selective_service\<close> and \<open>monotone_service\<close> (a relation between the
    states of a run). Every service below interprets them on its own request type.
  \<^item> \<open>Decimals\<close>: decimal.js as a parameter \<open>decimal_ops\<close> with its documented laws (locale and predicate on the
    operations), and an instance that rounds to twenty significant digits.
  \<^item> \<open>CommissionEngine\<close> (\<^verbatim>\<open>commission-engine.ts\<close>): the calculation pays exactly the levels it should, the second
    payment only the direct sponsor, and never more than the rates allow.
  \<^item> \<open>ReferralTables\<close>, \<open>Commissions\<close> (\<^verbatim>\<open>commissions.service.ts\<close>): the transition matrix with its wallet
    buckets; exact effect of a transition and of the clearing job, conservation of wallet totals,
    one credit per key.
  \<^item> \<open>Payouts\<close> (\<^verbatim>\<open>payouts.service.ts\<close>): first-in-first-out reservation without double reservation, the life
    cycle of payouts, one journal entry per paid payout.
  \<^item> \<open>Entitlements\<close> (\<^verbatim>\<open>entitlement-policy.ts\<close>, \<^verbatim>\<open>feature-access.ts\<close>): the validator is exact and the two feature tables
    agree.
  \<^item> \<open>Billing\<close> (\<^verbatim>\<open>billing.service.ts\<close>), \<open>Subscriptions\<close> (\<^verbatim>\<open>subscriptions.service.ts\<close>): invoice arithmetic, one invoice
    per period, authentic and deduplicated webhooks, faithful HTML escapes; entitlements within the plan,
    isolation of users, the transition table.
  \<^item> \<open>Payments\<close> (\<^verbatim>\<open>nowpayments.service.ts\<close>): checkout and payment notification across the billing, referral and
    license tables: a payment is completed only if it is paid, and settled exactly once. \<open>CardPayments\<close>
    (\<^verbatim>\<open>stripe.service.ts\<close>): paid events settle their subscription, and nothing else touches it.
  \<^item> \<open>LicenseTables\<close>, \<open>Codecs\<close> (base64, hexadecimal, \<^verbatim>\<open>parseInt\<close>, with the base64 round trip), \<open>DeviceAuth\<close>
    (\<^verbatim>\<open>device-auth.service.ts\<close>): refresh tokens are single-use, re-activation reuses the device, activated devices
    can sign, signed requests cannot be replayed, revoked devices are locked out.
  \<^item> \<open>Licensing\<close> (\<^verbatim>\<open>licensing.service.ts\<close>): paid subscriptions are licensed, tenants are isolated, one active
    terminal per device, the public validation is exact.
  \<^item> \<open>LicenseControl\<close>: both services on one database: revoked licenses are refused everywhere, and the device
    slots hold over every interleaving of terminal and user requests.
  \<^item> \<open>EdgePoll\<close> (\<^verbatim>\<open>edge-poll.service.ts\<close>, \<^verbatim>\<open>edge-poll.controller.ts\<close>): a poll implements its specification exactly, closed
    signals are never delivered again, attempts are bounded by fifty.
  \<^item> \<open>Auth\<close> (\<^verbatim>\<open>auth.service.ts\<close>): accounts, sessions, second factors and passwords, with what each request touches;
    \<open>Accounts\<close>: the evidence a session needs, the lockout, the bound on guesses of a one-time code, the end
    of reused refresh tokens and of sessions after a reset.
  \<^item> \<open>Guards\<close> (\<^verbatim>\<open>jwt-auth.guard.ts\<close>, \<^verbatim>\<open>admin.guard.ts\<close>, \<^verbatim>\<open>roles.guard.ts\<close>): administrators are revalidated;
    \<open>Controllers\<close> (\<^verbatim>\<open>payouts.controller.ts\<close>, \<^verbatim>\<open>commissions.controller.ts\<close>, \<^verbatim>\<open>auth.controller.ts\<close>): runs of HTTP calls refine
    runs of authorised service requests, and cookies carry the tokens of sessions just opened.
  \<^item> \<open>GuestPreview\<close> (\<^verbatim>\<open>guest-preview.service.ts\<close>): a guest is admitted only with the code of the newest open
    challenge and with the recorded consent, guesses are bounded, previews end, opt-outs persist.
  \<^item> \<open>Compliance\<close> (\<^verbatim>\<open>compliance.service.ts\<close>): redaction hides every sensitive key of nested objects, the masked
    comparison of trusted proxies is containment in their ranges, telemetry is kept only within its limits.
    \<open>Gdpr\<close> (\<^verbatim>\<open>gdpr.service.ts\<close>, \<^verbatim>\<open>compliance.controller.ts\<close>): events with the columns of their table, erasure, and,
    together with \<open>Accounts\<close>, that an erased account opens no session; on the table of the migrations the
    erasure fails half-way.
  \<^item> This theory: commissions and payouts interleaved on the shared ledger and wallets.

  \<^bold>\<open>Parameters.\<close> decimal.js (\<open>decimal_ops\<close>), the conversion of a decimal to a number (\<open>num\<close>), SHA-256, HMAC, AES-GCM and
  JWT signing (\<open>crypto_ops\<close>, \<open>auth_env\<close> with password hashing and one-time codes), the origin of a URL, calendar
  arithmetic of the database (\<open>cal\<close>), its casts of texts (\<open>pg_casts\<close>, \<open>ce_accepts\<close>, \<open>ce_interval\<close>), and the conversions
  between numbers and texts (\<open>ce_num\<close>, \<open>ce_text\<close>) are arguments of the definitions. A theorem that needs one of their laws names it as a hypothesis
  (\<open>decimal_arith\<close>, \<open>aes_inverts\<close>) and its witness instantiates it. Texts are lists of one-byte characters;
  the dash and the arrow in two license messages are written in ASCII.

  \<^bold>\<open>Loops and bounds.\<close> Every loop of the modelled code runs over an array or over rows and is a structural
  recursion or a fold, so all definitions are total and no fuel is needed. Amounts are exact rationals;
  the bounds on prices and rates in the theorems are those of the columns (\<^verbatim>\<open>NUMERIC(18,8)\<close>).

  \<^bold>\<open>Not modelled.\<close> The administration is mostly aggregate queries over the modelled tables, and the backtest
  module keeps job records around a research service in another language. The front end, the chat assistants, mail and monitoring are input and
  output around external services; the realtime engine, the research code and the MetaTrader programs
  are written in other languages, and the engine's insert into the signal queue is an event of \<open>EdgePoll\<close>.
  Read-only listings whose order is the collation of the database are left out.
\<close>

section \<open>Commissions and payouts together\<close>

text \<open>
  C11. However the requests of the commission service and of the payout service interleave, the total
  of a wallet's six buckets changes exactly by the manual adjustments recorded for its owner:
  requesting, approving, cancelling and reconciling payouts neither creates nor destroys money.
\<close>

theorem referral_totals_conserved:
  assumes "ledger_wf db"
  shows "wallet_total (affiliate_wallets (run_requests (exec_referral D) reqs db)) u c -
           manual_sum (run_requests (exec_referral D) reqs db) u c =
         wallet_total (affiliate_wallets db) u c - manual_sum db u c"
  using referral_conservation.run_leq [of db D reqs] assms by (simp add: conserves_def)

theorem referral_totals_conserved_witness:
  "wallet_total (affiliate_wallets (run_requests (exec_referral dec20)
     [PayoutReq (9, RequestPayout 70 11 (usdt_request 60)), CommissionReq (10, (\<lambda>i. i), Hold 1 ''x'' 99),
      PayoutReq (11, ApprovePayout 70 None), PayoutReq (12, ReconcilePayout 70 None None None),
      CommissionReq (days 60, (\<lambda>i. i), Clear)] payout_db)) 11 ''USD'' -
   manual_sum (run_requests (exec_referral dec20)
     [PayoutReq (9, RequestPayout 70 11 (usdt_request 60)), CommissionReq (10, (\<lambda>i. i), Hold 1 ''x'' 99),
      PayoutReq (11, ApprovePayout 70 None), PayoutReq (12, ReconcilePayout 70 None None None),
      CommissionReq (days 60, (\<lambda>i. i), Clear)] payout_db) 11 ''USD'' = 100"
proof -
  have "ledger_wf payout_db"
    by (simp add: ledger_wf_def payout_db_def example_db_def example_commission_def)
  moreover have "wallet_total (affiliate_wallets payout_db) 11 ''USD'' - manual_sum payout_db 11 ''USD'' = 100"
    by (simp add: wallet_total_def balance_def manual_sum_def manual_of_def payout_db_def example_db_def)
  ultimately show ?thesis by (simp only: referral_totals_conserved)
qed

end
